(* ===== verification/Prelude.thy ===== *)
theory Prelude
  imports Main "HOL-Library.AList" "HOL-Library.Word" "HOL-Library.Sublist"
begin

text \<open>
  What the component theories share: the machine integers the server computes with, the
  hash map of the Rust standard library as an association list, its interface as a
  locale, order-preserving deduplication through a \<open>HashSet\<close>, and the collections of
  simplification rules that the component proofs name.
\<close>

named_theorems hm_simps \<open>lookups in updated hash maps\<close>
named_theorems op_defs \<open>definitions of the store transactions\<close>

section \<open>Machine integers\<close>

text \<open>
  A byte of a buffer is a \<^typ>\<open>char\<close>, HOL's type of the 256 eight-bit values, so that a
  \<open>Vec<u8>\<close> and the bytes of a string have one type; \<^const>\<open>of_char\<close> is \<open>as usize\<close>
  and \<^const>\<open>char_of\<close>, which reduces modulo 256, is \<open>as u8\<close>. The counters the server
  computes with are words of their width.
\<close>

type_synonym byte = char
type_synonym bytes = "byte list"
type_synonym u8 = "8 word"
type_synonym u16 = "16 word"
type_synonym u32 = "32 word"
type_synonym u64 = "64 word"
type_synonym u128 = "128 word"

text \<open>
  A signed 64-bit value is an \<^typ>\<open>int\<close> kept in range by the operations that produce
  one: \<open>as i64\<close> reinterprets the bits of a \<open>u64\<close>, the plain addition wraps (the
  release profile has no overflow checks), \<open>saturating_sub\<close> stops at the bounds.
\<close>

type_synonym i64 = int

definition as_i64 :: "u64 \<Rightarrow> i64" where
  "as_i64 w = sint w"

definition i64_add :: "i64 \<Rightarrow> i64 \<Rightarrow> i64" where
  "i64_add a b = signed_take_bit 63 (a + b)"

definition i64_saturating_sub :: "i64 \<Rightarrow> i64 \<Rightarrow> i64" where
  "i64_saturating_sub a b = max (- (2 ^ 63)) (min (2 ^ 63 - 1) (a - b))"

definition in_i64 :: "int \<Rightarrow> bool" where
  "in_i64 x \<longleftrightarrow> - (2 ^ 63) \<le> x \<and> x < 2 ^ 63"

definition saturating_add :: "'a::len word \<Rightarrow> 'a word \<Rightarrow> 'a word" where
  "saturating_add a b = (if unat a + unat b < 2 ^ LENGTH('a) then a + b else - 1)"

definition saturating_sub :: "'a::len word \<Rightarrow> 'a word \<Rightarrow> 'a word" where
  "saturating_sub a b = (if b \<le> a then a - b else 0)"

lemma i64_add_exact: "in_i64 (a + b) \<Longrightarrow> i64_add a b = a + b"
  by (simp add: i64_add_def in_i64_def signed_take_bit_int_eq_self)

lemma i64_add_in_range: "in_i64 (i64_add a b)"
  using signed_take_bit_int_less_exp [of 63 "a + b"]
    signed_take_bit_int_greater_eq_minus_exp [of 63 "a + b"]
  by (simp add: i64_add_def in_i64_def)

lemma as_i64_in_range: "in_i64 (as_i64 w)"
  using sint_ge [of w] sint_lt [of w] by (simp add: as_i64_def in_i64_def)

lemma as_i64_small: "uint w < 2 ^ 63 \<Longrightarrow> as_i64 w = uint w"
  by (simp add: as_i64_def sint_uint signed_take_bit_int_eq_self order_trans [OF _ uint_ge_0])

lemma i64_saturating_sub_exact: "in_i64 (a - b) \<Longrightarrow> i64_saturating_sub a b = a - b"
  by (simp add: i64_saturating_sub_def in_i64_def)

lemma i64_saturating_sub_in_range: "in_i64 (i64_saturating_sub a b)"
  by (simp add: i64_saturating_sub_def in_i64_def min_def max_def)

lemma i64_saturating_sub_gt_iff:
  "- (2 ^ 63) \<le> c \<Longrightarrow> c < 2 ^ 63 - 1 \<Longrightarrow> c < i64_saturating_sub a b \<longleftrightarrow> c < a - b"
  by (auto simp: i64_saturating_sub_def in_i64_def)

lemma saturating_add_mono: "a \<le> saturating_add a b"
  by (simp add: saturating_add_def)
    (simp add: word_le_nat_alt unat_word_ariths)

lemma saturating_add_strict: "b \<noteq> 0 \<Longrightarrow> a \<noteq> - 1 \<Longrightarrow> a < saturating_add a b"
proof (cases "unat a + unat b < 2 ^ LENGTH('a)")
  case True
  assume "b \<noteq> 0"
  with True show ?thesis
    by (simp add: saturating_add_def word_less_nat_alt unat_word_ariths unat_gt_0)
next
  case False
  assume "a \<noteq> - 1"
  with False show ?thesis
    by (simp add: saturating_add_def) (metis word_order.extremum_strict word_order.not_eq_extremum)
qed

lemma saturating_sub_less: "b \<noteq> 0 \<Longrightarrow> a \<noteq> 0 \<Longrightarrow> unat (saturating_sub a b) < unat (a :: 'a::len word)"
  by (auto simp: saturating_sub_def unat_sub unat_gt_0 word_neq_0_conv [symmetric] intro!: diff_less)


lemma unat_of_nat_small: "n < 2 ^ LENGTH('a) \<Longrightarrow> unat (of_nat n :: 'a::len word) = n"
  by (simp add: unsigned_of_nat take_bit_nat_eq_self)

lemma unat_plus_exact:
  "unat a + unat b < 2 ^ LENGTH('a) \<Longrightarrow> unat (a + b) = unat a + unat (b :: 'a::len word)"
  by (simp add: unat_word_ariths)

section \<open>Order-preserving deduplication through a hash set\<close>

text \<open>
  The idiom \<open>if seen.insert(x) { out.push(x) }\<close>: an element is kept when the set did not
  hold it yet.
\<close>

fun retain_fresh :: "'a set \<Rightarrow> 'a list \<Rightarrow> 'a list" where
  "retain_fresh seen [] = []"
| "retain_fresh seen (x # xs) =
     (if x \<in> seen then retain_fresh seen xs else x # retain_fresh (insert x seen) xs)"

lemma set_retain_fresh: "set (retain_fresh seen xs) = set xs - seen"
  by (induction xs arbitrary: seen) auto

lemma distinct_retain_fresh: "distinct (retain_fresh seen xs)"
  by (induction xs arbitrary: seen) (auto simp: set_retain_fresh)

lemma subseq_retain_fresh: "subseq (retain_fresh seen xs) xs"
  by (induction xs arbitrary: seen) auto

lemma retain_fresh_distinct: "distinct xs \<Longrightarrow> set xs \<inter> seen = {} \<Longrightarrow> retain_fresh seen xs = xs"
  by (induction xs arbitrary: seen) auto

section \<open>Hash maps\<close>

text \<open>
  A \<open>HashMap\<close> is the list of its entries. The order of the list stands for the iteration
  order, which the standard library leaves unspecified; \<open>hm_wf\<close> says that no key occurs
  twice, which every operation keeps.
\<close>

type_synonym ('k, 'v) hmap = "('k \<times> 'v) list"

definition hm_empty :: "('k, 'v) hmap" where
  "hm_empty = []"

definition hm_get :: "('k, 'v) hmap \<Rightarrow> 'k \<Rightarrow> 'v option" where
  "hm_get m k = map_of m k"

definition hm_contains_key :: "('k, 'v) hmap \<Rightarrow> 'k \<Rightarrow> bool" where
  "hm_contains_key m k \<longleftrightarrow> hm_get m k \<noteq> None"

definition hm_insert :: "'k \<Rightarrow> 'v \<Rightarrow> ('k, 'v) hmap \<Rightarrow> ('k, 'v) hmap" where
  "hm_insert k v m = AList.update k v m"

definition hm_remove :: "'k \<Rightarrow> ('k, 'v) hmap \<Rightarrow> ('k, 'v) hmap" where
  "hm_remove k m = AList.delete k m"

definition hm_retain :: "('k \<Rightarrow> 'v \<Rightarrow> bool) \<Rightarrow> ('k, 'v) hmap \<Rightarrow> ('k, 'v) hmap" where
  "hm_retain P m = filter (\<lambda>(k, v). P k v) m"

definition hm_values :: "('k, 'v) hmap \<Rightarrow> 'v list" where
  "hm_values m = map snd m"

definition hm_wf :: "('k, 'v) hmap \<Rightarrow> bool" where
  "hm_wf m \<longleftrightarrow> distinct (map fst m)"

text \<open>Two ways to state an invariant of a map: of each entry, and of each two entries.\<close>

definition hm_each :: "('k \<Rightarrow> 'v \<Rightarrow> bool) \<Rightarrow> ('k, 'v) hmap \<Rightarrow> bool" where
  "hm_each P m \<longleftrightarrow> list_all (\<lambda>(k, v). P k v) m"

definition hm_pairwise :: "('v \<Rightarrow> 'v \<Rightarrow> bool) \<Rightarrow> ('k, 'v) hmap \<Rightarrow> bool" where
  "hm_pairwise R m \<longleftrightarrow> list_all (\<lambda>(k, v). list_all (\<lambda>(k', v'). k = k' \<or> R v v') m) m"

text \<open>The contract of the standard library's map, and what its clients derive from it.\<close>

locale hash_map =
  fixes empty :: 'm
    and get :: "'m \<Rightarrow> 'k \<Rightarrow> 'v option"
    and put :: "'k \<Rightarrow> 'v \<Rightarrow> 'm \<Rightarrow> 'm"
    and del :: "'k \<Rightarrow> 'm \<Rightarrow> 'm"
    and keep :: "('k \<Rightarrow> 'v \<Rightarrow> bool) \<Rightarrow> 'm \<Rightarrow> 'm"
    and vals :: "'m \<Rightarrow> 'v list"
    and each :: "('k \<Rightarrow> 'v \<Rightarrow> bool) \<Rightarrow> 'm \<Rightarrow> bool"
    and pairs :: "('v \<Rightarrow> 'v \<Rightarrow> bool) \<Rightarrow> 'm \<Rightarrow> bool"
    and ok :: "'m \<Rightarrow> bool"
  assumes get_empty: "get empty k = None"
    and get_put: "get (put k v m) = (get m)(k \<mapsto> v)"
    and get_del: "get (del k m) = (get m)(k := None)"
    and get_keep: "ok m \<Longrightarrow> get (keep P m) k = Some v \<longleftrightarrow> get m k = Some v \<and> P k v"
    and vals_iff: "ok m \<Longrightarrow> v \<in> set (vals m) \<longleftrightarrow> (\<exists>k. get m k = Some v)"
    and each_iff: "ok m \<Longrightarrow> each P m \<longleftrightarrow> (\<forall>k v. get m k = Some v \<longrightarrow> P k v)"
    and pairs_iff: "ok m \<Longrightarrow>
      pairs R m \<longleftrightarrow> (\<forall>i j x y. get m i = Some x \<longrightarrow> get m j = Some y \<longrightarrow> i \<noteq> j \<longrightarrow> R x y)"
    and ok_empty: "ok empty"
    and ok_put: "ok m \<Longrightarrow> ok (put k v m)"
    and ok_del: "ok m \<Longrightarrow> ok (del k m)"
    and ok_keep: "ok m \<Longrightarrow> ok (keep P m)"
begin

lemma each_empty: "each P empty"
  by (simp add: each_iff ok_empty get_empty)

lemma pairs_empty: "pairs R empty"
  by (simp add: pairs_iff ok_empty get_empty)

lemma each_get: "ok m \<Longrightarrow> each P m \<Longrightarrow> get m k = Some v \<Longrightarrow> P k v"
  by (simp add: each_iff)

lemma pairs_get:
  "ok m \<Longrightarrow> pairs R m \<Longrightarrow> get m i = Some x \<Longrightarrow> get m j = Some y \<Longrightarrow> i \<noteq> j \<Longrightarrow> R x y"
  by (simp add: pairs_iff)

lemma each_put: "ok m \<Longrightarrow> each P m \<Longrightarrow> P k v \<Longrightarrow> each P (put k v m)"
  by (simp add: each_iff ok_put get_put)

lemma each_del: "ok m \<Longrightarrow> each P m \<Longrightarrow> each P (del k m)"
  by (simp add: each_iff ok_del get_del)

lemma each_keep: "ok m \<Longrightarrow> each P m \<Longrightarrow> each P (keep Q m)"
  by (simp add: each_iff ok_keep get_keep)

lemma each_mono:
  "ok m \<Longrightarrow> each P m \<Longrightarrow> (\<And>k v. get m k = Some v \<Longrightarrow> P k v \<Longrightarrow> Q k v) \<Longrightarrow> each Q m"
  by (simp add: each_iff)

lemma pairs_put:
  assumes "ok m" and "pairs R m"
    and "\<And>k' y. get m k' = Some y \<Longrightarrow> k' \<noteq> k \<Longrightarrow> R v y \<and> R y v"
  shows "pairs R (put k v m)"
  using assms by (auto simp: pairs_iff ok_put get_put)

text \<open>An entry replaced by one that relates to the others as the old one did.\<close>

lemma pairs_replace:
  assumes "ok m" and "pairs R m" and "get m k = Some old"
    and "\<And>y. R old y \<Longrightarrow> R v y" and "\<And>y. R y old \<Longrightarrow> R y v"
  shows "pairs R (put k v m)"
  using assms by (intro pairs_put) (auto simp: pairs_iff)

lemma pairs_del: "ok m \<Longrightarrow> pairs R m \<Longrightarrow> pairs R (del k m)"
  by (simp add: pairs_iff ok_del get_del)

lemma vals_each: "ok m \<Longrightarrow> each P m \<Longrightarrow> v \<in> set (vals m) \<Longrightarrow> \<exists>k. get m k = Some v \<and> P k v"
  by (auto simp: vals_iff each_iff)

end

lemma hm_get_retain:
  "hm_wf m \<Longrightarrow> hm_get (hm_retain P m) k = Some v \<longleftrightarrow> hm_get m k = Some v \<and> P k v"
  by (auto simp: hm_wf_def hm_get_def hm_retain_def distinct_map_filter)

interpretation hm: hash_map hm_empty hm_get hm_insert hm_remove hm_retain hm_values
  hm_each hm_pairwise hm_wf
proof (unfold_locales, goal_cases)
  case 1 show ?case by (simp add: hm_empty_def hm_get_def)
next
  case 2 show ?case by (rule ext) (simp add: hm_insert_def hm_get_def update_conv)
next
  case 3 show ?case by (rule ext) (simp add: hm_remove_def hm_get_def delete_conv)
next
  case 4 then show ?case by (rule hm_get_retain)
next
  case 5 then show ?case by (force simp: hm_wf_def hm_values_def hm_get_def image_iff)
next
  case 6 then show ?case by (auto simp: hm_wf_def hm_each_def hm_get_def list_all_iff)
next
  case 7 then show ?case
    by (auto simp: hm_wf_def hm_pairwise_def hm_get_def list_all_iff)
next
  case 8 show ?case by (simp add: hm_empty_def hm_wf_def)
next
  case 9 then show ?case by (simp add: hm_wf_def hm_insert_def distinct_update)
next
  case 10 then show ?case by (simp add: hm_wf_def hm_remove_def distinct_delete)
next
  case 11 then show ?case by (simp add: hm_wf_def hm_retain_def distinct_map_filter)
qed

lemmas [hm_simps] = hm.get_empty hm.get_put hm.get_del hm_contains_key_def

lemmas hm_wfs [intro, simp] = hm.ok_empty hm.ok_put hm.ok_del hm.ok_keep

lemma hm_insert_length: "length (hm_insert k v m) \<le> Suc (length m)"
  unfolding hm_insert_def by (induction m) auto

end
