(* ===== verification/Rust_Str.thy ===== *)
theory Rust_Str
  imports Prelude "HOL-Library.Char_ord" "HOL-Library.List_Lexorder"
begin

text \<open>
  The part of \<open>str\<close> the server uses. A \<open>String\<close> is the list of its UTF-8 bytes, so
  \<open>len\<close> is \<^const>\<open>length\<close> and the ordering is the lexicographic one of
  HOL-Library; whitespace is the Unicode property \<open>White_Space\<close>, as \<open>str::trim\<close>
  has it, given by the byte sequences of its 25 characters.
\<close>

section \<open>Trimming\<close>

definition white_space :: "string list" where
  "white_space =
     map (\<lambda>n. [char_of (n :: nat)]) [9, 10, 11, 12, 13, 32]
     @ map (\<lambda>n. [char_of (0xC2 :: nat), char_of (n :: nat)]) [0x85, 0xA0]
     @ [map char_of [0xE1 :: nat, 0x9A, 0x80]]
     @ map (\<lambda>n. map char_of [0xE2, 0x80, n :: nat])
         [0x80, 0x81, 0x82, 0x83, 0x84, 0x85, 0x86, 0x87, 0x88, 0x89, 0x8A, 0xA8, 0xA9, 0xAF]
     @ [map char_of [0xE2 :: nat, 0x81, 0x9F], map char_of [0xE3 :: nat, 0x80, 0x80]]"

text \<open>Dropping leading members of a list of words, for as long as there is one.\<close>

function strip_words :: "'a list list \<Rightarrow> 'a list \<Rightarrow> 'a list" where
  "strip_words ws s =
     (case find (\<lambda>w. w \<noteq> [] \<and> prefix w s) ws of
        None \<Rightarrow> s
      | Some w \<Rightarrow> strip_words ws (drop (length w) s))"
  by pat_completeness auto
termination
proof (relation "measure (length \<circ> snd)", goal_cases)
  case 1 show ?case by simp
next
  case (2 ws s w)
  then have "w \<noteq> []" "prefix w s"
    by (auto simp: find_Some_iff)
  then show ?case
    by (auto simp: prefix_def)
qed

declare strip_words.simps [simp del]

definition trim_start :: "string \<Rightarrow> string" where
  "trim_start s = strip_words white_space s"

definition trim_end :: "string \<Rightarrow> string" where
  "trim_end s = rev (strip_words (map rev white_space) (rev s))"

definition trim :: "string \<Rightarrow> string" where
  "trim s = trim_end (trim_start s)"

definition trim_end_matches :: "char \<Rightarrow> string \<Rightarrow> string" where
  "trim_end_matches c s = rev (dropWhile (\<lambda>x. x = c) (rev s))"

definition unstripped :: "'a list list \<Rightarrow> 'a list \<Rightarrow> bool" where
  "unstripped ws s \<longleftrightarrow> (\<forall>w\<in>set ws. w = [] \<or> \<not> prefix w s)"

lemma strip_words_unstripped: "unstripped ws (strip_words ws s)"
proof (induction ws s rule: strip_words.induct)
  case (1 ws s)
  show ?case
  proof (cases "find (\<lambda>w. w \<noteq> [] \<and> prefix w s) ws")
    case None
    then show ?thesis
      by (simp add: strip_words.simps [of ws s]) (auto simp: unstripped_def find_None_iff)
  next
    case (Some w)
    with "1.IH" show ?thesis by (simp add: strip_words.simps [of ws s])
  qed
qed

lemma strip_words_id: "unstripped ws s \<Longrightarrow> strip_words ws s = s"
  by (subst strip_words.simps) (auto simp: unstripped_def find_Some_iff split: option.split)

lemma strip_words_suffix: "suffix (strip_words ws s) s"
proof (induction ws s rule: strip_words.induct)
  case (1 ws s)
  show ?case
    by (subst strip_words.simps, cases "find (\<lambda>w. w \<noteq> [] \<and> prefix w s) ws")
      (auto intro: suffix_order.trans [OF "1.IH"] suffix_drop)
qed

lemma unstripped_prefix: "unstripped ws s \<Longrightarrow> prefix t s \<Longrightarrow> unstripped ws t"
  by (auto simp: unstripped_def dest: prefix_order.trans)

lemma trim_end_prefix: "prefix (trim_end s) s"
  using strip_words_suffix [of "map rev white_space" "rev s"]
  by (simp add: trim_end_def suffix_to_prefix)

text \<open>A trimmed string neither starts nor ends with whitespace, and trimming again changes nothing.\<close>

lemma trim_unstripped: "unstripped white_space (trim s)"
  unfolding trim_def trim_start_def
  by (rule unstripped_prefix [OF strip_words_unstripped trim_end_prefix])

lemma trim_end_unstripped: "unstripped (map rev white_space) (rev (trim s))"
  by (simp add: trim_def trim_end_def strip_words_unstripped)

lemma trim_idem [simp]: "trim (trim s) = trim s"
proof -
  have "trim_start (trim s) = trim s"
    by (simp add: trim_start_def strip_words_id trim_unstripped)
  moreover have "trim_end (trim s) = trim s"
    by (simp add: trim_end_def strip_words_id trim_end_unstripped)
  ultimately show ?thesis by (simp add: trim_def)
qed

text \<open>A visible ASCII character starts and ends no white space, so a text between two of them is trimmed.\<close>

definition visible :: "char \<Rightarrow> bool" where
  "visible c \<longleftrightarrow> (33 :: nat) \<le> of_char c \<and> of_char c \<le> (126 :: nat)"

lemma white_space_not_visible: "list_all (\<lambda>w. w \<noteq> [] \<and> \<not> visible (hd w) \<and> \<not> visible (last w)) white_space"
  by (simp add: white_space_def visible_def)

lemma unstripped_visible:
  assumes "list_all (\<lambda>w. w \<noteq> [] \<and> \<not> visible (hd w)) ws" and "s \<noteq> []" and "visible (hd s)"
  shows "unstripped ws s"
  using assms by (auto simp: unstripped_def list_all_iff prefix_def)

lemma trim_visible:
  assumes "s \<noteq> []" and "visible (hd s)" and "visible (last s)"
  shows "trim s = s"
proof -
  have "unstripped white_space s" "unstripped (map rev white_space) (rev s)"
    using assms white_space_not_visible
    by (auto intro!: unstripped_visible simp: hd_rev list.pred_map elim!: list.pred_mono_strong)
  then show ?thesis by (simp add: trim_def trim_start_def trim_end_def strip_words_id)
qed

lemma trim_set: "set (trim s) \<subseteq> set s"
proof -
  have "set (trim s) \<subseteq> set (trim_start s)"
    using trim_end_prefix [of "trim_start s"] set_mono_prefix by (simp add: trim_def)
  also have "\<dots> \<subseteq> set s"
    using strip_words_suffix [of white_space s] set_mono_suffix by (simp add: trim_start_def)
  finally show ?thesis .
qed

lemma trim_empty [simp]: "trim [] = []"
  using trim_set [of "[]"] by simp

section \<open>Prefixes, suffixes and splitting\<close>

definition strip_prefix :: "string \<Rightarrow> string \<Rightarrow> string option" where
  "strip_prefix p s = (if prefix p s then Some (drop (length p) s) else None)"

definition starts_with :: "string \<Rightarrow> string \<Rightarrow> bool" where
  "starts_with s p \<longleftrightarrow> prefix p s"

definition ends_with :: "string \<Rightarrow> string \<Rightarrow> bool" where
  "ends_with s p \<longleftrightarrow> suffix p s"

definition split_once :: "char \<Rightarrow> string \<Rightarrow> (string \<times> string) option" where
  "split_once c s =
     (if c \<in> set s then Some (takeWhile (\<lambda>x. x \<noteq> c) s, tl (dropWhile (\<lambda>x. x \<noteq> c) s)) else None)"

definition rsplit_once :: "char \<Rightarrow> string \<Rightarrow> (string \<times> string) option" where
  "rsplit_once c s = map_option (\<lambda>(a, b). (rev b, rev a)) (split_once c (rev s))"

fun split_on :: "char \<Rightarrow> string \<Rightarrow> string list" where
  "split_on c [] = [[]]"
| "split_on c (x # xs) =
     (if x = c then [] # split_on c xs
      else (case split_on c xs of [] \<Rightarrow> [[x]] | p # ps \<Rightarrow> (x # p) # ps))"

lemma split_once_append: "c \<notin> set a \<Longrightarrow> split_once c (a @ c # b) = Some (a, b)"
proof -
  assume "c \<notin> set a"
  then have "takeWhile (\<lambda>x. x \<noteq> c) (a @ c # b) = a" "dropWhile (\<lambda>x. x \<noteq> c) (a @ c # b) = c # b"
    by (induction a) auto
  then show ?thesis by (simp add: split_once_def)
qed

lemma split_once_None: "split_once c s = None \<longleftrightarrow> c \<notin> set s"
  by (simp add: split_once_def)

lemma split_once_Some: "split_once c s = Some (a, b) \<longleftrightarrow> s = a @ c # b \<and> c \<notin> set a"
proof
  assume "split_once c s = Some (a, b)"
  then have c: "c \<in> set s" and ab: "a = takeWhile (\<lambda>x. x \<noteq> c) s" "b = tl (dropWhile (\<lambda>x. x \<noteq> c) s)"
    by (auto simp: split_once_def split: if_splits)
  from c have "dropWhile (\<lambda>x. x \<noteq> c) s = c # b"
    unfolding ab by (induction s) auto
  then have "s = a @ c # b"
    by (metis ab(1) takeWhile_dropWhile_id)
  moreover have "c \<notin> set a"
    using ab(1) set_takeWhileD by metis
  ultimately show "s = a @ c # b \<and> c \<notin> set a" ..
qed (auto simp: split_once_append)

lemma rsplit_once_Some: "rsplit_once c s = Some (a, b) \<longleftrightarrow> s = a @ c # b \<and> c \<notin> set b"
proof -
  have "rsplit_once c s = Some (a, b) \<longleftrightarrow> split_once c (rev s) = Some (rev b, rev a)"
    by (auto simp: rsplit_once_def)
  also have "\<dots> \<longleftrightarrow> s = a @ c # b \<and> c \<notin> set b"
    by (auto simp: split_once_Some) (metis rev_rev_ident rev_append rev.simps(2) append_assoc append_Cons append_Nil)
  finally show ?thesis .
qed

lemma rsplit_once_None: "rsplit_once c s = None \<longleftrightarrow> c \<notin> set s"
  by (simp add: rsplit_once_def split_once_None)

lemma split_on_no_sep: "c \<notin> set s \<Longrightarrow> split_on c s = [s]"
  by (induction s) auto

lemma split_on_parts: "p \<in> set (split_on c s) \<Longrightarrow> c \<notin> set p"
  by (induction s arbitrary: p) (auto split: if_splits list.splits)

section \<open>Case\<close>

definition ascii_lower :: "char \<Rightarrow> char" where
  "ascii_lower c =
     (let n = (of_char c :: nat) in if 65 \<le> n \<and> n \<le> 90 then char_of (n + 32) else c)"

definition eq_ignore_ascii_case :: "string \<Rightarrow> string \<Rightarrow> bool" where
  "eq_ignore_ascii_case a b \<longleftrightarrow> map ascii_lower a = map ascii_lower b"

lemma eq_ignore_ascii_case_refl [simp]: "eq_ignore_ascii_case a a"
  by (simp add: eq_ignore_ascii_case_def)

lemma eq_ignore_ascii_case_sym: "eq_ignore_ascii_case a b \<longleftrightarrow> eq_ignore_ascii_case b a"
  by (auto simp: eq_ignore_ascii_case_def)

section \<open>Numbers\<close>

definition digit_char :: "nat \<Rightarrow> char" where
  "digit_char n = (if n < 10 then char_of (48 + n) else char_of (87 + n))"

text \<open>\<open>char::to_digit\<close> for a radix up to 16.\<close>

definition to_digit :: "nat \<Rightarrow> char \<Rightarrow> nat option" where
  "to_digit radix c =
     (let n = (of_char c :: nat);
          d = (if 48 \<le> n \<and> n \<le> 57 then Some (n - 48)
               else if 97 \<le> n \<and> n \<le> 102 then Some (n - 87)
               else if 65 \<le> n \<and> n \<le> 70 then Some (n - 55) else None)
      in case d of Some v \<Rightarrow> if v < radix then Some v else None | None \<Rightarrow> None)"

definition is_digit :: "nat \<Rightarrow> char \<Rightarrow> bool" where
  "is_digit radix c \<longleftrightarrow> to_digit radix c \<noteq> None"

fun show_radix :: "nat \<Rightarrow> nat \<Rightarrow> string" where
  "show_radix b n =
     (if b < 2 \<or> n < b then [digit_char n] else show_radix b (n div b) @ [digit_char (n mod b)])"

declare show_radix.simps [simp del]

abbreviation show_nat :: "nat \<Rightarrow> string" where
  "show_nat \<equiv> show_radix 10"

abbreviation show_hex :: "nat \<Rightarrow> string" where
  "show_hex \<equiv> show_radix 16"

definition digits_value :: "nat \<Rightarrow> string \<Rightarrow> nat" where
  "digits_value b s = foldl (\<lambda>a c. a * b + the (to_digit b c)) 0 s"

text \<open>\<open>str::parse::<u16>\<close>: an optional plus sign, at least one digit, no overflow.\<close>

definition parse_u16 :: "string \<Rightarrow> u16 option" where
  "parse_u16 s =
     (let ds = (case s of c # rest \<Rightarrow> if c = CHR ''+'' \<and> rest \<noteq> [] then rest else s | [] \<Rightarrow> [])
      in if ds = [] \<or> \<not> list_all (is_digit 10) ds then None
         else if digits_value 10 ds < 2 ^ 16 then Some (of_nat (digits_value 10 ds)) else None)"

text \<open>\<open>{:02x}\<close> of a byte.\<close>

definition hex2 :: "byte \<Rightarrow> string" where
  "hex2 b = (let n = (of_char b :: nat) in [digit_char (n div 16), digit_char (n mod 16)])"

lemma to_digit_digit_char: "d < b \<Longrightarrow> b \<le> 16 \<Longrightarrow> to_digit b (digit_char d) = Some d"
  by (simp add: to_digit_def digit_char_def Let_def)

lemma digit_char_is_digit: "d < b \<Longrightarrow> b \<le> 16 \<Longrightarrow> is_digit b (digit_char d)"
  by (simp add: is_digit_def to_digit_digit_char)

lemma digit_char_inj: "a < 16 \<Longrightarrow> b < 16 \<Longrightarrow> digit_char a = digit_char b \<Longrightarrow> a = b"
  by (metis to_digit_digit_char option.inject order_refl)

lemma show_radix_digits:
  assumes "2 \<le> b" and "b \<le> 16"
  shows "list_all (is_digit b) (show_radix b n)"
  using assms
proof (induction b n rule: show_radix.induct)
  case (1 b n)
  show ?case
    by (subst show_radix.simps) (use 1 in \<open>simp add: digit_char_is_digit\<close>)
qed

lemma show_radix_nonempty [simp]: "show_radix b n \<noteq> []"
  by (subst show_radix.simps) simp

lemma digits_value_snoc: "digits_value b (s @ [c]) = digits_value b s * b + the (to_digit b c)"
  by (simp add: digits_value_def)

lemma digits_value_show_radix:
  assumes "2 \<le> b" and "b \<le> 16"
  shows "digits_value b (show_radix b n) = n"
  using assms
proof (induction b n rule: show_radix.induct)
  case (1 b n)
  show ?case
  proof (cases "n < b")
    case True
    with 1 show ?thesis
      by (subst show_radix.simps) (simp add: digits_value_def to_digit_digit_char)
  next
    case False
    with 1 show ?thesis
      by (subst show_radix.simps) (simp add: digits_value_snoc to_digit_digit_char)
  qed
qed

lemma show_radix_length:
  assumes "2 \<le> b" and "n < b ^ k" and "0 < k"
  shows "length (show_radix b n) \<le> k"
  using assms
proof (induction k arbitrary: n)
  case (Suc k)
  show ?case
  proof (cases "n < b")
    case True
    then show ?thesis by (subst show_radix.simps) simp
  next
    case False
    with Suc.prems have "0 < k"
      by (cases k) auto
    moreover have "n div b < b ^ k"
      using Suc.prems by (simp add: less_mult_imp_div_less mult.commute)
    ultimately show ?thesis
      using Suc.IH [of "n div b"] Suc.prems False by (subst show_radix.simps) simp
  qed
qed simp

text \<open>No leading zero, except in the numeral zero itself.\<close>

lemma show_radix_hd:
  assumes "2 \<le> b" and "b \<le> 16" and "hd (show_radix b n) = digit_char 0"
  shows "n = 0"
  using assms
proof (induction b n rule: show_radix.induct)
  case (1 b n)
  show ?case
  proof (cases "n < b")
    case True
    with "1.prems" have "digit_char n = digit_char 0"
      by (simp add: show_radix.simps [of b n])
    with True "1.prems" show ?thesis
      using digit_char_inj [of n 0] by simp
  next
    case False
    with "1.prems" have "hd (show_radix b (n div b)) = digit_char 0"
      by (simp add: show_radix.simps [of b n])
    with "1.IH" "1.prems" False have "n div b = 0" by simp
    with False "1.prems" show ?thesis by (simp add: div_eq_0_iff)
  qed
qed

lemma show_radix_zero: "2 \<le> b \<Longrightarrow> show_radix b 0 = [digit_char 0]"
  by (subst show_radix.simps) simp

lemma show_nat_not_in: "\<not> is_digit 10 c \<Longrightarrow> c \<notin> set (show_nat n)"
  using show_radix_digits [of 10 n] by (auto simp: list_all_iff)

lemma show_hex_not_in: "\<not> is_digit 16 c \<Longrightarrow> c \<notin> set (show_hex n)"
  using show_radix_digits [of 16 n] by (auto simp: list_all_iff)

lemma separators_no_digits [simp]:
  "\<not> is_digit 16 CHR ''.''" "\<not> is_digit 16 CHR '':''" "\<not> is_digit 10 CHR ''.''"
  "\<not> is_digit 10 CHR '':''" "\<not> is_digit 10 CHR ''+''" "\<not> is_digit 10 CHR '']''"
  by (simp_all add: is_digit_def to_digit_def)

lemma parse_u16_show_nat: "n < 2 ^ 16 \<Longrightarrow> parse_u16 (show_nat n) = Some (of_nat n)"
proof -
  assume n: "n < 2 ^ 16"
  have "CHR ''+'' \<notin> set (show_nat n)"
    by (rule show_nat_not_in) simp
  then have "(case show_nat n of c # rest \<Rightarrow> if c = CHR ''+'' \<and> rest \<noteq> [] then rest else show_nat n | [] \<Rightarrow> [])
      = show_nat n"
    by (auto split: list.split)
  with n show ?thesis
    by (simp add: parse_u16_def show_radix_digits digits_value_show_radix)
qed

end
