(* ===== verification/Model.thy ===== *)
theory Model
  imports Rust_Str
begin

text \<open>
  The data of \<open>model.rs\<close>: the persisted state of networks, nodes and tokens, the
  policies, the views sent to clients, and the bodies of the requests and responses of
  the HTTP interface. A struct is a record whose fields carry a prefix of their own, an
  enum is a datatype. The attributes of the serialisation library are not modelled.
\<close>

section \<open>JSON values of the audit log\<close>

datatype json = JNull | JBool bool | JInt int | JStr string | JArr "json list"
  | JObj "(string \<times> json) list"

definition json_opt :: "('a \<Rightarrow> json) \<Rightarrow> 'a option \<Rightarrow> json" where
  "json_opt f x = (case x of None \<Rightarrow> JNull | Some a \<Rightarrow> f a)"

section \<open>Policies\<close>

datatype AclAction = Allow | Deny

record AclSelector =
  sel_any :: bool
  sel_tags :: "string list"
  sel_node_ids :: "string list"
  sel_names :: "string list"

record AclRule =
  rule_action :: AclAction
  rule_src :: AclSelector
  rule_dst :: AclSelector

record AclPolicy =
  acl_default_action :: AclAction
  acl_rules :: "AclRule list"

definition acl_policy_default :: AclPolicy where
  "acl_policy_default = \<lparr>acl_default_action = Allow, acl_rules = []\<rparr>"

record KeyRotationPolicy =
  kp_max_age_seconds :: "u64 option"

datatype KeyType = Machine | WireGuard

record KeyRecord =
  kr_key_type :: KeyType
  kr_public_key :: string
  kr_created_at :: i64
  kr_revoked_at :: "i64 option"

section \<open>Routes\<close>

datatype RouteKind = Subnet | Exit

record Route =
  rt_prefix :: string
  rt_kind :: RouteKind
  rt_enabled :: bool
  rt_mapped_prefix :: "string option"

section \<open>Persisted state\<close>

record NetworkState =
  net_id :: string
  net_name :: string
  net_overlay_v4 :: string
  net_overlay_v6 :: string
  net_dns_domain :: string
  net_requires_approval :: bool
  net_acl :: AclPolicy
  net_key_policy :: KeyRotationPolicy
  net_created_at :: i64
  net_next_ipv4 :: u32
  net_next_ipv6 :: u128

record NodeState =
  nd_id :: string
  nd_network_id :: string
  nd_name :: string
  nd_machine_public_key :: string
  nd_wg_public_key :: string
  nd_ipv4 :: string
  nd_ipv6 :: string
  nd_endpoints :: "string list"
  nd_tags :: "string list"
  nd_owner_user_id :: "string option"
  nd_owner_email :: "string option"
  nd_owner_is_admin :: bool
  nd_routes :: "Route list"
  nd_created_at :: i64
  nd_last_seen :: i64
  nd_probe_requested_at :: "i64 option"
  nd_approved :: bool
  nd_approved_at :: "i64 option"
  nd_auth_secret :: "string option"
  nd_auth_expires_at :: "i64 option"
  nd_node_token :: "string option"
  nd_revoked_at :: "i64 option"
  nd_key_history :: "KeyRecord list"

record TokenState =
  tk_token :: string
  tk_network_id :: string
  tk_expires_at :: i64
  tk_uses_left :: u32
  tk_tags :: "string list"
  tk_owner_user_id :: "string option"
  tk_owner_email :: "string option"
  tk_owner_is_admin :: bool
  tk_revoked_at :: "i64 option"

record AuditEntry =
  ae_id :: string
  ae_timestamp :: i64
  ae_network_id :: "string option"
  ae_node_id :: "string option"
  ae_action :: string
  ae_detail :: "json option"

section \<open>Views sent to clients\<close>

record NetworkInfo =
  ni_id :: string
  ni_name :: string
  ni_overlay_v4 :: string
  ni_overlay_v6 :: string
  ni_dns_domain :: string
  ni_requires_approval :: bool
  ni_key_rotation_max_age_seconds :: "u64 option"

record NodeInfo =
  no_id :: string
  no_name :: string
  no_dns_name :: string
  no_ipv4 :: string
  no_ipv6 :: string
  no_wg_public_key :: string
  no_machine_public_key :: string
  no_endpoints :: "string list"
  no_tags :: "string list"
  no_owner_user_id :: "string option"
  no_owner_email :: "string option"
  no_owner_is_admin :: bool
  no_routes :: "Route list"
  no_last_seen :: i64
  no_approved :: bool
  no_key_rotation_required :: bool
  no_revoked :: bool

record PeerInfo =
  pi_id :: string
  pi_name :: string
  pi_dns_name :: string
  pi_ipv4 :: string
  pi_ipv6 :: string
  pi_wg_public_key :: string
  pi_endpoints :: "string list"
  pi_tags :: "string list"
  pi_routes :: "Route list"
  pi_last_seen :: i64

record ProbeRequest =
  pr_peer_id :: string
  pr_endpoints :: "string list"
  pr_ipv4 :: string
  pr_ipv6 :: string
  pr_requested_at :: i64

record RelayConfig =
  rc_stun_servers :: "string list"
  rc_turn_servers :: "string list"
  rc_stream_relay_servers :: "string list"
  rc_udp_relay_servers :: "string list"
  rc_dns_servers :: "string list"

record NetMap =
  nm_network :: NetworkInfo
  nm_node :: NodeInfo
  nm_peers :: "PeerInfo list"
  nm_relay :: "RelayConfig option"
  nm_probe_requests :: "ProbeRequest list"
  nm_generated_at :: i64
  nm_revision :: u64

record EnrollmentToken =
  et_token :: string
  et_expires_at :: i64
  et_uses_left :: u32
  et_tags :: "string list"
  et_owner_user_id :: "string option"
  et_owner_email :: "string option"
  et_owner_is_admin :: bool
  et_revoked_at :: "i64 option"

section \<open>Requests and responses\<close>

record CreateNetworkRequest =
  cn_name :: string
  cn_overlay_v4 :: "string option"
  cn_overlay_v6 :: "string option"
  cn_dns_domain :: "string option"
  cn_requires_approval :: "bool option"
  cn_key_rotation_max_age_seconds :: "u64 option"
  cn_bootstrap_token_ttl_seconds :: "u64 option"
  cn_bootstrap_token_uses :: "u32 option"
  cn_bootstrap_token_tags :: "string list option"

record CreateNetworkResponse =
  cnr_network :: NetworkInfo
  cnr_bootstrap_token :: "EnrollmentToken option"

record CreateTokenRequest =
  ct_ttl_seconds :: u64
  ct_uses :: u32
  ct_tags :: "string list"
  ct_owner_user_id :: "string option"
  ct_owner_email :: "string option"
  ct_owner_is_admin :: "bool option"

record UpdateNodeRequest =
  un_name :: "string option"
  un_tags :: "string list option"

record KeyRotationRequest =
  kq_machine_public_key :: "string option"
  kq_wg_public_key :: "string option"

record KeyRotationResponse =
  krr_node_id :: string
  krr_machine_public_key :: string
  krr_wg_public_key :: string

record KeyHistoryResponse =
  kh_node_id :: string
  kh_keys :: "KeyRecord list"

record RegisterRequest =
  rg_token :: string
  rg_node_name :: string
  rg_machine_public_key :: string
  rg_wg_public_key :: string

record RegisterResponse =
  rgr_node_token :: string
  rgr_netmap :: NetMap

record RegisterUrlRequest =
  ru_network_id :: string
  ru_node_name :: string
  ru_machine_public_key :: string
  ru_wg_public_key :: string
  ru_ttl_seconds :: "u64 option"

record RegisterUrlResponse =
  rur_node_id :: string
  rur_network_id :: string
  rur_ipv4 :: string
  rur_ipv6 :: string
  rur_auth_path :: string
  rur_expires_at :: i64
  rur_node_token :: string

record HeartbeatRequest =
  hb_node_id :: string
  hb_endpoints :: "string list"
  hb_listen_port :: "u16 option"
  hb_routes :: "Route list"
  hb_probe :: "bool option"

record ControlPlaneMeshPeer =
  cp_id :: string
  cp_addr :: string

record ControlPlaneTopologyResponse =
  ctr_control_urls :: "string list"
  ctr_mesh_server_id :: "string option"
  ctr_mesh_peers :: "ControlPlaneMeshPeer list"
  ctr_generated_at :: i64

section \<open>Conversions\<close>

definition network_info_from :: "NetworkState \<Rightarrow> NetworkInfo" where
  "network_info_from state =
     \<lparr>ni_id = net_id state, ni_name = net_name state, ni_overlay_v4 = net_overlay_v4 state,
      ni_overlay_v6 = net_overlay_v6 state, ni_dns_domain = net_dns_domain state,
      ni_requires_approval = net_requires_approval state,
      ni_key_rotation_max_age_seconds = kp_max_age_seconds (net_key_policy state)\<rparr>"

definition node_info_from_state :: "NodeState \<Rightarrow> string \<Rightarrow> bool \<Rightarrow> bool \<Rightarrow> NodeInfo" where
  "node_info_from_state node dns_domain approved key_rotation_required =
     \<lparr>no_id = nd_id node, no_name = nd_name node,
      no_dns_name = nd_name node @ ''.'' @ dns_domain,
      no_ipv4 = nd_ipv4 node, no_ipv6 = nd_ipv6 node,
      no_wg_public_key = nd_wg_public_key node,
      no_machine_public_key = nd_machine_public_key node,
      no_endpoints = nd_endpoints node, no_tags = nd_tags node,
      no_owner_user_id = nd_owner_user_id node, no_owner_email = nd_owner_email node,
      no_owner_is_admin = nd_owner_is_admin node, no_routes = nd_routes node,
      no_last_seen = nd_last_seen node, no_approved = approved,
      no_key_rotation_required = key_rotation_required,
      no_revoked = (nd_revoked_at node \<noteq> None)\<rparr>"

definition peer_info_from :: "NodeState \<Rightarrow> string \<Rightarrow> PeerInfo" where
  "peer_info_from node dns_domain =
     \<lparr>pi_id = nd_id node, pi_name = nd_name node,
      pi_dns_name = nd_name node @ ''.'' @ dns_domain,
      pi_ipv4 = nd_ipv4 node, pi_ipv6 = nd_ipv6 node,
      pi_wg_public_key = nd_wg_public_key node, pi_endpoints = nd_endpoints node,
      pi_tags = nd_tags node, pi_routes = nd_routes node, pi_last_seen = nd_last_seen node\<rparr>"

definition enrollment_token_from :: "TokenState \<Rightarrow> EnrollmentToken" where
  "enrollment_token_from token =
     \<lparr>et_token = tk_token token, et_expires_at = tk_expires_at token,
      et_uses_left = tk_uses_left token, et_tags = tk_tags token,
      et_owner_user_id = tk_owner_user_id token, et_owner_email = tk_owner_email token,
      et_owner_is_admin = tk_owner_is_admin token, et_revoked_at = tk_revoked_at token\<rparr>"

section \<open>The whole state\<close>

text \<open>\<open>State\<close> and its \<open>Default\<close> instance, from \<open>state.rs\<close>.\<close>

record State =
  st_version :: u32
  st_revision :: u64
  st_networks :: "(string, NetworkState) hmap"
  st_nodes :: "(string, NodeState) hmap"
  st_tokens :: "(string, TokenState) hmap"
  st_audit_log :: "AuditEntry list"

definition state_default :: State where
  "state_default = \<lparr>st_version = 1, st_revision = 0, st_networks = hm_empty,
     st_nodes = hm_empty, st_tokens = hm_empty, st_audit_log = []\<rparr>"

end
