(* ===== verification/State_Store.thy ===== *)
theory State_Store
  imports Model
begin

text \<open>
  \<open>state.rs\<close>: the store behind every handler. A transaction is the closure a handler
  passes to \<open>write\<close>: it mutates the state it is lent and returns a result, so it is a
  function from the state to a result and the mutated state, also when the result is an
  error. The file backend runs it on the state in memory and then writes a snapshot to
  the file; the database backend runs it on the row it has locked and commits.

  The JSON text of \<open>serde_json\<close>, the file system calls and the SQL statements are
  outside the repository: their results are the fields of the parameters below.
\<close>

type_synonym ('e, 'r) tx = "State \<Rightarrow> ('e + 'r) \<times> State"

datatype 'e store_error = ClosureErr 'e | IoErr

text \<open>\<open>serde_json::to_string_pretty\<close> and \<open>serde_json::from_str\<close> on file contents \<open>'c\<close>.\<close>

record 'c serde =
  to_json :: "State \<Rightarrow> 'c option"
  from_json :: "'c \<Rightarrow> State option"

datatype 'c write_outcome = WriteOk | WriteErr "'c option"
datatype commit_outcome = CommitOk | CommitErr bool

text \<open>
  The outcomes of the calls a store operation makes: whether the parent directory could
  be created, how writing the file went (a failed write leaves some contents), which of
  the SQL statements succeeded, and how the commit went (a failed commit may or may not
  have been applied by the server).
\<close>

record 'c io_env =
  io_mkdir_ok :: bool
  io_write :: "'c write_outcome"
  io_sql_ok :: "nat \<Rightarrow> bool"
  io_commit :: commit_outcome

type_synonym 'c disk = "string \<Rightarrow> 'c option"

section \<open>Definitions\<close>

definition bump_revision :: "State \<Rightarrow> State" where
  "bump_revision st = st\<lparr>st_revision := saturating_add (st_revision st) 1\<rparr>"

text \<open>\<open>load_state\<close> and \<open>StateStore::load\<close>; the contents of a file that cannot be read are \<open>None\<close>.\<close>

definition load_state :: "'c serde \<Rightarrow> 'c disk \<Rightarrow> string \<Rightarrow> unit store_error + State" where
  "load_state S disk path =
     (case disk path of
        Some contents \<Rightarrow> (case from_json S contents of Some st \<Rightarrow> Inr st | None \<Rightarrow> Inl IoErr)
      | None \<Rightarrow> Inr state_default)"

definition store_load :: "'c serde \<Rightarrow> 'c disk \<Rightarrow> string option \<Rightarrow> State" where
  "store_load S disk path =
     (case path of
        Some p \<Rightarrow> (case load_state S disk p of Inr st \<Rightarrow> st | Inl _ \<Rightarrow> state_default)
      | None \<Rightarrow> state_default)"

definition persist_file ::
  "'c serde \<Rightarrow> 'c io_env \<Rightarrow> string option \<Rightarrow> State \<Rightarrow> 'c disk \<Rightarrow> ('e store_error + unit) \<times> 'c disk"
where
  "persist_file S io path st disk =
     (case path of
        None \<Rightarrow> (Inr (), disk)
      | Some p \<Rightarrow>
          if \<not> io_mkdir_ok io then (Inl IoErr, disk)
          else (case to_json S st of
                  None \<Rightarrow> (Inl IoErr, disk)
                | Some json \<Rightarrow>
                    (case io_write io of
                       WriteOk \<Rightarrow> (Inr (), disk(p \<mapsto> json))
                     | WriteErr c \<Rightarrow> (Inl IoErr, disk(p := c)))))"

text \<open>
  \<open>StateStore::write\<close> of the file backend is two steps. The closure runs and the revision
  is counted while the lock is held; the lock is released and the snapshot is persisted.
\<close>

definition file_mutate ::
  "('e, 'r) tx \<Rightarrow> State \<Rightarrow> ('e store_error + 'r \<times> State) \<times> State"
where
  "file_mutate f inner =
     (case f inner of
        (Inl e, st) \<Rightarrow> (Inl (ClosureErr e), st)
      | (Inr r, st) \<Rightarrow> (let snapshot = bump_revision st in (Inr (r, snapshot), snapshot)))"

definition file_write ::
  "'c serde \<Rightarrow> 'c io_env \<Rightarrow> string option \<Rightarrow> ('e, 'r) tx \<Rightarrow> State \<times> 'c disk
   \<Rightarrow> ('e store_error + 'r) \<times> (State \<times> 'c disk)"
where
  "file_write S io path f s =
     (case s of (inner, disk) \<Rightarrow>
       (case file_mutate f inner of
          (Inl e, st) \<Rightarrow> (Inl e, (st, disk))
        | (Inr (r, snapshot), st) \<Rightarrow>
            (case persist_file S io path snapshot disk of
               (Inl e, disk') \<Rightarrow> (Inl e, (st, disk'))
             | (Inr _, disk') \<Rightarrow> (Inr r, (st, disk')))))"

text \<open>
  The database backend: the row with \<open>id = 1\<close>, \<open>None\<close> when there is none. The SQL calls
  are numbered in the order of the code: the transaction start, the locking select, the
  decoding of its column, the update. \<open>init_db\<close> starts a transaction, takes the advisory
  lock unless the server is CockroachDB, creates the table, looks for the row and inserts it.
\<close>

definition init_db ::
  "bool \<Rightarrow> 'c io_env \<Rightarrow> State option \<Rightarrow> (unit store_error + unit) \<times> State option"
where
  "init_db is_cockroach io row =
     (if \<not> (io_sql_ok io 0 \<and> (is_cockroach \<or> io_sql_ok io 1) \<and> io_sql_ok io 2 \<and> io_sql_ok io 3)
      then (Inl IoErr, row)
      else let row' = (case row of None \<Rightarrow> Some state_default | Some st \<Rightarrow> Some st) in
        if row = None \<and> \<not> io_sql_ok io 4 then (Inl IoErr, row)
        else (case io_commit io of
                CommitOk \<Rightarrow> (Inr (), row')
              | CommitErr applied \<Rightarrow> (Inl IoErr, if applied then row' else row)))"

definition load_state_db :: "'c io_env \<Rightarrow> State option \<Rightarrow> 'e store_error + State" where
  "load_state_db io row =
     (if \<not> io_sql_ok io 0 then Inl IoErr
      else (case row of
              None \<Rightarrow> Inl IoErr
            | Some st \<Rightarrow> if io_sql_ok io 1 then Inr st else Inl IoErr))"

definition write_state_db ::
  "'c io_env \<Rightarrow> ('e, 'r) tx \<Rightarrow> State option \<Rightarrow> ('e store_error + 'r) \<times> State option"
where
  "write_state_db io f row =
     (if \<not> (io_sql_ok io 0 \<and> io_sql_ok io 1) then (Inl IoErr, row)
      else (case row of
              None \<Rightarrow> (Inl IoErr, row)
            | Some st \<Rightarrow>
                if \<not> io_sql_ok io 2 then (Inl IoErr, row)
                else (case f st of
                        (Inl e, _) \<Rightarrow> (Inl (ClosureErr e), row)
                      | (Inr r, st') \<Rightarrow>
                          if \<not> io_sql_ok io 3 then (Inl IoErr, row)
                          else (case io_commit io of
                                  CommitOk \<Rightarrow> (Inr r, Some (bump_revision st'))
                                | CommitErr applied \<Rightarrow>
                                    (Inl IoErr, if applied then Some (bump_revision st') else row)))))"

text \<open>\<open>StoreBackend\<close> and the dispatch of \<open>StateStore::read\<close> and \<open>StateStore::write\<close> on it.\<close>

datatype 'c StoreBackend = File State "string option" "'c disk" | Db "State option"

text \<open>\<open>StateStore::load_db\<close>: the connection, which may fail, and the initialisation of the table.\<close>

definition load_db ::
  "bool \<Rightarrow> bool \<Rightarrow> 'c io_env \<Rightarrow> State option \<Rightarrow> (unit store_error + 'c StoreBackend) \<times> State option"
where
  "load_db connected is_cockroach io row =
     (if \<not> connected then (Inl IoErr, row)
      else case init_db is_cockroach io row of
             (Inl e, row) \<Rightarrow> (Inl e, row)
           | (Inr _, row) \<Rightarrow> (Inr (Db row), row))"

definition store_read ::
  "'c io_env \<Rightarrow> (State \<Rightarrow> 'e + 'r) \<Rightarrow> 'c StoreBackend \<Rightarrow> 'e store_error + 'r"
where
  "store_read io f b =
     (case b of
        File inner path disk \<Rightarrow> map_sum ClosureErr id (f inner)
      | Db row \<Rightarrow>
          (case load_state_db io row of
             Inl e \<Rightarrow> Inl e
           | Inr st \<Rightarrow> map_sum ClosureErr id (f st)))"

definition store_write ::
  "'c serde \<Rightarrow> 'c io_env \<Rightarrow> ('e, 'r) tx \<Rightarrow> 'c StoreBackend
   \<Rightarrow> ('e store_error + 'r) \<times> 'c StoreBackend"
where
  "store_write S io f b =
     (case b of
        File inner path disk \<Rightarrow>
          (case file_write S io path f (inner, disk) of
             (r, (inner', disk')) \<Rightarrow> (r, File inner' path disk'))
      | Db row \<Rightarrow> (case write_state_db io f row of (r, row') \<Rightarrow> (r, Db row')))"

text \<open>The state a later \<open>read\<close> sees, when its database calls succeed.\<close>

definition current :: "'c StoreBackend \<Rightarrow> State option" where
  "current b = (case b of File inner _ _ \<Rightarrow> Some inner | Db row \<Rightarrow> row)"

section \<open>The contract of a store\<close>

text \<open>
  What a handler relies on. A write that succeeds has run the closure on the current
  state and made its result, with the next revision, the current state. A write that fails
  in the closure leaves the state as it was or as the closure left it. A write that fails
  otherwise has either not happened or happened in full.
\<close>

locale state_store =
  fixes cur :: "'s \<Rightarrow> State option"
    and wr :: "('e, 'r) tx \<Rightarrow> 's \<Rightarrow> ('e store_error + 'r) \<times> 's"
  assumes wr_ok: "wr f s = (Inr r, s') \<Longrightarrow>
      \<exists>st st'. cur s = Some st \<and> f st = (Inr r, st') \<and> cur s' = Some (bump_revision st')"
    and wr_closure: "wr f s = (Inl (ClosureErr e), s') \<Longrightarrow>
      \<exists>st st'. cur s = Some st \<and> f st = (Inl e, st') \<and> (cur s' = Some st \<or> cur s' = Some st')"
    and wr_io: "wr f s = (Inl IoErr, s') \<Longrightarrow>
      cur s' = cur s \<or>
      (\<exists>st r st'. cur s = Some st \<and> f st = (Inr r, st') \<and> cur s' = Some (bump_revision st'))"
begin

text \<open>Whatever a write returns, the current state is the old one, the closure's, or its next revision.\<close>

lemma wr_cases:
  assumes "wr f s = (res, s')" and "cur s = Some st"
  shows "cur s' = Some st \<or> cur s' = Some (snd (f st)) \<or>
    (cur s' = Some (bump_revision (snd (f st))) \<and> (\<exists>r. fst (f st) = Inr r))"
proof (cases res)
  case (Inr r)
  then show ?thesis using wr_ok [of f s r s'] assms by force
next
  case (Inl err)
  show ?thesis
  proof (cases err)
    case (ClosureErr e)
    with Inl show ?thesis using wr_closure [of f s e s'] assms by force
  next
    case IoErr
    with Inl show ?thesis using wr_io [of f s s'] assms by force
  qed
qed

text \<open>An invariant of the closures that the revision does not affect is one of the store.\<close>

lemma wr_invariant:
  assumes "wr f s = (res, s')" and "cur s = Some st" and "I st"
    and "\<And>st. I st \<Longrightarrow> I (snd (f st))" and "\<And>st. I st \<Longrightarrow> I (bump_revision st)"
  shows "\<exists>st'. cur s' = Some st' \<and> I st'"
  using wr_cases [OF assms(1,2)] assms(3-5) by auto

end

text \<open>A store that takes a failed closure back, as a database transaction does.\<close>

locale atomic_store = state_store +
  assumes wr_rollback: "wr f s = (Inl (ClosureErr e), s') \<Longrightarrow> cur s' = cur s"
begin

lemma all_or_nothing:
  assumes "wr f s = (res, s')"
  shows "cur s' = cur s \<or>
    (\<exists>st r st'. cur s = Some st \<and> f st = (Inr r, st') \<and> cur s' = Some (bump_revision st'))"
proof (cases res)
  case (Inr r)
  then show ?thesis using wr_ok [of f s r s'] assms by blast
next
  case (Inl err)
  then show ?thesis
    using wr_rollback [of f s _ s'] wr_io [of f s s'] assms by (cases err) auto
qed

end

section \<open>The two backends meet the contract\<close>

lemma file_write_cases:
  "file_write S io path f (inner, disk) =
     (case f inner of
        (Inl e, st) \<Rightarrow> (Inl (ClosureErr e), (st, disk))
      | (Inr r, st) \<Rightarrow>
          (case persist_file S io path (bump_revision st) disk of
             (Inl e, disk') \<Rightarrow> (Inl e, (bump_revision st, disk'))
           | (Inr _, disk') \<Rightarrow> (Inr r, (bump_revision st, disk'))))"
  by (simp add: file_write_def file_mutate_def Let_def split: prod.splits sum.splits)

lemma persist_file_error: "persist_file S io path st disk = (Inl e, disk') \<Longrightarrow> e = IoErr"
  by (auto simp: persist_file_def split: option.splits if_splits write_outcome.splits)

interpretation file_backend: state_store "\<lambda>s. Some (fst s)" "file_write S io path" for S io path
proof (unfold_locales, goal_cases)
  case (1 f s r s')
  then show ?case
    by (cases s) (auto simp: file_write_cases split: prod.splits sum.splits)
next
  case (2 f s e s')
  then show ?case
    by (cases s) (auto simp: file_write_cases dest: persist_file_error split: prod.splits sum.splits)
next
  case (3 f s s')
  then show ?case
    by (cases s) (auto simp: file_write_cases split: prod.splits sum.splits)
qed

interpretation db_backend: atomic_store "\<lambda>row. row" "write_state_db io" for io
  by (unfold_locales)
    (auto simp: write_state_db_def split: if_splits option.splits sum.splits commit_outcome.splits
       prod.splits)

lemma store_writeE:
  assumes "store_write S io f s = (res, s')"
  obtains (of_file) inner path disk inner' disk' where "s = File inner path disk"
      "file_write S io path f (inner, disk) = (res, (inner', disk'))" "s' = File inner' path disk'"
  | (of_db) row row' where "s = Db row" "write_state_db io f row = (res, row')" "s' = Db row'"
  using assms by (cases s) (auto simp: store_write_def split: prod.splits)

lemma current_simps [simp]: "current (File inner path disk) = Some inner" "current (Db row) = row"
  by (simp_all add: current_def)

interpretation backend: state_store current "store_write S io" for S io
proof (unfold_locales, goal_cases)
  case (1 f s r s')
  then show ?case
    by (cases rule: store_writeE) (auto dest!: file_backend.wr_ok db_backend.wr_ok)
next
  case (2 f s e s')
  then show ?case
    by (cases rule: store_writeE) (auto dest!: file_backend.wr_closure db_backend.wr_closure)
next
  case (3 f s s')
  then show ?case
    by (cases rule: store_writeE) (auto dest!: file_backend.wr_io db_backend.wr_io)
qed

section \<open>What the store guarantees\<close>

text \<open>What is relied on of the serialisation: a state that was written can be read back.\<close>

definition serde_ok :: "'c serde \<Rightarrow> bool" where
  "serde_ok S \<longleftrightarrow> (\<forall>st c. to_json S st = Some c \<longrightarrow> from_json S c = Some st)"

text \<open>A state stored as it is, for the witnesses.\<close>

definition plain_serde :: "State serde" where
  "plain_serde = \<lparr>to_json = Some, from_json = Some\<rparr>"

definition all_ok :: "State io_env" where
  "all_ok = \<lparr>io_mkdir_ok = True, io_write = WriteOk, io_sql_ok = (\<lambda>_. True), io_commit = CommitOk\<rparr>"

definition set_version :: "u32 \<Rightarrow> (unit, u32) tx" where
  "set_version v st = (Inr (st_version st), st\<lparr>st_version := v\<rparr>)"

lemma plain_serde_ok: "serde_ok plain_serde"
  by (simp add: serde_ok_def plain_serde_def)

lemma persist_file_ok:
  assumes "persist_file S io (Some p) st disk = (Inr (), disk')"
  obtains c where "to_json S st = Some c" "disk' = disk(p \<mapsto> c)"
  using assms by (auto simp: persist_file_def split: if_splits option.splits write_outcome.splits)

lemma store_load_persisted:
  assumes "serde_ok S" and "persist_file S io (Some p) st disk = (Inr (), disk')"
  shows "store_load S disk' (Some p) = st"
proof -
  obtain c where "to_json S st = Some c" "disk' = disk(p \<mapsto> c)"
    using assms(2) by (rule persist_file_ok)
  then show ?thesis
    using assms(1) by (simp add: store_load_def load_state_def serde_ok_def)
qed



text \<open>
  A write of the database backend, whatever it returns, leaves the row as it was or
  replaces it by the result of a closure that succeeded, with the next revision; when it
  returns a result, the row has been replaced.
\<close>

theorem db_all_or_nothing:
  assumes "write_state_db io f row = (res, row')"
  shows "(row' = row \<and> (\<forall>r. res \<noteq> Inr r)) \<or>
    (\<exists>st r st'. row = Some st \<and> f st = (Inr r, st') \<and> row' = Some (bump_revision st'))"
  using db_backend.all_or_nothing [OF assms] db_backend.wr_ok [of io f row _ row'] assms
  by (cases res) auto

theorem db_all_or_nothing_witness:
  "write_state_db (all_ok\<lparr>io_commit := CommitErr True\<rparr>) (set_version 7) (Some state_default) =
     (Inl IoErr, Some (state_default\<lparr>st_version := 7, st_revision := 1\<rparr>)) \<and>
   (\<exists>r st'. set_version 7 state_default = (Inr r, st') \<and>
      state_default\<lparr>st_version := 7, st_revision := 1\<rparr> = bump_revision st')"
proof -
  have *: "write_state_db (all_ok\<lparr>io_commit := CommitErr True\<rparr>) (set_version 7) (Some state_default) =
     (Inl IoErr, Some (state_default\<lparr>st_version := 7, st_revision := 1\<rparr>))"
    by (simp add: write_state_db_def set_version_def state_default_def bump_revision_def
        saturating_add_def all_ok_def)
  show ?thesis
    using * db_all_or_nothing [OF *] by (auto simp: state_default_def)
qed

text \<open>Every call of the store succeeds.\<close>

definition io_clean :: "'c serde \<Rightarrow> 'c io_env \<Rightarrow> bool" where
  "io_clean S io \<longleftrightarrow>
     io_mkdir_ok io \<and> io_write io = WriteOk \<and> (\<forall>k. io_sql_ok io k) \<and> io_commit io = CommitOk \<and>
     (\<forall>st. to_json S st \<noteq> None)"

text \<open>
  C18: when no input or output fails, the two backends are the same server: a write returns
  the same result on both, and after a success both hold the same state.
\<close>

theorem backends_agree:
  assumes "io_clean S io"
    and "store_write S io f (File st path disk) = (res, s1)" and "store_write S io f (Db (Some st)) = (res', s2)"
  shows "res = res' \<and> (\<forall>r. res = Inr r \<longrightarrow> current s1 = current s2) \<and>
    (\<forall>e. res = Inl e \<longrightarrow> current s2 = Some st)"
proof (cases "f st")
  case (Pair r st')
  obtain c where "to_json S (bump_revision st') = Some c"
    using assms(1) by (auto simp: io_clean_def)
  with Pair show ?thesis
    using assms
    by (cases r)
      (auto simp: io_clean_def store_write_def file_write_cases persist_file_def write_state_db_def
        split: option.splits)
qed

theorem backends_agree_witness:
  "io_clean plain_serde all_ok \<and>
   fst (store_write plain_serde all_ok (set_version 7) (File state_default (Some ''s'') (\<lambda>_. None))) =
   fst (store_write plain_serde all_ok (set_version 7) (Db (Some state_default)))"
proof -
  have "io_clean plain_serde all_ok"
    by (simp add: io_clean_def all_ok_def plain_serde_def)
  then show ?thesis
    using backends_agree [of plain_serde all_ok "set_version 7" state_default "Some ''s''" "\<lambda>_. None"]
    by (metis prod.collapse)
qed

text \<open>
  The lock of the file backend does not cover the writing of the file. When two writes
  overlap so that the earlier snapshot is persisted last, both report success and the file
  holds the earlier snapshot: a restart loses the later write, whose revision is higher.
\<close>

theorem persist_out_of_order:
  assumes "serde_ok S" and "file_mutate f st0 = (Inr (r1, snap1), st1)"
    and "file_mutate g st1 = (Inr (r2, snap2), st2)"
    and "st_revision (snd (g st1)) = st_revision st1" and "st_revision st1 \<noteq> - 1"
    and "persist_file S io (Some p) snap2 disk = (Inr (), disk1)"
    and "persist_file S io' (Some p) snap1 disk1 = (Inr (), disk2)"
  shows "store_load S disk2 (Some p) = st1 \<and> st_revision st1 < st_revision st2"
proof -
  have "snap1 = st1"
    using assms(2) by (auto simp: file_mutate_def Let_def split: prod.splits sum.splits)
  moreover have "st2 = bump_revision (snd (g st1))"
    using assms(3) by (auto simp: file_mutate_def Let_def split: prod.splits sum.splits)
  then have "st_revision st2 = saturating_add (st_revision st1) 1"
    using assms(4) by (simp add: bump_revision_def)
  ultimately show ?thesis
    using store_load_persisted [OF assms(1,7)] saturating_add_strict [of 1 "st_revision st1"] assms(5)
    by simp
qed

theorem persist_out_of_order_witness:
  "file_mutate (set_version 7) state_default = (Inr (1, state_default\<lparr>st_version := 7, st_revision := 1\<rparr>),
     state_default\<lparr>st_version := 7, st_revision := 1\<rparr>) \<and>
   store_load plain_serde [''s'' \<mapsto> state_default\<lparr>st_version := 7, st_revision := 1\<rparr>] (Some ''s'') =
     state_default\<lparr>st_version := 7, st_revision := 1\<rparr>"
proof -
  let ?s1 = "state_default\<lparr>st_version := 7, st_revision := 1\<rparr>"
  let ?s2 = "state_default\<lparr>st_version := 8, st_revision := 2\<rparr>"
  have 1: "file_mutate (set_version 7) state_default = (Inr (1, ?s1), ?s1)"
    and 2: "file_mutate (set_version 8) ?s1 = (Inr (7, ?s2), ?s2)"
    by (simp_all add: file_mutate_def set_version_def bump_revision_def saturating_add_def
        state_default_def Let_def)
  have 3: "persist_file plain_serde all_ok (Some ''s'') ?s2 (\<lambda>_. None) = (Inr (), [''s'' \<mapsto> ?s2])"
    and 4: "persist_file plain_serde all_ok (Some ''s'') ?s1 [''s'' \<mapsto> ?s2] = (Inr (), [''s'' \<mapsto> ?s1])"
    by (simp_all add: persist_file_def plain_serde_def all_ok_def)
  have "store_load plain_serde [''s'' \<mapsto> ?s1] (Some ''s'') = ?s1 \<and> st_revision ?s1 < st_revision ?s2"
    by (rule persist_out_of_order [OF plain_serde_ok 1 2 _ _ 3 4]) (simp_all add: set_version_def)
  with 1 show ?thesis by blast
qed

end
