(* ===== verification/Rust_Net.thy ===== *)
theory Rust_Net
  imports Rust_Str
begin

text \<open>
  Addresses of \<open>std::net\<close> as the server prints and parses them: \<open>Ipv4Addr\<close> and
  \<open>Ipv6Addr\<close> are words, \<open>Display\<close> and \<open>FromStr\<close> are those of the standard library
  (dotted decimals without leading zeros; compressed groups with the first longest run
  of zeros elided; embedded IPv4 addresses). The main result is that parsing what was
  printed gives the address back.
\<close>

type_synonym ipv4 = u32
type_synonym ipv6 = u128

datatype IpAddr = V4 ipv4 | V6 ipv6

section \<open>Printing\<close>

definition ipv4_octets :: "ipv4 \<Rightarrow> nat list" where
  "ipv4_octets a = map (\<lambda>k. unat a div 2 ^ k mod 2 ^ 8) [24, 16, 8, 0]"

fun join_with :: "char \<Rightarrow> string list \<Rightarrow> string" where
  "join_with c [] = []"
| "join_with c [x] = x"
| "join_with c (x # y # xs) = x @ c # join_with c (y # xs)"

definition show_ipv4 :: "ipv4 \<Rightarrow> string" where
  "show_ipv4 a = join_with CHR ''.'' (map show_nat (ipv4_octets a))"

definition ipv6_segments :: "ipv6 \<Rightarrow> nat list" where
  "ipv6_segments a = map (\<lambda>k. unat a div 2 ^ k mod 2 ^ 16) [112, 96, 80, 64, 48, 32, 16, 0]"

text \<open>The first longest run of zero segments: position, the current run, the longest so far.\<close>

fun zero_span :: "nat list \<Rightarrow> nat \<Rightarrow> nat \<times> nat \<Rightarrow> nat \<times> nat \<Rightarrow> nat \<times> nat" where
  "zero_span [] i cur longest = longest"
| "zero_span (x # xs) i cur longest =
     (if x = 0 then
        (let cur' = (if snd cur = 0 then (i, 1) else (fst cur, snd cur + 1));
             longest' = (if snd cur' > snd longest then cur' else longest)
         in zero_span xs (Suc i) cur' longest')
      else zero_span xs (Suc i) (0, 0) longest)"

definition show_segments :: "nat list \<Rightarrow> string" where
  "show_segments xs = join_with CHR '':'' (map show_hex xs)"

definition show_ipv6 :: "ipv6 \<Rightarrow> string" where
  "show_ipv6 a =
     (let segs = ipv6_segments a in
      if take 6 segs = [0, 0, 0, 0, 0, 0xFFFF] then ''::ffff:'' @ show_ipv4 (ucast a)
      else (case zero_span segs 0 (0, 0) (0, 0) of
              (start, len) \<Rightarrow>
                if len > 1
                then show_segments (take start segs) @ ''::'' @ show_segments (drop (start + len) segs)
                else show_segments segs))"

definition show_ip :: "IpAddr \<Rightarrow> string" where
  "show_ip ip = (case ip of V4 a \<Rightarrow> show_ipv4 a | V6 a \<Rightarrow> show_ipv6 a)"

text \<open>\<open>SocketAddr::new(ip, port).to_string()\<close>.\<close>

definition show_socket_addr :: "IpAddr \<Rightarrow> u16 \<Rightarrow> string" where
  "show_socket_addr ip port =
     (case ip of
        V4 a \<Rightarrow> show_ipv4 a @ '':'' @ show_nat (unat port)
      | V6 a \<Rightarrow> ''['' @ show_ipv6 a @ '']:'' @ show_nat (unat port))"

section \<open>Parsing\<close>

text \<open>\<open>Parser::read_number\<close> with a bound on the number of digits.\<close>

definition read_number :: "nat \<Rightarrow> nat \<Rightarrow> bool \<Rightarrow> nat \<Rightarrow> string \<Rightarrow> (nat \<times> string) option" where
  "read_number radix max_digits allow_zero_prefix limit s =
     (let ds = takeWhile (is_digit radix) s in
      if ds = [] \<or> length ds > max_digits \<or>
         \<not> allow_zero_prefix \<and> hd ds = CHR ''0'' \<and> length ds > 1 \<or>
         \<not> digits_value radix ds < limit
      then None
      else Some (digits_value radix ds, drop (length ds) s))"

definition read_separator ::
  "char \<Rightarrow> nat \<Rightarrow> (string \<Rightarrow> ('a \<times> string) option) \<Rightarrow> string \<Rightarrow> ('a \<times> string) option"
where
  "read_separator sep index p s =
     (if index = 0 then p s
      else (case s of [] \<Rightarrow> None | c # rest \<Rightarrow> if c = sep then p rest else None))"

fun read_octets :: "nat \<Rightarrow> nat \<Rightarrow> string \<Rightarrow> (nat list \<times> string) option" where
  "read_octets i 0 s = Some ([], s)"
| "read_octets i (Suc n) s =
     (case read_separator CHR ''.'' i (read_number 10 3 False 256) s of
        None \<Rightarrow> None
      | Some (g, s') \<Rightarrow> map_option (\<lambda>(gs, r). (g # gs, r)) (read_octets (Suc i) n s'))"

definition from_digits :: "nat \<Rightarrow> nat list \<Rightarrow> nat" where
  "from_digits b xs = foldl (\<lambda>acc x. acc * b + x) 0 xs"

definition read_ipv4 :: "string \<Rightarrow> (nat \<times> string) option" where
  "read_ipv4 s = map_option (\<lambda>(gs, r). (from_digits 256 gs, r)) (read_octets 0 4 s)"

text \<open>The groups before or after the elision, at most \<open>n\<close> of them.\<close>

fun read_groups :: "nat \<Rightarrow> nat \<Rightarrow> string \<Rightarrow> nat list \<times> bool \<times> string" where
  "read_groups i 0 s = ([], False, s)"
| "read_groups i (Suc n) s =
     (case (if n = 0 then None else read_separator CHR '':'' i read_ipv4 s) of
        Some (a, s') \<Rightarrow> ([a div 2 ^ 16, a mod 2 ^ 16], True, s')
      | None \<Rightarrow>
          (case read_separator CHR '':'' i (read_number 16 4 True (2 ^ 16)) s of
             Some (g, s') \<Rightarrow> (case read_groups (Suc i) n s' of (gs, v4, r) \<Rightarrow> (g # gs, v4, r))
           | None \<Rightarrow> ([], False, s)))"

definition read_ipv6 :: "string \<Rightarrow> (nat list \<times> string) option" where
  "read_ipv6 s =
     (case read_groups 0 8 s of
        (head, head_ipv4, r) \<Rightarrow>
          if length head = 8 then Some (head, r)
          else if head_ipv4 then None
          else if prefix ''::'' r then
            (case read_groups 0 (8 - (length head + 1)) (drop 2 r) of
               (tail, _, r') \<Rightarrow>
                 Some (head @ replicate (8 - length head - length tail) 0 @ tail, r'))
          else None)"

definition parse_ipv4 :: "string \<Rightarrow> ipv4 option" where
  "parse_ipv4 s =
     (if length s > 15 then None
      else (case read_ipv4 s of Some (a, []) \<Rightarrow> Some (of_nat a) | _ \<Rightarrow> None))"

definition parse_ipv6 :: "string \<Rightarrow> ipv6 option" where
  "parse_ipv6 s =
     (case read_ipv6 s of Some (gs, []) \<Rightarrow> Some (of_nat (from_digits (2 ^ 16) gs)) | _ \<Rightarrow> None)"

text \<open>\<open>IpAddr::from_str\<close>: the IPv4 reader first, then the IPv6 reader from the start.\<close>

definition parse_ip :: "string \<Rightarrow> IpAddr option" where
  "parse_ip s =
     (case read_ipv4 s of
        Some (a, r) \<Rightarrow> if r = [] then Some (V4 (of_nat a)) else None
      | None \<Rightarrow> map_option V6 (parse_ipv6 s))"

section \<open>Digits of an address\<close>

lemma from_digits_snoc: "from_digits b (xs @ [x]) = from_digits b xs * b + x"
  by (simp add: from_digits_def)

lemma div_step: "(n :: nat) div 2 ^ (k + w) * 2 ^ w + n div 2 ^ k mod 2 ^ w = n div 2 ^ k"
proof -
  have "n div 2 ^ (k + w) = n div 2 ^ k div 2 ^ w"
    by (simp add: power_add div_mult2_eq)
  then show ?thesis by (metis div_mult_mod_eq)
qed

lemma from_digits_octets: "from_digits 256 (ipv4_octets a) = unat a"
proof -
  have "unat a div 2 ^ 32 = 0"
    using unsigned_less [of a] by (simp add: div_eq_0_iff)
  then have "unat a div 2 ^ 24 mod 2 ^ 8 = unat a div 2 ^ 24"
    using div_step [of "unat a" 24 8] by simp
  then show ?thesis
    using div_step [of "unat a" 16 8] div_step [of "unat a" 8 8] div_step [of "unat a" 0 8]
    by (simp add: from_digits_def ipv4_octets_def)
qed

lemma from_digits_segments: "from_digits (2 ^ 16) (ipv6_segments a) = unat a"
proof -
  have "unat a div 2 ^ 128 = 0"
    using unsigned_less [of a] by (simp add: div_eq_0_iff)
  then have "unat a div 2 ^ 112 mod 2 ^ 16 = unat a div 2 ^ 112"
    using div_step [of "unat a" 112 16] by simp
  then show ?thesis
    using div_step [of "unat a" 96 16] div_step [of "unat a" 80 16] div_step [of "unat a" 64 16]
      div_step [of "unat a" 48 16] div_step [of "unat a" 32 16] div_step [of "unat a" 16 16]
      div_step [of "unat a" 0 16]
    by (simp add: from_digits_def ipv6_segments_def)
qed

lemma ipv4_octets_bound: "list_all (\<lambda>x. x < 256) (ipv4_octets a)"
  by (simp add: ipv4_octets_def)

lemma length_ipv4_octets [simp]: "length (ipv4_octets a) = 4"
  by (simp add: ipv4_octets_def)

lemma ipv6_segments_bound: "list_all (\<lambda>x. x < 2 ^ 16) (ipv6_segments a)"
  by (simp add: ipv6_segments_def)

lemma length_ipv6_segments [simp]: "length (ipv6_segments a) = 8"
  by (simp add: ipv6_segments_def)


section \<open>Parsing what was printed\<close>

text \<open>The text of a list of fields from the \<open>i\<close>-th on: every field but the first has a separator.\<close>

definition sep_text :: "char \<Rightarrow> nat \<Rightarrow> string list \<Rightarrow> string" where
  "sep_text c i ts = (if i = 0 then join_with c ts else concat (map ((#) c) ts))"

definition stops :: "nat \<Rightarrow> string \<Rightarrow> bool" where
  "stops radix r \<longleftrightarrow> r = [] \<or> \<not> is_digit radix (hd r)"

lemma join_with_Cons: "join_with c (t # ts) = t @ concat (map ((#) c) ts)"
  by (induction ts arbitrary: t) auto

lemma sep_text_Nil [simp]: "sep_text c i [] = []"
  by (simp add: sep_text_def)

lemma sep_text_Cons: "sep_text c i (t # ts) = (if i = 0 then [] else [c]) @ t @ sep_text c (Suc i) ts"
  by (simp add: sep_text_def join_with_Cons)

lemma stops_sep: "\<not> is_digit radix c \<Longrightarrow> stops radix r \<Longrightarrow> stops radix (sep_text c (Suc i) ts @ r)"
  by (cases ts) (auto simp: sep_text_Cons stops_def)

lemma takeWhile_digits:
  "list_all (is_digit radix) ds \<Longrightarrow> stops radix r \<Longrightarrow> takeWhile (is_digit radix) (ds @ r) = ds"
  by (cases r) (auto simp: stops_def list_all_iff takeWhile_tail)

lemma read_number_show:
  assumes "2 \<le> radix" "radix \<le> 16" "n < radix ^ k" "0 < k" "n < limit" "stops radix r"
  shows "read_number radix k z limit (show_radix radix n @ r) = Some (n, r)"
proof -
  have "digit_char 0 = CHR ''0''"
    by code_simp
  then have "hd (show_radix radix n) = CHR ''0'' \<Longrightarrow> length (show_radix radix n) = 1"
    using show_radix_hd [of radix n] show_radix_zero [of radix] assms(1,2) by auto
  then show ?thesis
    using assms show_radix_length [of radix n k]
    by (auto simp: read_number_def takeWhile_digits show_radix_digits digits_value_show_radix Let_def)
qed

lemma read_separator_simps [simp]:
  "read_separator c 0 p s = p s" "0 < i \<Longrightarrow> read_separator c i p (c # s) = p s"
  by (simp_all add: read_separator_def)

lemma read_octets_show:
  assumes "list_all (\<lambda>x. x < 256) xs" and "stops 10 r"
  shows "read_octets i (length xs) (sep_text CHR ''.'' i (map show_nat xs) @ r) = Some (xs, r)"
  using assms(1)
proof (induction xs arbitrary: i)
  case (Cons x xs)
  have "read_number 10 3 False 256 (show_nat x @ sep_text CHR ''.'' (Suc i) (map show_nat xs) @ r) =
      Some (x, sep_text CHR ''.'' (Suc i) (map show_nat xs) @ r)"
    using Cons.prems assms(2) by (intro read_number_show stops_sep) auto
  with Cons show ?case
    by (cases "i = 0") (auto simp: sep_text_Cons)
qed simp

lemma read_ipv4_show: "stops 10 r \<Longrightarrow> read_ipv4 (show_ipv4 a @ r) = Some (unat a, r)"
  using read_octets_show [OF ipv4_octets_bound, of r 0 a]
  by (simp add: read_ipv4_def show_ipv4_def sep_text_def from_digits_octets)

lemma read_number_rest: "read_number radix k z limit s = Some (n, r) \<Longrightarrow> set r \<subseteq> set s"
  by (auto simp: read_number_def Let_def split: if_splits dest: in_set_dropD)

lemma read_separator_rest:
  "read_separator c i (read_number radix k z limit) s = Some (n, r) \<Longrightarrow> set r \<subseteq> set s"
  by (cases "i = 0"; cases s) (auto simp: read_separator_def split: if_splits dest!: read_number_rest)

lemma read_octets_dots:
  "read_octets i n s = Some (gs, r) \<Longrightarrow> i + n \<ge> 2 \<Longrightarrow> n > 0 \<Longrightarrow> CHR ''.'' \<in> set s"
proof (induction i n s arbitrary: gs r rule: read_octets.induct)
  case (2 i n s)
  from "2.prems"(1) obtain g s' where s': "read_separator CHR ''.'' i (read_number 10 3 False 256) s = Some (g, s')"
    and rest: "read_octets (Suc i) n s' = Some (tl gs, r)"
    by (auto split: option.splits)
  have sub: "set s' \<subseteq> set s"
    using s' by (rule read_separator_rest)
  show ?case
  proof (cases "i = 0")
    case True
    with "2.prems" have "n > 0" by simp
    with "2.IH" [OF s' refl rest] True sub show ?thesis by auto
  next
    case False
    with s' show ?thesis
      by (auto simp: read_separator_def split: list.splits if_splits)
  qed
qed simp

text \<open>A text without a dot is not read as an IPv4 address.\<close>

lemma read_ipv4_no_dot: "CHR ''.'' \<notin> set s \<Longrightarrow> read_ipv4 s = None"
  using read_octets_dots [of 0 4 s] by (cases "read_octets 0 4 s") (auto simp: read_ipv4_def)

lemma read_ipv4_no_digit: "stops 10 s \<Longrightarrow> read_ipv4 s = None"
proof -
  assume "stops 10 s"
  then have "read_octets 0 (Suc n) s = None" for n
    by (cases s) (auto simp: stops_def read_number_def)
  from this [of 3] show ?thesis by (simp add: read_ipv4_def)
qed

lemma length_show_ipv4: "length (show_ipv4 a) \<le> 15"
proof -
  have len: "length (show_nat (x mod 2 ^ 8)) \<le> 3" for x
    by (rule show_radix_length) (auto intro: less_le_trans [of _ "2 ^ 8"])
  have "length (show_ipv4 a) = length (show_nat (unat a div 2 ^ 24 mod 2 ^ 8))
      + length (show_nat (unat a div 2 ^ 16 mod 2 ^ 8)) + length (show_nat (unat a div 2 ^ 8 mod 2 ^ 8))
      + length (show_nat (unat a div 2 ^ 0 mod 2 ^ 8)) + 3"
    by (simp add: show_ipv4_def ipv4_octets_def)
  also have "\<dots> \<le> 3 + 3 + 3 + 3 + 3"
    by (intro add_mono len order_refl)
  finally show ?thesis by simp
qed

lemma parse_show_ipv4 [simp]: "parse_ipv4 (show_ipv4 a) = Some a"
  using read_ipv4_show [of "[]" a] length_show_ipv4 [of a] by (simp add: parse_ipv4_def stops_def)

lemma show_ipv4_inj [simp]: "show_ipv4 a = show_ipv4 b \<longleftrightarrow> a = b"
  by (metis parse_show_ipv4 option.inject)


subsection \<open>IPv6\<close>

text \<open>A span of positions below a bound that holds zeros only.\<close>

definition zeros_at :: "nat list \<Rightarrow> nat \<Rightarrow> nat \<times> nat \<Rightarrow> bool" where
  "zeros_at ys bound sp \<longleftrightarrow>
     fst sp + snd sp \<le> bound \<and> (\<forall>j. fst sp \<le> j \<and> j < fst sp + snd sp \<longrightarrow> ys ! j = 0)"

lemma zero_span_zeros:
  assumes "drop i ys = xs" and "i + length xs = length ys"
    and "zeros_at ys i cur" and "snd cur > 0 \<longrightarrow> fst cur + snd cur = i" and "zeros_at ys i longest"
  shows "zeros_at ys (length ys) (zero_span xs i cur longest)"
  using assms
proof (induction xs i cur longest rule: zero_span.induct)
  case (1 i cur longest)
  then show ?case by (auto simp: zeros_at_def)
next
  case (2 x xs i cur longest)
  from "2.prems"(1) have x: "ys ! i = x" and xs: "drop (Suc i) ys = xs"
    by (auto simp: nth_via_drop) (metis drop_Suc drop_tl list.sel(3))
  define cur' where "cur' = (if snd cur = 0 then (i, 1) else (fst cur, snd cur + 1))"
  show ?case
  proof (cases "x = 0")
    case True
    have cur: "zeros_at ys (Suc i) cur'" "fst cur' + snd cur' = Suc i"
      using "2.prems"(3,4) x True by (auto simp: zeros_at_def cur'_def less_Suc_eq)
    have "zeros_at ys (Suc i) (if snd cur' > snd longest then cur' else longest)"
      using cur "2.prems"(5) by (auto simp: zeros_at_def)
    with cur show ?thesis
      using "2.IH"(1) [OF True cur'_def refl xs] "2.prems"(2) True
      by (simp add: Let_def cur'_def [symmetric])
  next
    case False
    then show ?thesis
      using "2.IH"(2) [OF False xs] "2.prems" by (auto simp: zeros_at_def)
  qed
qed

lemma zeros_at_split:
  assumes "zeros_at ys (length ys) (s, l)"
  shows "ys = take s ys @ replicate l 0 @ drop (s + l) ys"
proof -
  have "take l (drop s ys) = replicate l 0"
    using assms by (auto simp: zeros_at_def intro!: nth_equalityI)
  then show ?thesis
    by (metis append_take_drop_id drop_drop add.commute)
qed

lemma segments_no_dot: "CHR ''.'' \<notin> set (sep_text CHR '':'' i (map show_hex gs))"
proof (induction gs arbitrary: i)
  case (Cons g gs)
  then show ?case
    using show_hex_not_in [of "CHR ''.''" g] by (simp add: sep_text_Cons)
qed simp

lemma read_separator_no_dot: "CHR ''.'' \<notin> set s \<Longrightarrow> read_separator c i read_ipv4 s = None"
  by (cases s) (auto simp: read_separator_def read_ipv4_no_dot)

lemma show_segments_text: "show_segments xs = sep_text CHR '':'' 0 (map show_hex xs)"
  by (simp add: show_segments_def sep_text_def)

lemma read_groups_stop:
  assumes "CHR ''.'' \<notin> set r" and "r = [] \<or> prefix ''::'' r"
  shows "read_groups i n r = ([], False, r)"
proof (cases n)
  case (Suc m)
  have "read_separator CHR '':'' i (read_number 16 4 True (2 ^ 16)) r = None"
    using assms(2) by (auto simp: read_separator_def read_number_def prefix_def)
  with Suc show ?thesis
    using read_separator_no_dot [OF assms(1)] by simp
qed simp

lemma read_groups_show:
  assumes "list_all (\<lambda>g. g < 2 ^ 16) gs" and "length gs \<le> n"
    and "CHR ''.'' \<notin> set r" and "r = [] \<or> prefix ''::'' r"
  shows "read_groups i n (sep_text CHR '':'' i (map show_hex gs) @ r) = (gs, False, r)"
  using assms(1,2)
proof (induction gs arbitrary: i n)
  case Nil
  then show ?case using read_groups_stop [OF assms(3,4)] by simp
next
  case (Cons g gs)
  from Cons.prems obtain m where n: "n = Suc m" and m: "length gs \<le> m"
    by (cases n) auto
  let ?rest = "sep_text CHR '':'' (Suc i) (map show_hex gs) @ r"
  have "stops 16 r"
    using assms(4) by (auto simp: stops_def prefix_def)
  then have "read_number 16 4 True (2 ^ 16) (show_hex g @ ?rest) = Some (g, ?rest)"
    using Cons.prems by (intro read_number_show stops_sep) auto
  then have "read_separator CHR '':'' i (read_number 16 4 True (2 ^ 16))
      (sep_text CHR '':'' i (map show_hex (g # gs)) @ r) = Some (g, ?rest)"
    by (cases "i = 0") (auto simp: sep_text_Cons)
  moreover have "read_separator CHR '':'' i read_ipv4
      (sep_text CHR '':'' i (map show_hex (g # gs)) @ r) = None"
    using assms(3) segments_no_dot [of i "g # gs"] by (intro read_separator_no_dot) auto
  moreover have "read_groups (Suc i) m ?rest = (gs, False, r)"
    using Cons.IH m Cons.prems(1) by simp
  ultimately show ?case
    using m unfolding n read_groups.simps by (cases "m = 0") simp_all
qed

lemma read_ipv6_plain:
  assumes "list_all (\<lambda>g. g < 2 ^ 16) gs" and "length gs = 8"
  shows "read_ipv6 (show_segments gs) = Some (gs, [])"
  using read_groups_show [OF assms(1), of 8 "[]" 0] assms(2)
  by (simp add: read_ipv6_def show_segments_text)

lemma read_ipv6_elided:
  assumes gs: "list_all (\<lambda>g. g < 2 ^ 16) gs" "length gs = 8"
    and z: "zeros_at gs 8 (s, l)" "l > 1"
  shows "read_ipv6 (show_segments (take s gs) @ ''::'' @ show_segments (drop (s + l) gs)) = Some (gs, [])"
proof -
  let ?tail = "show_segments (drop (s + l) gs)"
  have sl: "s + l \<le> 8"
    using z by (simp add: zeros_at_def)
  have "CHR ''.'' \<notin> set (''::'' @ ?tail)"
    using segments_no_dot by (auto simp: show_segments_text)
  then have head: "read_groups 0 8 (show_segments (take s gs) @ ''::'' @ ?tail) =
      (take s gs, False, ''::'' @ ?tail)"
    unfolding show_segments_text [of "take s gs"] using gs
    by (intro read_groups_show) (auto simp: list_all_iff dest: in_set_takeD)
  have tail: "read_groups 0 (8 - (s + 1)) ?tail = (drop (s + l) gs, False, [])"
  proof -
    have "list_all (\<lambda>g. g < 2 ^ 16) (drop (s + l) gs)"
      using gs(1) in_set_dropD by (fastforce simp: list_all_iff)
    then show ?thesis
      using read_groups_show [of "drop (s + l) gs" "8 - (s + 1)" "[]" 0] gs(2) z(2) sl
      by (simp add: show_segments_text)
  qed
  have "gs = take s gs @ replicate l 0 @ drop (s + l) gs"
    using zeros_at_split z gs by simp
  moreover have "8 - s - (8 - (s + l)) = l"
    using sl by simp
  ultimately show ?thesis
    using head tail gs sl z by (simp add: read_ipv6_def)
qed


lemma read_ipv6_mapped: "read_ipv6 (''::ffff:'' @ show_ipv4 b) =
    Some ([0, 0, 0, 0, 0, 0xFFFF, unat b div 2 ^ 16, unat b mod 2 ^ 16], [])"
proof -
  have none: "read_separator CHR '':'' 0 (read_number 16 4 True (2 ^ 16)) (CHR '':'' # s) = None"
    "read_separator CHR '':'' 0 read_ipv4 (CHR '':'' # s) = None" for s
    by (auto simp: read_number_def stops_def intro: read_ipv4_no_digit)
  have head: "read_groups 0 (Suc n) (''::ffff:'' @ show_ipv4 b) = ([], False, ''::ffff:'' @ show_ipv4 b)" for n
    using none by simp
  have ffff: "show_hex 0xFFFF = ''ffff''"
    by (simp add: show_radix.simps digit_char_def char_of_def bit_0)
  have g: "read_number 16 4 True (2 ^ 16) (''ffff:'' @ show_ipv4 b) = Some (0xFFFF, '':'' @ show_ipv4 b)"
    using read_number_show [of 16 "0xFFFF" 4 "2 ^ 16" "'':'' @ show_ipv4 b" True]
    by (simp add: ffff stops_def)
  have "read_ipv4 (''ffff:'' @ show_ipv4 b) = None"
    by (rule read_ipv4_no_digit) (simp add: stops_def is_digit_def to_digit_def)
  moreover have v4: "read_groups 1 (Suc (Suc n)) ('':'' @ show_ipv4 b) =
      ([unat b div 2 ^ 16, unat b mod 2 ^ 16], True, [])" for n
    using read_ipv4_show [of "[]" b] by (simp add: stops_def)
  ultimately have tail: "read_groups 0 (Suc (Suc (Suc n))) (''ffff:'' @ show_ipv4 b) =
      ([0xFFFF, unat b div 2 ^ 16, unat b mod 2 ^ 16], True, [])" for n
    using g v4 by simp
  have "replicate 5 (0 :: nat) = [0, 0, 0, 0, 0]"
    by code_simp
  then show ?thesis
    using head [of 7] tail [of 4] by (simp add: read_ipv6_def)
qed

lemma mapped_low_word:
  assumes "take 6 (ipv6_segments a) = [0, 0, 0, 0, 0, 0xFFFF]"
  shows "[0, 0, 0, 0, 0, 0xFFFF, unat (ucast a :: ipv4) div 2 ^ 16, unat (ucast a :: ipv4) mod 2 ^ 16]
    = ipv6_segments a"
proof -
  have "unat (ucast a :: ipv4) = unat a mod 2 ^ 32"
    by (simp add: unsigned_ucast_eq take_bit_eq_mod)
  moreover have "unat a mod 2 ^ 32 div 2 ^ 16 = unat a div 2 ^ 16 mod 2 ^ 16"
    using mod_mult2_eq [of "unat a" "2 ^ 16" "2 ^ 16"] by simp
  ultimately show ?thesis
    using assms by (simp add: ipv6_segments_def mod_mod_cancel)
qed

lemma read_show_ipv6: "read_ipv6 (show_ipv6 a) = Some (ipv6_segments a, [])"
proof (cases "take 6 (ipv6_segments a) = [0, 0, 0, 0, 0, 0xFFFF]")
  case True
  then show ?thesis
    using read_ipv6_mapped [of "ucast a"] mapped_low_word [OF True]
    by (simp add: show_ipv6_def Let_def)
next
  case False
  obtain s l where sl: "zero_span (ipv6_segments a) 0 (0, 0) (0, 0) = (s, l)"
    by fastforce
  have z: "zeros_at (ipv6_segments a) 8 (s, l)"
    using zero_span_zeros [of 0 "ipv6_segments a" "ipv6_segments a" "(0, 0)" "(0, 0)"] sl
    by (simp add: zeros_at_def)
  show ?thesis
    using False sl read_ipv6_elided [OF ipv6_segments_bound _ z] read_ipv6_plain [OF ipv6_segments_bound]
    by (simp add: show_ipv6_def Let_def)
qed

lemma parse_show_ipv6 [simp]: "parse_ipv6 (show_ipv6 a) = Some a"
  using from_digits_segments [of a] by (simp add: parse_ipv6_def read_show_ipv6)

lemma show_ipv6_inj [simp]: "show_ipv6 a = show_ipv6 b \<longleftrightarrow> a = b"
  by (metis parse_show_ipv6 option.inject)

lemma read_ipv4_show_ipv6: "read_ipv4 (show_ipv6 a) = None"
proof (cases "take 6 (ipv6_segments a) = [0, 0, 0, 0, 0, 0xFFFF]")
  case True
  then show ?thesis
    by (simp add: show_ipv6_def Let_def read_ipv4_no_digit stops_def)
next
  case False
  have "CHR ''.'' \<notin> set (show_ipv6 a)"
    using False segments_no_dot
    by (auto simp: show_ipv6_def Let_def show_segments_text split: prod.splits)
  then show ?thesis by (rule read_ipv4_no_dot)
qed

text \<open>Every address the server prints, it reads back.\<close>

lemma parse_ip_show_ipv4 [simp]: "parse_ip (show_ipv4 a) = Some (V4 a)"
  using read_ipv4_show [of "[]" a] by (simp add: parse_ip_def stops_def)

lemma parse_ip_show_ipv6 [simp]: "parse_ip (show_ipv6 a) = Some (V6 a)"
  by (simp add: parse_ip_def read_ipv4_show_ipv6)

end
