(* ===== verification/Api_Base.thy ===== *)
theory Api_Base
  imports State_Store Rust_Net
begin

text \<open>
  What the handlers of \<open>api.rs\<close> share: the error type and its HTTP status, the headers
  and the two authorisation checks, the control URL inferred from headers, audit entries
  and tokens, and the application state of \<open>app.rs\<close>.

  Code outside the repository enters through two records. \<open>externals\<close> holds the functions of
  the crates \<open>ipnet\<close>, \<open>blake3\<close> and \<open>uuid\<close> the handlers call. \<open>env\<close> holds what one
  request reads from the clock and the random generators: the \<open>k\<close>-th field access is the
  result of the \<open>k\<close>-th call, counted from 0 in the order of the code.
\<close>

section \<open>Parameters\<close>

type_synonym uuid = bytes

record ('n4, 'n6) externals =
  v4_parse :: "string \<Rightarrow> 'n4 option"
  v4_prefix_len :: "'n4 \<Rightarrow> nat"
  v4_network :: "'n4 \<Rightarrow> ipv4"
  v4_contains :: "'n4 \<Rightarrow> ipv4 \<Rightarrow> bool"
  v6_parse :: "string \<Rightarrow> 'n6 option"
  v6_prefix_len :: "'n6 \<Rightarrow> nat"
  v6_network :: "'n6 \<Rightarrow> ipv6"
  v6_contains :: "'n6 \<Rightarrow> ipv6 \<Rightarrow> bool"
  blake3_hash :: "bytes \<Rightarrow> bytes"
  uuid_to_string :: "uuid \<Rightarrow> string"

record env =
  now_unix :: "nat \<Rightarrow> i64"
  new_uuid :: "nat \<Rightarrow> uuid"
  random_secret :: "nat \<Rightarrow> string"

section \<open>Errors\<close>

datatype ApiError =
    NotFound string
  | BadRequest string
  | Unauthorized string
  | Conflict string
  | Internal

text \<open>\<open>IntoResponse for ApiError\<close>: the status code and the \<open>error\<close> field of the body.\<close>

definition into_response :: "ApiError \<Rightarrow> nat \<times> json" where
  "into_response err =
     (let (status, message) =
        (case err of
           NotFound msg \<Rightarrow> (404, msg)
         | BadRequest msg \<Rightarrow> (400, msg)
         | Unauthorized msg \<Rightarrow> (401, msg)
         | Conflict msg \<Rightarrow> (409, msg)
         | Internal \<Rightarrow> (500, ''internal error''))
      in (status, JObj [(''error'', JStr message)]))"

definition map_store_err :: "ApiError store_error \<Rightarrow> ApiError" where
  "map_store_err err = (case err of ClosureErr api_err \<Rightarrow> api_err | IoErr \<Rightarrow> Internal)"

section \<open>Application state\<close>

record MeshPeerMeta =
  mpm_id :: string
  mpm_addr :: string

record AppState =
  app_relay :: RelayConfig
  app_admin_token :: "string option"
  app_control_urls :: "string list"
  app_mesh_server_id :: "string option"
  app_mesh_peers :: "MeshPeerMeta list"

section \<open>Headers and authorisation\<close>

text \<open>
  \<open>headers.get(name)\<close> on a lower-case header name; a present value is what \<open>to_str().ok()\<close>
  makes of it.
\<close>

type_synonym headers = "string \<Rightarrow> string option option"

definition bearer_token :: "headers \<Rightarrow> string option" where
  "bearer_token headers =
     (case headers ''authorization'' of
        Some (Some value) \<Rightarrow>
          (case strip_prefix ''Bearer '' value of
             None \<Rightarrow> None
           | Some rest \<Rightarrow> let token = trim rest in if token = [] then None else Some token)
      | _ \<Rightarrow> None)"

definition require_admin :: "headers \<Rightarrow> string option \<Rightarrow> ApiError + unit" where
  "require_admin headers admin_token =
     (case admin_token of
        None \<Rightarrow> Inr ()
      | Some expected \<Rightarrow>
          (case bearer_token headers of
             Some token \<Rightarrow>
               if token = expected then Inr () else Inl (Unauthorized ''admin token required'')
           | None \<Rightarrow> Inl (Unauthorized ''admin token required'')))"

definition require_node :: "headers \<Rightarrow> string option \<Rightarrow> NodeState \<Rightarrow> ApiError + unit" where
  "require_node headers admin_token node =
     (case nd_node_token node of
        None \<Rightarrow> Inr ()
      | Some expected \<Rightarrow>
          (case bearer_token headers of
             Some token \<Rightarrow>
               if token = expected then Inr ()
               else if admin_token = Some token then Inr ()
               else Inl (Unauthorized ''node token required'')
           | None \<Rightarrow> Inl (Unauthorized ''node token required'')))"

definition nonempty_trimmed :: "string option \<Rightarrow> string option" where
  "nonempty_trimmed v =
     (case v of
        None \<Rightarrow> None
      | Some value \<Rightarrow> let t = trim value in if t = [] then None else Some t)"

definition infer_control_url_from_headers :: "headers \<Rightarrow> string option" where
  "infer_control_url_from_headers headers =
     (let host_value = (case headers ''x-forwarded-host'' of Some v \<Rightarrow> Some v | None \<Rightarrow> headers ''host'')
      in case nonempty_trimmed (case host_value of None \<Rightarrow> None | Some v \<Rightarrow> v) of
           None \<Rightarrow> None
         | Some host \<Rightarrow>
             (let proto =
                (case nonempty_trimmed (case headers ''x-forwarded-proto'' of None \<Rightarrow> None | Some v \<Rightarrow> v) of
                   None \<Rightarrow> ''http''
                 | Some p \<Rightarrow> p);
                  scheme = (if eq_ignore_ascii_case proto ''https'' then ''https'' else ''http'')
              in Some (scheme @ ''://'' @ trim_end_matches CHR ''/'' host)))"

definition dedup_strings :: "string list \<Rightarrow> string list" where
  "dedup_strings values = retain_fresh {} values"

definition admin_topology :: "env \<Rightarrow> AppState \<Rightarrow> headers \<Rightarrow> ApiError + ControlPlaneTopologyResponse" where
  "admin_topology E app headers =
     (case require_admin headers (app_admin_token app) of
        Inl e \<Rightarrow> Inl e
      | Inr _ \<Rightarrow>
          (let control_urls =
             (case infer_control_url_from_headers headers of
                Some inferred \<Rightarrow>
                  if inferred \<notin> set (app_control_urls app)
                  then inferred # app_control_urls app else app_control_urls app
              | None \<Rightarrow> app_control_urls app)
           in Inr \<lparr>ctr_control_urls = dedup_strings control_urls,
                   ctr_mesh_server_id = app_mesh_server_id app,
                   ctr_mesh_peers =
                     map (\<lambda>peer. \<lparr>cp_id = mpm_id peer, cp_addr = mpm_addr peer\<rparr>) (app_mesh_peers app),
                   ctr_generated_at = now_unix E 0\<rparr>))"

section \<open>Small helpers\<close>

definition relay_or_none :: "RelayConfig \<Rightarrow> RelayConfig option" where
  "relay_or_none relay =
     (if rc_stun_servers relay = [] \<and> rc_turn_servers relay = [] \<and> rc_stream_relay_servers relay = []
         \<and> rc_udp_relay_servers relay = [] \<and> rc_dns_servers relay = []
      then None else Some relay)"

definition merge_endpoints :: "string list \<Rightarrow> string option \<Rightarrow> string list" where
  "merge_endpoints provided observed =
     (case observed of
        None \<Rightarrow> retain_fresh {} provided
      | Some endpoint \<Rightarrow> endpoint # retain_fresh {endpoint} provided)"

definition short_id :: "string \<Rightarrow> string" where
  "short_id text = (case split_on CHR ''-'' text of part # _ \<Rightarrow> part | [] \<Rightarrow> text)"

text \<open>The identifier and the timestamp are the results of \<open>Uuid::new_v4\<close> and \<open>now_unix\<close>.\<close>

definition build_audit_entry ::
  "string \<Rightarrow> i64 \<Rightarrow> string \<Rightarrow> string option \<Rightarrow> string option \<Rightarrow> json option \<Rightarrow> AuditEntry"
where
  "build_audit_entry entry_id timestamp action network_id node_id detail =
     \<lparr>ae_id = entry_id, ae_timestamp = timestamp, ae_network_id = network_id,
      ae_node_id = node_id, ae_action = action, ae_detail = detail\<rparr>"

definition push_audit :: "AuditEntry \<Rightarrow> State \<Rightarrow> State" where
  "push_audit entry st = st\<lparr>st_audit_log := st_audit_log st @ [entry]\<rparr>"

text \<open>\<open>secret\<close> and \<open>now\<close> are the results of \<open>random_secret\<close> and \<open>now_unix\<close>.\<close>

definition build_token ::
  "string \<Rightarrow> i64 \<Rightarrow> string \<Rightarrow> u64 \<Rightarrow> u32 \<Rightarrow> string list \<Rightarrow> string option \<Rightarrow> string option \<Rightarrow> bool
   \<Rightarrow> ApiError + TokenState"
where
  "build_token secret now network_id ttl_seconds uses tags owner_user_id owner_email owner_is_admin =
     (if ttl_seconds = 0 \<or> uses = 0 then Inl (BadRequest ''ttl_seconds and uses must be > 0'')
      else Inr \<lparr>tk_token = secret, tk_network_id = network_id,
                tk_expires_at = i64_add now (as_i64 ttl_seconds), tk_uses_left = uses,
                tk_tags = tags, tk_owner_user_id = nonempty_trimmed owner_user_id,
                tk_owner_email = nonempty_trimmed owner_email,
                tk_owner_is_admin = owner_is_admin, tk_revoked_at = None\<rparr>)"

definition normalize_node_name :: "string \<Rightarrow> ApiError + string" where
  "normalize_node_name name =
     (let trimmed = trim name in
      if trimmed = [] then Inl (BadRequest ''node name must be non-empty'') else Inr trimmed)"

definition name_conflicts :: "string \<Rightarrow> string \<Rightarrow> string option \<Rightarrow> NodeState \<Rightarrow> bool" where
  "name_conflicts network_id name exclude_node_id node \<longleftrightarrow>
     nd_network_id node = network_id \<and> nd_revoked_at node = None \<and>
     exclude_node_id \<noteq> Some (nd_id node) \<and> eq_ignore_ascii_case (nd_name node) name"

definition ensure_unique_node_name ::
  "State \<Rightarrow> string \<Rightarrow> string \<Rightarrow> string option \<Rightarrow> ApiError + unit"
where
  "ensure_unique_node_name st network_id name exclude_node_id =
     (if list_ex (name_conflicts network_id name exclude_node_id) (hm_values (st_nodes st))
      then Inl (Conflict ''node name already exists'') else Inr ())"

section \<open>Edits of the state\<close>

text \<open>\<open>insert\<close> into one of the maps; writing through \<open>get_mut\<close> inserts under the key looked up.\<close>

definition put_network :: "string \<Rightarrow> NetworkState \<Rightarrow> State \<Rightarrow> State" where
  "put_network k network st = st\<lparr>st_networks := hm_insert k network (st_networks st)\<rparr>"

definition put_node :: "string \<Rightarrow> NodeState \<Rightarrow> State \<Rightarrow> State" where
  "put_node k node st = st\<lparr>st_nodes := hm_insert k node (st_nodes st)\<rparr>"

definition put_token :: "string \<Rightarrow> TokenState \<Rightarrow> State \<Rightarrow> State" where
  "put_token k token st = st\<lparr>st_tokens := hm_insert k token (st_tokens st)\<rparr>"

text \<open>An audit entry whose identifier and time are the \<open>iu\<close>-th and \<open>it\<close>-th ones of the request.\<close>

definition audit ::
  "('n4, 'n6) externals \<Rightarrow> env \<Rightarrow> nat \<Rightarrow> nat \<Rightarrow> string \<Rightarrow> string option \<Rightarrow> string option \<Rightarrow> json option
   \<Rightarrow> State \<Rightarrow> State"
where
  "audit X E iu it action network_id node_id detail st =
     push_audit (build_audit_entry (uuid_to_string X (new_uuid E iu)) (now_unix E it)
       action network_id node_id detail) st"

text \<open>A store access of a handler, with \<open>.await.map_err(map_store_err)?\<close> after it.\<close>

definition run_write ::
  "'c serde \<Rightarrow> 'c io_env \<Rightarrow> (ApiError, 'r) tx \<Rightarrow> 'c StoreBackend \<Rightarrow> (ApiError + 'r) \<times> 'c StoreBackend"
where
  "run_write S io f store = apfst (map_sum map_store_err id) (store_write S io f store)"

definition run_read ::
  "'c io_env \<Rightarrow> (State \<Rightarrow> ApiError + 'r) \<Rightarrow> 'c StoreBackend \<Rightarrow> ApiError + 'r"
where
  "run_read io f store = map_sum map_store_err id (store_read io f store)"

section \<open>Properties\<close>

lemma require_admin_iff:
  "require_admin h tok = Inr () \<longleftrightarrow> tok = None \<or> bearer_token h = tok"
  by (auto simp: require_admin_def split: option.splits)

lemma require_node_iff:
  "require_node h adm node = Inr () \<longleftrightarrow>
     nd_node_token node = None \<or>
     (bearer_token h \<noteq> None \<and> (bearer_token h = nd_node_token node \<or> bearer_token h = adm))"
  by (auto simp: require_node_def split: option.splits)

lemma require_admin_cases:
  "require_admin h tok = (if tok = None \<or> bearer_token h = tok then Inr ()
     else Inl (Unauthorized ''admin token required''))"
  by (auto simp: require_admin_def split: option.splits)

lemma require_node_cases:
  "require_node h adm node =
     (if nd_node_token node = None \<or>
         (bearer_token h \<noteq> None \<and> (bearer_token h = nd_node_token node \<or> bearer_token h = adm))
      then Inr () else Inl (Unauthorized ''node token required''))"
  by (auto simp: require_node_def split: option.splits)

lemma bearer_token_trimmed: "bearer_token h = Some t \<Longrightarrow> t \<noteq> [] \<and> trim t = t"
  by (auto simp: bearer_token_def Let_def split: option.splits if_splits)

lemma nonempty_trimmed_Some: "nonempty_trimmed v = Some t \<Longrightarrow> t \<noteq> [] \<and> trim t = t"
  by (auto simp: nonempty_trimmed_def Let_def split: option.splits if_splits)

lemma build_token_Inr:
  "build_token sec now nid ttl uses tags ou oe adm = Inr t \<Longrightarrow>
     ttl \<noteq> 0 \<and> uses \<noteq> 0 \<and> tk_token t = sec \<and> tk_network_id t = nid \<and> tk_uses_left t = uses \<and>
     tk_revoked_at t = None \<and> tk_expires_at t = i64_add now (as_i64 ttl)"
  by (auto simp: build_token_def split: if_splits)

lemma normalize_node_name_Inr: "normalize_node_name n = Inr m \<Longrightarrow> m \<noteq> [] \<and> m = trim n \<and> trim m = m"
  by (auto simp: normalize_node_name_def Let_def split: if_splits)

lemma merge_endpoints_set: "set (merge_endpoints p obs) = set p \<union> set_option obs"
  by (cases obs) (auto simp: merge_endpoints_def set_retain_fresh)

lemma merge_endpoints_distinct: "distinct (merge_endpoints p obs)"
  by (cases obs) (auto simp: merge_endpoints_def set_retain_fresh distinct_retain_fresh)

lemma ensure_unique_node_name_Inr:
  assumes "ensure_unique_node_name st nid name ex = Inr ()" and "hm_wf (st_nodes st)"
    and "hm_get (st_nodes st) k = Some node"
  shows "\<not> name_conflicts nid name ex node"
proof -
  have "node \<in> set (hm_values (st_nodes st))"
    using assms(2,3) by (auto simp: hm.vals_iff)
  with assms(1) show ?thesis
    by (auto simp: ensure_unique_node_name_def list_ex_iff split: if_splits)
qed

section \<open>What the edits leave alone\<close>

lemma edit_simps [simp]:
  "st_networks (put_network k n st) = hm_insert k n (st_networks st)"
  "st_nodes (put_network k n st) = st_nodes st"
  "st_tokens (put_network k n st) = st_tokens st"
  "st_audit_log (put_network k n st) = st_audit_log st"
  "st_revision (put_network k n st) = st_revision st"
  "st_networks (put_node k nd st) = st_networks st"
  "st_nodes (put_node k nd st) = hm_insert k nd (st_nodes st)"
  "st_tokens (put_node k nd st) = st_tokens st"
  "st_audit_log (put_node k nd st) = st_audit_log st"
  "st_revision (put_node k nd st) = st_revision st"
  "st_networks (put_token k t st) = st_networks st"
  "st_nodes (put_token k t st) = st_nodes st"
  "st_tokens (put_token k t st) = hm_insert k t (st_tokens st)"
  "st_audit_log (put_token k t st) = st_audit_log st"
  "st_revision (put_token k t st) = st_revision st"
  by (simp_all add: put_network_def put_node_def put_token_def)

lemma audit_simps [simp]:
  "st_networks (audit X E iu it a n d j st) = st_networks st"
  "st_nodes (audit X E iu it a n d j st) = st_nodes st"
  "st_tokens (audit X E iu it a n d j st) = st_tokens st"
  "st_revision (audit X E iu it a n d j st) = st_revision st"
  "st_audit_log (audit X E iu it a n d j st) = st_audit_log st @
     [build_audit_entry (uuid_to_string X (new_uuid E iu)) (now_unix E it) a n d j]"
  by (simp_all add: audit_def push_audit_def)

section \<open>Store accesses\<close>

lemma run_write_ok:
  assumes "run_write S io f s = (Inr r, s')"
  obtains st st' where "current s = Some st" "f st = (Inr r, st')" "current s' = Some (bump_revision st')"
proof -
  from assms have "store_write S io f s = (Inr r, s')"
    by (cases "store_write S io f s"; cases "fst (store_write S io f s)") (auto simp: run_write_def)
  then show ?thesis
    using backend.wr_ok [of S io f s r s'] that by blast
qed

lemma run_write_cases:
  assumes "run_write S io f s = (res, s')" and "current s = Some st"
  shows "current s' = Some st \<or> current s' = Some (snd (f st)) \<or>
    (current s' = Some (bump_revision (snd (f st))) \<and> (\<exists>r. fst (f st) = Inr r))"
proof -
  obtain r0 where "store_write S io f s = (r0, s')"
    using assms(1) by (cases "store_write S io f s") (auto simp: run_write_def)
  then show ?thesis
    by (rule backend.wr_cases [OF _ assms(2)])
qed

lemma run_read_ok:
  assumes "run_read io f s = Inr r"
  obtains st where "current s = Some st" "f st = Inr r"
  using assms
  by (cases s; cases "f (case s of File inner _ _ \<Rightarrow> inner | Db row \<Rightarrow> the row)")
    (auto simp: run_read_def store_read_def load_state_db_def split: if_splits option.splits sum.splits)

end
