(* ===== verification/Netid.thy ===== *)
theory Netid
  imports Api_Base
begin

text \<open>
  \<open>netid.rs\<close>: the default overlay prefixes of a network, derived from the hash of its
  identifier. The hash of the \<open>blake3\<close> crate is a parameter; its 32 bytes are the
  argument of the two derivations.
\<close>

unbundle bit_operations_syntax

definition derive_ipv6_ula :: "bytes \<Rightarrow> string" where
  "derive_ipv6_ula hash =
     ''fd'' @ hex2 (hash ! 0) @ '':'' @ hex2 (hash ! 1) @ hex2 (hash ! 2) @ '':''
       @ hex2 (hash ! 3) @ hex2 (hash ! 4) @ ''::/48''"

definition derive_ipv4_overlay :: "bytes \<Rightarrow> string" where
  "derive_ipv4_overlay hash =
     (let raw = (of_nat (of_char (hash ! 5) * 256 + of_char (hash ! 6)) :: u16);
          idx = raw AND 0x3fff;
          second = 64 + (ucast (drop_bit 8 idx) :: u8);
          third = (ucast (idx AND 0xff) :: u8)
      in ''100.'' @ show_nat (unat second) @ ''.'' @ show_nat (unat third) @ ''.0/24'')"

definition derive_overlay_prefixes :: "('n4, 'n6) externals \<Rightarrow> uuid \<Rightarrow> string \<times> string" where
  "derive_overlay_prefixes X network_id =
     (let hash = blake3_hash X network_id
      in (derive_ipv4_overlay hash, derive_ipv6_ula hash))"

section \<open>The derived IPv4 prefix lies in 100.64.0.0/10\<close>

lemma overlay_second_octet: "unat (64 + (ucast (drop_bit 8 (raw AND 0x3fff :: u16)) :: u8)) = 64 + unat raw div 256 mod 64"
proof -
  have "(raw AND 0x3fff) = take_bit 14 raw"
    by (simp add: take_bit_eq_mask mask_eq_exp_minus_1)
  then have "unat (drop_bit 8 (raw AND 0x3fff)) = unat raw mod 2 ^ 14 div 2 ^ 8"
    by (simp add: drop_bit_eq_div take_bit_eq_mod unat_div unat_mod)
  also have "\<dots> = unat raw div 2 ^ 8 mod 2 ^ 6"
    using mod_mult2_eq [of "unat raw" "2 ^ 8" "2 ^ 6"] by simp
  finally have d: "unat (drop_bit 8 (raw AND 0x3fff)) = unat raw div 256 mod 64"
    by simp
  moreover have "unat raw div 256 mod 64 < 64" by simp
  ultimately show ?thesis
    by (simp add: unat_word_ariths unsigned_ucast_eq take_bit_eq_mod)
qed

lemma overlay_third_octet: "unat (ucast ((raw AND 0x3fff :: u16) AND 0xff) :: u8) = unat raw mod 256"
proof -
  have "(raw AND 0x3fff) AND 0xff = take_bit 8 raw"
    by (simp add: take_bit_eq_mask mask_eq_exp_minus_1 and.assoc)
  then show ?thesis
    by (simp add: unsigned_ucast_eq take_bit_eq_mod unat_mod)
qed

text \<open>The address whose text the derivation prints.\<close>

definition overlay_base :: "nat \<Rightarrow> nat \<Rightarrow> ipv4" where
  "overlay_base second third = of_nat (100 * 2 ^ 24 + second * 2 ^ 16 + third * 2 ^ 8)"

lemma overlay_base_unat:
  assumes "second < 256" and "third < 256"
  shows "unat (overlay_base second third) = 100 * 2 ^ 24 + second * 2 ^ 16 + third * 2 ^ 8"
proof -
  have "100 * 2 ^ 24 + second * 2 ^ 16 + third * 2 ^ 8 < (2 :: nat) ^ 32"
    using assms by simp
  then show ?thesis
    unfolding overlay_base_def by (intro unat_of_nat_small) simp
qed

lemma overlay_base_octets:
  assumes "second < 256" and "third < 256"
  shows "ipv4_octets (overlay_base second third) = [100, second, third, 0]"
proof -
  let ?x = "100 * 2 ^ 24 + second * 2 ^ 16 + third * 2 ^ 8"
  have "?x div 2 ^ 24 = 100"
    using assms by (intro div_nat_eqI) simp_all
  moreover have "?x div 2 ^ 16 = 25600 + second"
    using assms by (intro div_nat_eqI) simp_all
  moreover have "?x div 2 ^ 8 = (25600 + second) * 256 + third"
    by simp
  moreover have "(25600 + second) mod 256 = second"
    using assms mod_mult_self3 [of 100 256 second] by simp
  moreover have "(6553600 + 256 * second + third) mod 256 = third"
    using assms mod_mult_self3 [of "25600 + second" 256 third] by (simp add: algebra_simps)
  ultimately show ?thesis
    using assms overlay_base_unat [OF assms] by (simp add: ipv4_octets_def)
qed

lemma derive_ipv4_overlay_text:
  "\<exists>second third. 64 \<le> second \<and> second < 128 \<and> third < 256 \<and>
     derive_ipv4_overlay hash = show_ipv4 (overlay_base second third) @ ''/24''"
proof -
  define raw :: u16 where "raw = of_nat (of_char (hash ! 5) * 256 + of_char (hash ! 6))"
  define second where "second = 64 + unat raw div 256 mod 64"
  define third where "third = unat raw mod 256"
  have b: "64 \<le> second" "second < 128" "third < 256"
    by (auto simp: second_def third_def intro: less_le_trans [OF add_strict_left_mono [of _ 64]])
  have "show_nat 100 = ''100''" "show_nat 0 = ''0''"
    by (simp_all add: show_radix.simps digit_char_def char_of_def bit_0)
  then have "derive_ipv4_overlay hash = show_ipv4 (overlay_base second third) @ ''/24''"
    using b overlay_base_octets [of second third]
    unfolding derive_ipv4_overlay_def Let_def raw_def [symmetric] overlay_second_octet
      overlay_third_octet second_def [symmetric] third_def [symmetric] show_ipv4_def
    by simp
  with b show ?thesis by blast
qed

end
