(* ===== verification/Addressing.thy ===== *)
theory Addressing
  imports Netid
begin

text \<open>
  The overlay addresses of \<open>api.rs\<close>: when two prefixes overlap, the first and the last
  usable offset of a prefix, and the allocation of a node's two addresses from the
  counters of its network. Prefixes are values of the \<open>ipnet\<close> crate, of which
  \<open>ipnet_laws\<close> states the documented meaning.
\<close>

section \<open>Definitions\<close>

definition ipv4_nets_overlap :: "('n4, 'n6) externals \<Rightarrow> 'n4 \<Rightarrow> 'n4 \<Rightarrow> bool" where
  "ipv4_nets_overlap X a b \<longleftrightarrow> v4_contains X a (v4_network X b) \<or> v4_contains X b (v4_network X a)"

definition ipv6_nets_overlap :: "('n4, 'n6) externals \<Rightarrow> 'n6 \<Rightarrow> 'n6 \<Rightarrow> bool" where
  "ipv6_nets_overlap X a b \<longleftrightarrow> v6_contains X a (v6_network X b) \<or> v6_contains X b (v6_network X a)"

definition max_ipv4_offset :: "('n4, 'n6) externals \<Rightarrow> 'n4 \<Rightarrow> u32 option" where
  "max_ipv4_offset X net =
     (let prefix_len = v4_prefix_len X net in
      if prefix_len \<ge> 31 then None
      else let host_bits = 32 - prefix_len;
               total = push_bit host_bits (1 :: u64);
               last_usable = saturating_sub total 2
           in if unat last_usable < 2 ^ 32 then Some (ucast last_usable) else None)"

definition initial_ipv4_offset :: "('n4, 'n6) externals \<Rightarrow> 'n4 \<Rightarrow> u32 option" where
  "initial_ipv4_offset X net =
     (case max_ipv4_offset X net of
        None \<Rightarrow> None
      | Some mx \<Rightarrow> if mx \<ge> 10 then Some 10 else if mx \<ge> 1 then Some 1 else None)"

definition max_ipv6_offset :: "('n4, 'n6) externals \<Rightarrow> 'n6 \<Rightarrow> u128" where
  "max_ipv6_offset X net =
     (let host_bits = 128 - v6_prefix_len X net in
      if host_bits = 128 then - 1
      else if host_bits = 0 then 0
      else push_bit host_bits 1 - 1)"

definition initial_ipv6_offset :: "('n4, 'n6) externals \<Rightarrow> 'n6 \<Rightarrow> u128" where
  "initial_ipv6_offset X net =
     (let mx = max_ipv6_offset X net in if mx \<ge> 10 then 10 else if mx \<ge> 1 then 1 else 0)"

text \<open>
  The counters are those of the network the closure was lent, so the network is returned
  on every path: when the IPv6 space is exhausted, the IPv4 counter has already moved.
\<close>

definition allocate_node_ips ::
  "('n4, 'n6) externals \<Rightarrow> NetworkState \<Rightarrow> (ApiError + string \<times> string) \<times> NetworkState"
where
  "allocate_node_ips X network =
     (case v4_parse X (net_overlay_v4 network) of
        None \<Rightarrow> (Inl Internal, network)
      | Some v4_net \<Rightarrow>
     (case v6_parse X (net_overlay_v6 network) of
        None \<Rightarrow> (Inl Internal, network)
      | Some v6_net \<Rightarrow>
     (case max_ipv4_offset X v4_net of
        None \<Rightarrow> (Inl (Conflict ''ipv4 subnet has no usable host addresses''), network)
      | Some max_ipv4 \<Rightarrow>
        if net_next_ipv4 network > max_ipv4
        then (Inl (Conflict ''ipv4 address space exhausted''), network)
        else
          let ip4 = v4_network X v4_net + net_next_ipv4 network;
              network = network\<lparr>net_next_ipv4 := net_next_ipv4 network + 1\<rparr>
          in if net_next_ipv6 network > max_ipv6_offset X v6_net
             then (Inl (Conflict ''ipv6 address space exhausted''), network)
             else
               let ip6 = v6_network X v6_net + net_next_ipv6 network;
                   network = network\<lparr>net_next_ipv6 := net_next_ipv6 network + 1\<rparr>
               in (Inr (show_ipv4 ip4, show_ipv6 ip6), network))))"

section \<open>What the \<open>ipnet\<close> crate documents\<close>

text \<open>
  A prefix length is at most the width, the network address has no bit set below it, and
  a prefix contains the addresses that agree with its network address above it.
\<close>

definition ipnet_laws :: "('n4, 'n6) externals \<Rightarrow> bool" where
  "ipnet_laws X \<longleftrightarrow>
     (\<forall>n. v4_prefix_len X n \<le> 32) \<and>
     (\<forall>n. take_bit (32 - v4_prefix_len X n) (v4_network X n) = 0) \<and>
     (\<forall>n a. v4_contains X n a \<longleftrightarrow>
        drop_bit (32 - v4_prefix_len X n) a = drop_bit (32 - v4_prefix_len X n) (v4_network X n)) \<and>
     (\<forall>n. v6_prefix_len X n \<le> 128) \<and>
     (\<forall>n. take_bit (128 - v6_prefix_len X n) (v6_network X n) = 0) \<and>
     (\<forall>n a. v6_contains X n a \<longleftrightarrow>
        drop_bit (128 - v6_prefix_len X n) a = drop_bit (128 - v6_prefix_len X n) (v6_network X n))"

lemma ipnet_lawsD:
  assumes "ipnet_laws X"
  shows "v4_prefix_len X n4 \<le> 32" "take_bit (32 - v4_prefix_len X n4) (v4_network X n4) = 0"
    "v4_contains X n4 a4 \<longleftrightarrow>
       drop_bit (32 - v4_prefix_len X n4) a4 = drop_bit (32 - v4_prefix_len X n4) (v4_network X n4)"
    "v6_prefix_len X n6 \<le> 128" "take_bit (128 - v6_prefix_len X n6) (v6_network X n6) = 0"
    "v6_contains X n6 a6 \<longleftrightarrow>
       drop_bit (128 - v6_prefix_len X n6) a6 = drop_bit (128 - v6_prefix_len X n6) (v6_network X n6)"
  using assms unfolding ipnet_laws_def by blast+

section \<open>Blocks of addresses\<close>

text \<open>Two blocks of aligned addresses meet exactly when one holds the other's base.\<close>

lemma drop_bit_more: "h1 \<le> h2 \<Longrightarrow> drop_bit h1 a = drop_bit h1 b \<Longrightarrow> drop_bit h2 a = drop_bit h2 (b :: 'a::len word)"
  by (metis drop_bit_drop_bit le_add_diff_inverse2)

lemma blocks_meet_iff:
  fixes b1 b2 :: "'a::len word"
  shows "(\<exists>a. drop_bit h1 a = drop_bit h1 b1 \<and> drop_bit h2 a = drop_bit h2 b2) \<longleftrightarrow>
    drop_bit h1 b2 = drop_bit h1 b1 \<or> drop_bit h2 b1 = drop_bit h2 b2"
proof
  assume "\<exists>a. drop_bit h1 a = drop_bit h1 b1 \<and> drop_bit h2 a = drop_bit h2 b2"
  then obtain a where a: "drop_bit h1 a = drop_bit h1 b1" "drop_bit h2 a = drop_bit h2 b2"
    by blast
  show "drop_bit h1 b2 = drop_bit h1 b1 \<or> drop_bit h2 b1 = drop_bit h2 b2"
    using a drop_bit_more [of h1 h2 a b1] drop_bit_more [of h2 h1 a b2] by (cases "h1 \<le> h2") auto
qed auto

lemma block_offset:
  fixes base off :: "'a::len word"
  assumes "take_bit h base = 0" and "unat off < 2 ^ h" and "h \<le> LENGTH('a)"
  shows "unat (base + off) = unat base + unat off" and "drop_bit h (base + off) = drop_bit h base"
proof -
  have "take_bit h (unat base) = 0"
    using assms(1) by (metis unsigned_take_bit_eq unsigned_0)
  then have "unat base mod 2 ^ h = 0"
    by (simp add: take_bit_eq_mod)
  then obtain k where k: "unat base = 2 ^ h * k"
    by auto
  have pow: "2 ^ LENGTH('a) = (2 :: nat) ^ h * 2 ^ (LENGTH('a) - h)"
    using assms(3) by (simp add: power_add [symmetric])
  have "2 ^ h * k < 2 ^ h * 2 ^ (LENGTH('a) - h)"
    using k pow by (metis unsigned_less)
  then have "k + 1 \<le> 2 ^ (LENGTH('a) - h)"
    by simp
  then have "2 ^ h * (k + 1) \<le> (2 :: nat) ^ LENGTH('a)"
    unfolding pow by (rule mult_le_mono2)
  then have lt: "unat base + unat off < 2 ^ LENGTH('a)"
    using assms(2) k by (simp add: algebra_simps)
  then show sum: "unat (base + off) = unat base + unat off"
    by (rule unat_plus_exact)
  have "unat (drop_bit h (base + off)) = unat (drop_bit h base)"
    unfolding unat_drop_bit_eq sum k using assms(2) by (simp add: drop_bit_eq_div)
  then show "drop_bit h (base + off) = drop_bit h base"
    by (simp add: word_unat_eq_iff)
qed

lemma ipv4_nets_overlap_iff:
  "ipnet_laws X \<Longrightarrow> ipv4_nets_overlap X a b \<longleftrightarrow> (\<exists>addr. v4_contains X a addr \<and> v4_contains X b addr)"
  unfolding ipv4_nets_overlap_def ipnet_laws_def by (simp add: blocks_meet_iff)

lemma ipv6_nets_overlap_iff:
  "ipnet_laws X \<Longrightarrow> ipv6_nets_overlap X a b \<longleftrightarrow> (\<exists>addr. v6_contains X a addr \<and> v6_contains X b addr)"
  unfolding ipv6_nets_overlap_def ipnet_laws_def by (simp add: blocks_meet_iff)


section \<open>Offsets\<close>

lemma max_ipv4_offset_Some:
  assumes "max_ipv4_offset X net = Some m"
  shows "v4_prefix_len X net < 31" and "unat m = 2 ^ (32 - v4_prefix_len X net) - 2"
proof -
  show len: "v4_prefix_len X net < 31"
    using assms by (auto simp: max_ipv4_offset_def Let_def split: if_splits)
  define h where "h = 32 - v4_prefix_len X net"
  have h: "2 \<le> h" "h \<le> 32"
    using len by (auto simp: h_def)
  have "2 ^ h \<le> (2 :: nat) ^ 32"
    using h by (intro power_increasing) auto
  then have total: "unat (2 ^ h :: u64) = 2 ^ h"
    using unat_of_nat_small [of "2 ^ h", where 'a = 64] by simp
  have "(2 :: nat) ^ 2 \<le> 2 ^ h"
    using h by (intro power_increasing) auto
  then have two: "(2 :: u64) \<le> 2 ^ h"
    by (simp add: word_le_nat_alt total)
  then have last: "unat (saturating_sub (2 ^ h) (2 :: u64)) = 2 ^ h - 2"
    by (simp add: saturating_sub_def unat_sub total)
  have "m = ucast (saturating_sub (2 ^ h) (2 :: u64))"
    using assms len by (auto simp: max_ipv4_offset_def Let_def h_def split: if_splits)
  moreover have "2 ^ h - 2 < (2 :: nat) ^ 32"
    using \<open>2 ^ h \<le> 2 ^ 32\<close> \<open>2 ^ 2 \<le> 2 ^ h\<close> by simp
  ultimately show "unat m = 2 ^ (32 - v4_prefix_len X net) - 2"
    using last by (simp add: unsigned_ucast_eq take_bit_nat_eq_self h_def [symmetric])
qed

lemma unat_pow2_minus_1: "h < LENGTH('a) \<Longrightarrow> unat (2 ^ h - 1 :: 'a::len word) = 2 ^ h - 1"
proof -
  assume "h < LENGTH('a)"
  then have "(2 :: nat) ^ h < 2 ^ LENGTH('a)"
    by (rule power_strict_increasing) simp
  then have "unat (2 ^ h :: 'a word) = 2 ^ h"
    using unat_of_nat_small [of "2 ^ h", where 'a = 'a] by simp
  moreover have "(1 :: nat) \<le> 2 ^ h" by simp
  ultimately show ?thesis
    by (metis unat_sub unsigned_1 word_le_nat_alt)
qed

lemma max_ipv6_offset_bound:
  assumes "v6_prefix_len X net \<le> 128"
  shows "unat (max_ipv6_offset X net) = 2 ^ (128 - v6_prefix_len X net) - 1"
proof -
  define h where "h = 128 - v6_prefix_len X net"
  have "unat (max_ipv6_offset X net) = 2 ^ h - 1"
  proof (cases "h < 128")
    case True
    then show ?thesis
      using unat_pow2_minus_1 [of h, where 'a = 128]
      by (cases "h = 0") (simp_all add: max_ipv6_offset_def Let_def h_def [symmetric])
  next
    case False
    then have "h = 128" by (simp add: h_def)
    then show ?thesis
      by (simp add: max_ipv6_offset_def Let_def h_def [symmetric] unsigned_minus_1_eq_mask mask_eq_exp_minus_1)
  qed
  then show ?thesis by (simp add: h_def)
qed

lemma initial_ipv4_offset_Some:
  assumes "initial_ipv4_offset X net = Some off"
  obtains m where "max_ipv4_offset X net = Some m" "1 \<le> off" "off \<le> m" "off \<le> 10"
  using assms by (auto simp: initial_ipv4_offset_def split: option.splits if_splits)

lemma initial_ipv6_offset_le:
  "initial_ipv6_offset X net \<le> max_ipv6_offset X net \<and> initial_ipv6_offset X net \<le> 10"
  by (auto simp: initial_ipv6_offset_def Let_def)

section \<open>Allocation\<close>

lemma allocate_node_ips_Inr:
  assumes "allocate_node_ips X network = (Inr (s4, s6), network')"
  obtains n4 n6 m where "v4_parse X (net_overlay_v4 network) = Some n4"
    "v6_parse X (net_overlay_v6 network) = Some n6" "max_ipv4_offset X n4 = Some m"
    "net_next_ipv4 network \<le> m" "net_next_ipv6 network \<le> max_ipv6_offset X n6"
    "s4 = show_ipv4 (v4_network X n4 + net_next_ipv4 network)"
    "s6 = show_ipv6 (v6_network X n6 + net_next_ipv6 network)"
    "network' = network\<lparr>net_next_ipv4 := net_next_ipv4 network + 1,
       net_next_ipv6 := net_next_ipv6 network + 1\<rparr>"
proof -
  note * = assms [unfolded allocate_node_ips_def Let_def]
  from * obtain n4 where n4: "v4_parse X (net_overlay_v4 network) = Some n4"
    by (cases "v4_parse X (net_overlay_v4 network)") simp_all
  with * obtain n6 where n6: "v6_parse X (net_overlay_v6 network) = Some n6"
    by (cases "v6_parse X (net_overlay_v6 network)") simp_all
  with * n4 obtain m where m: "max_ipv4_offset X n4 = Some m"
    by (cases "max_ipv4_offset X n4") simp_all
  show ?thesis
    by (rule that [OF n4 n6 m]) (use * n4 n6 m in \<open>simp_all split: if_split_asm\<close>)
qed

lemma allocate_node_ips_Inl:
  assumes "allocate_node_ips X network = (Inl e, network')"
  shows "network' = network \<or>
    (\<exists>n4 m. v4_parse X (net_overlay_v4 network) = Some n4 \<and> max_ipv4_offset X n4 = Some m \<and>
      net_next_ipv4 network \<le> m \<and>
      network' = network\<lparr>net_next_ipv4 := net_next_ipv4 network + 1\<rparr> \<and>
      e = Conflict ''ipv6 address space exhausted'')"
  using assms by (auto simp: allocate_node_ips_def Let_def split: option.splits if_splits)

lemma v4_offset_in_net:
  assumes "ipnet_laws X" and "max_ipv4_offset X n = Some m" and "off \<le> m"
  shows "unat (v4_network X n + off) = unat (v4_network X n) + unat off"
    and "v4_contains X n (v4_network X n + off)"
proof -
  let ?h = "32 - v4_prefix_len X n"
  have "unat off \<le> 2 ^ ?h - 2"
    using assms(3) max_ipv4_offset_Some(2) [OF assms(2)] by (simp add: word_le_nat_alt)
  moreover have "0 < (2 :: nat) ^ ?h" by simp
  ultimately have "unat off < 2 ^ ?h" by linarith
  note * = block_offset [OF ipnet_lawsD(2) [OF assms(1), of n] this]
  show "unat (v4_network X n + off) = unat (v4_network X n) + unat off"
    by (rule *(1)) simp
  show "v4_contains X n (v4_network X n + off)"
    unfolding ipnet_lawsD(3) [OF assms(1)] by (rule *(2)) simp
qed

lemma v6_offset_in_net:
  assumes "ipnet_laws X" and "off \<le> max_ipv6_offset X n"
  shows "unat (v6_network X n + off) = unat (v6_network X n) + unat off"
    and "v6_contains X n (v6_network X n + off)"
proof -
  let ?h = "128 - v6_prefix_len X n"
  have "v6_prefix_len X n \<le> 128"
    using assms(1) by (simp add: ipnet_laws_def)
  then have "unat off \<le> 2 ^ ?h - 1"
    using assms(2) max_ipv6_offset_bound [of X n] by (simp add: word_le_nat_alt)
  moreover have "0 < (2 :: nat) ^ ?h" by simp
  ultimately have "unat off < 2 ^ ?h" by linarith
  note * = block_offset [OF ipnet_lawsD(5) [OF assms(1), of n] this]
  show "unat (v6_network X n + off) = unat (v6_network X n) + unat off"
    by (rule *(1)) simp
  show "v6_contains X n (v6_network X n + off)"
    unfolding ipnet_lawsD(6) [OF assms(1)] by (rule *(2)) simp
qed

text \<open>The last address of a prefix is never allocated to a node.\<close>

lemma v4_offset_not_broadcast:
  assumes "max_ipv4_offset X n = Some m" and "off \<le> m"
  shows "unat off < 2 ^ (32 - v4_prefix_len X n) - 1"
proof -
  have "(2 :: nat) ^ 1 \<le> 2 ^ (32 - v4_prefix_len X n)"
    using max_ipv4_offset_Some(1) [OF assms(1)] by (intro power_increasing) auto
  then show ?thesis
    using assms(2) max_ipv4_offset_Some(2) [OF assms(1)] by (simp add: word_le_nat_alt)
qed

end
