(* ===== verification/Policy.thy ===== *)
theory Policy
  imports Api_Base
begin

text \<open>
  The decisions of \<open>api.rs\<close> about a node: whether its keys have expired and it counts as
  approved, which keys of its history are current, and whether the access rules of a
  network let one node see another.
\<close>

section \<open>Definitions\<close>

definition record_is_current :: "NodeState \<Rightarrow> KeyType \<Rightarrow> KeyRecord \<Rightarrow> bool" where
  "record_is_current node key_type record \<longleftrightarrow>
     kr_key_type record = key_type \<and> kr_revoked_at record = None \<and>
     (case key_type of
        Machine \<Rightarrow> kr_public_key record = nd_machine_public_key node
      | WireGuard \<Rightarrow> kr_public_key record = nd_wg_public_key node)"

definition current_key_created_at :: "NodeState \<Rightarrow> KeyType \<Rightarrow> i64 option" where
  "current_key_created_at node key_type =
     map_option kr_created_at (find (record_is_current node key_type) (nd_key_history node))"

definition effective_node_status :: "NodeState \<Rightarrow> KeyRotationPolicy \<Rightarrow> i64 \<Rightarrow> bool \<times> bool" where
  "effective_node_status node key_policy now =
     (let key_rotation_required =
        (case kp_max_age_seconds key_policy of
           None \<Rightarrow> False
         | Some max_age \<Rightarrow>
             (let max_age = as_i64 max_age;
                  required =
                    (case current_key_created_at node Machine of
                       Some created_at \<Rightarrow> i64_saturating_sub now created_at > max_age
                     | None \<Rightarrow> False)
              in case current_key_created_at node WireGuard of
                   Some created_at \<Rightarrow>
                     if i64_saturating_sub now created_at > max_age then True else required
                 | None \<Rightarrow> required));
          revoked = (nd_revoked_at node \<noteq> None);
          approved = (nd_approved node \<and> \<not> revoked \<and> \<not> key_rotation_required)
      in (approved, key_rotation_required))"

definition revoke_key_record :: "KeyRecord list \<Rightarrow> KeyType \<Rightarrow> string \<Rightarrow> i64 \<Rightarrow> KeyRecord list" where
  "revoke_key_record history key_type public_key now =
     map (\<lambda>record.
       if kr_key_type record = key_type \<and> kr_public_key record = public_key
       then record\<lparr>kr_revoked_at := Some now\<rparr> else record) history"

definition selector_matches :: "NodeState \<Rightarrow> AclSelector \<Rightarrow> bool" where
  "selector_matches node selector =
     (let empty = (sel_tags selector = [] \<and> sel_node_ids selector = [] \<and> sel_names selector = []) in
      if sel_any selector \<or> empty then True
      else if list_ex (\<lambda>id. id = nd_id node) (sel_node_ids selector) then True
      else if list_ex (\<lambda>name. name = nd_name node) (sel_names selector) then True
      else list_ex (\<lambda>tag. list_ex (\<lambda>node_tag. node_tag = tag) (nd_tags node)) (sel_tags selector))"

fun acl_first_match :: "AclRule list \<Rightarrow> AclAction \<Rightarrow> NodeState \<Rightarrow> NodeState \<Rightarrow> bool" where
  "acl_first_match [] default_action src dst \<longleftrightarrow> default_action = Allow"
| "acl_first_match (rule # rules) default_action src dst \<longleftrightarrow>
     (if selector_matches src (rule_src rule) \<and> selector_matches dst (rule_dst rule)
      then rule_action rule = Allow
      else acl_first_match rules default_action src dst)"

definition acl_allows :: "AclPolicy \<Rightarrow> NodeState \<Rightarrow> NodeState \<Rightarrow> bool" where
  "acl_allows policy src dst = acl_first_match (acl_rules policy) (acl_default_action policy) src dst"

section \<open>Access rules\<close>

lemma selector_matches_iff:
  "selector_matches node sel \<longleftrightarrow>
     sel_any sel \<or> (sel_tags sel = [] \<and> sel_node_ids sel = [] \<and> sel_names sel = []) \<or>
     nd_id node \<in> set (sel_node_ids sel) \<or> nd_name node \<in> set (sel_names sel) \<or>
     set (nd_tags node) \<inter> set (sel_tags sel) \<noteq> {}"
  by (auto simp: selector_matches_def list_ex_iff)

definition rule_applies :: "NodeState \<Rightarrow> NodeState \<Rightarrow> AclRule \<Rightarrow> bool" where
  "rule_applies src dst rule \<longleftrightarrow>
     selector_matches src (rule_src rule) \<and> selector_matches dst (rule_dst rule)"

lemma acl_first_match_find:
  "acl_first_match rules d src dst \<longleftrightarrow>
     (case find (rule_applies src dst) rules of None \<Rightarrow> d | Some r \<Rightarrow> rule_action r) = Allow"
  by (induction rules) (auto simp: rule_applies_def)

text \<open>
  The rule that decides is the first one that applies: every earlier rule can be dropped
  and no later one matters.
\<close>

lemma acl_allows_decided:
  assumes "acl_rules p = before @ r # after" and "\<forall>q\<in>set before. \<not> rule_applies src dst q"
    and "rule_applies src dst r"
  shows "acl_allows p src dst \<longleftrightarrow> rule_action r = Allow"
proof -
  have "find (rule_applies src dst) before = None"
    using assms(2) by (simp add: find_None_iff)
  with assms(3) have "find (rule_applies src dst) (before @ r # after) = Some r"
    by (induction before) (auto split: if_splits)
  then show ?thesis
    by (simp add: acl_allows_def acl_first_match_find assms(1))
qed

lemma acl_allows_default:
  "\<forall>q\<in>set (acl_rules p). \<not> rule_applies src dst q \<Longrightarrow>
     acl_allows p src dst \<longleftrightarrow> acl_default_action p = Allow"
  using find_None_iff [of "rule_applies src dst" "acl_rules p"]
  by (simp add: acl_allows_def acl_first_match_find)

section \<open>Key records\<close>

lemma current_key_created_at_None_iff:
  "current_key_created_at node kt = None \<longleftrightarrow>
     (\<forall>r\<in>set (nd_key_history node). \<not> record_is_current node kt r)"
  by (auto simp: current_key_created_at_def find_None_iff)

lemma current_key_created_at_Some:
  "current_key_created_at node kt = Some t \<Longrightarrow>
     \<exists>r\<in>set (nd_key_history node). record_is_current node kt r \<and> kr_created_at r = t"
  by (auto simp: current_key_created_at_def find_Some_iff)

definition node_key :: "NodeState \<Rightarrow> KeyType \<Rightarrow> string" where
  "node_key node kt = (case kt of Machine \<Rightarrow> nd_machine_public_key node | WireGuard \<Rightarrow> nd_wg_public_key node)"

lemma record_is_current_iff:
  "record_is_current node kt r \<longleftrightarrow>
     kr_key_type r = kt \<and> kr_revoked_at r = None \<and> kr_public_key r = node_key node kt"
  by (cases kt) (auto simp: record_is_current_def node_key_def)

text \<open>A revoked record is current no more, and records of other keys are left alone.\<close>

lemma revoke_key_record_revokes:
  "r \<in> set (revoke_key_record h kt pk now) \<Longrightarrow> kr_key_type r = kt \<Longrightarrow> kr_public_key r = pk \<Longrightarrow>
     kr_revoked_at r = Some now"
  unfolding revoke_key_record_def set_map by (elim imageE) (simp split: if_split_asm)

lemma revoke_key_record_others:
  assumes "kr_key_type r \<noteq> kt \<or> kr_public_key r \<noteq> pk"
  shows "r \<in> set (revoke_key_record h kt pk now) \<longleftrightarrow> r \<in> set h"
proof (induction h)
  case (Cons x h)
  have "r = (if kr_key_type x = kt \<and> kr_public_key x = pk then x\<lparr>kr_revoked_at := Some now\<rparr> else x)
    \<longleftrightarrow> r = x"
    using assms by (cases r; cases x) auto
  with Cons show ?case
    unfolding revoke_key_record_def by (simp only: list.map list.set insert_iff)
qed (simp add: revoke_key_record_def)

lemma revoke_key_record_length [simp]: "length (revoke_key_record h kt pk now) = length h"
  by (simp add: revoke_key_record_def)

section \<open>Effective status\<close>

lemma key_rotation_required_cases:
  "snd (effective_node_status node kp now) \<longleftrightarrow>
     (case kp_max_age_seconds kp of
        None \<Rightarrow> False
      | Some max_age \<Rightarrow>
          (case current_key_created_at node Machine of
             None \<Rightarrow> False | Some t \<Rightarrow> i64_saturating_sub now t > as_i64 max_age) \<or>
          (case current_key_created_at node WireGuard of
             None \<Rightarrow> False | Some t \<Rightarrow> i64_saturating_sub now t > as_i64 max_age))"
  by (auto simp: effective_node_status_def Let_def split: option.split)

lemma key_rotation_required_iff:
  "snd (effective_node_status node kp now) \<longleftrightarrow>
     (\<exists>max_age kt t. kp_max_age_seconds kp = Some max_age \<and>
        current_key_created_at node kt = Some t \<and> i64_saturating_sub now t > as_i64 max_age)"
proof -
  have ex_kt: "(\<exists>kt. P kt) \<longleftrightarrow> P Machine \<or> P WireGuard" for P
    by (metis KeyType.exhaust)
  show ?thesis
    unfolding key_rotation_required_cases ex_kt by (auto split: option.split)
qed

lemma effective_approved_iff:
  "fst (effective_node_status node kp now) \<longleftrightarrow>
     nd_approved node \<and> nd_revoked_at node = None \<and> \<not> snd (effective_node_status node kp now)"
  by (simp add: effective_node_status_def Let_def)

text \<open>
  A maximal age whose top bit is set is a negative \<open>i64\<close>: with it every key that was not
  created in the far future has expired.
\<close>

lemma as_i64_negative: "2 ^ 63 \<le> uint w \<Longrightarrow> as_i64 w < 0"
proof -
  assume "2 ^ 63 \<le> uint w"
  moreover have lt: "uint w < 2 ^ 64"
    using uint_lt2p [of w] by simp
  ultimately have "uint w div 2 ^ 63 = 1"
    by (intro int_div_pos_eq [where r = "uint w - 2 ^ 63"]) simp_all
  then have "bit (uint w) 63"
    by (simp add: bit_iff_odd)
  then show ?thesis
    using lt by (simp add: as_i64_def sint_uint signed_take_bit_eq_take_bit_minus take_bit_int_eq_self)
qed

lemma huge_max_age_expires:
  assumes "kp_max_age_seconds kp = Some w" and "2 ^ 63 \<le> uint w"
    and "current_key_created_at node kt = Some t" and "t \<le> now"
  shows "\<not> fst (effective_node_status node kp now)"
proof -
  have "as_i64 w < i64_saturating_sub now t"
    using assms(4) as_i64_negative [OF assms(2)] by (simp add: i64_saturating_sub_def)
  then have "snd (effective_node_status node kp now)"
    unfolding key_rotation_required_iff using assms(1,3) by blast
  then show ?thesis by (simp add: effective_approved_iff)
qed

end
