(* ===== verification/Networks.thy ===== *)
theory Networks
  imports Addressing Policy
begin

text \<open>
  The handlers of \<open>api.rs\<close> on networks, enrollment tokens, the two policies of a network
  and the audit log. Of every handler that writes, the closure it passes to the store is
  a definition of its own, with the suffix \<open>tx\<close>; the handler calls it after the checks
  and the computations the code makes before.
\<close>

section \<open>Creating a network\<close>

fun overlay_conflict ::
  "('n4, 'n6) externals \<Rightarrow> 'n4 \<Rightarrow> 'n6 \<Rightarrow> NetworkState list \<Rightarrow> ApiError option"
where
  "overlay_conflict X overlay_v4_net overlay_v6_net [] = None"
| "overlay_conflict X overlay_v4_net overlay_v6_net (existing # rest) =
     (case v4_parse X (net_overlay_v4 existing) of
        None \<Rightarrow> Some Internal
      | Some existing_v4 \<Rightarrow>
          if ipv4_nets_overlap X overlay_v4_net existing_v4
          then Some (Conflict ''overlay_v4 overlaps existing network'')
          else (case v6_parse X (net_overlay_v6 existing) of
                  None \<Rightarrow> Some Internal
                | Some existing_v6 \<Rightarrow>
                    if ipv6_nets_overlap X overlay_v6_net existing_v6
                    then Some (Conflict ''overlay_v6 overlaps existing network'')
                    else overlay_conflict X overlay_v4_net overlay_v6_net rest))"

text \<open>The parsed prefixes and the record of the new network, computed before the store is touched.\<close>

definition create_network_state ::
  "('n4, 'n6) externals \<Rightarrow> env \<Rightarrow> CreateNetworkRequest \<Rightarrow> ApiError + ('n4 \<times> 'n6 \<times> NetworkState)"
where
  "create_network_state X E req =
     (let network_id = new_uuid E 0;
          (default_overlay_v4, default_overlay_v6) = derive_overlay_prefixes X network_id;
          overlay_v4 = (case cn_overlay_v4 req of Some v \<Rightarrow> v | None \<Rightarrow> default_overlay_v4);
          overlay_v6 = (case cn_overlay_v6 req of Some v \<Rightarrow> v | None \<Rightarrow> default_overlay_v6)
      in case v4_parse X overlay_v4 of
           None \<Rightarrow> Inl (BadRequest ''invalid overlay_v4 cidr'')
         | Some overlay_v4_net \<Rightarrow>
        (case v6_parse X overlay_v6 of
           None \<Rightarrow> Inl (BadRequest ''invalid overlay_v6 cidr'')
         | Some overlay_v6_net \<Rightarrow>
        (case initial_ipv4_offset X overlay_v4_net of
           None \<Rightarrow> Inl (BadRequest ''overlay_v4 must provide usable host addresses'')
         | Some next_ipv4 \<Rightarrow>
             Inr (overlay_v4_net, overlay_v6_net,
               \<lparr>net_id = uuid_to_string X network_id, net_name = cn_name req,
                net_overlay_v4 = overlay_v4, net_overlay_v6 = overlay_v6,
                net_dns_domain =
                  (case cn_dns_domain req of
                     Some d \<Rightarrow> d
                   | None \<Rightarrow> ''net-'' @ short_id (uuid_to_string X network_id) @ ''.lightscale''),
                net_requires_approval =
                  (case cn_requires_approval req of Some b \<Rightarrow> b | None \<Rightarrow> False),
                net_acl = acl_policy_default,
                net_key_policy = \<lparr>kp_max_age_seconds = cn_key_rotation_max_age_seconds req\<rparr>,
                net_created_at = now_unix E 0,
                net_next_ipv4 = next_ipv4,
                net_next_ipv6 = initial_ipv6_offset X overlay_v6_net\<rparr>))))"

text \<open>
  The closure. Its result is the bootstrap token. The network and its audit entry are
  already in the state when \<open>build_token\<close> refuses the token.
\<close>

definition create_network_tx ::
  "('n4, 'n6) externals \<Rightarrow> env \<Rightarrow> CreateNetworkRequest \<Rightarrow> 'n4 \<Rightarrow> 'n6 \<Rightarrow> NetworkState
   \<Rightarrow> (ApiError, EnrollmentToken option) tx"
where
  "create_network_tx X E req overlay_v4_net overlay_v6_net network_state st =
     (if hm_contains_key (st_networks st) (net_id network_state)
      then (Inl (Conflict ''network already exists''), st)
      else case overlay_conflict X overlay_v4_net overlay_v6_net (hm_values (st_networks st)) of
             Some e \<Rightarrow> (Inl e, st)
           | None \<Rightarrow>
        (let st = put_network (net_id network_state) network_state st;
             st = audit X E 1 1 ''network.create'' (Some (net_id network_state)) None
               (Some (JObj [(''name'', JStr (net_name network_state)),
                 (''requires_approval'', JBool (net_requires_approval network_state)),
                 (''key_rotation_max_age_seconds'',
                    json_opt (\<lambda>n. JInt (uint n)) (kp_max_age_seconds (net_key_policy network_state)))])) st
         in case cn_bootstrap_token_ttl_seconds req of
              None \<Rightarrow> (Inr None, st)
            | Some ttl \<Rightarrow>
                (case build_token (random_secret E 0) (now_unix E 2) (net_id network_state) ttl
                        (case cn_bootstrap_token_uses req of Some u \<Rightarrow> u | None \<Rightarrow> 1)
                        (case cn_bootstrap_token_tags req of Some t \<Rightarrow> t | None \<Rightarrow> []) None None True of
                   Inl e \<Rightarrow> (Inl e, st)
                 | Inr token \<Rightarrow>
                     (Inr (Some (enrollment_token_from token)), put_token (tk_token token) token st))))"

definition create_network ::
  "'c serde \<Rightarrow> 'c io_env \<Rightarrow> ('n4, 'n6) externals \<Rightarrow> env \<Rightarrow> AppState \<Rightarrow> headers \<Rightarrow> CreateNetworkRequest
   \<Rightarrow> 'c StoreBackend \<Rightarrow> (ApiError + CreateNetworkResponse) \<times> 'c StoreBackend"
where
  "create_network S io X E app headers req store =
     (case require_admin headers (app_admin_token app) of
        Inl e \<Rightarrow> (Inl e, store)
      | Inr _ \<Rightarrow>
     (case create_network_state X E req of
        Inl e \<Rightarrow> (Inl e, store)
      | Inr (overlay_v4_net, overlay_v6_net, network_state) \<Rightarrow>
     (case run_write S io (create_network_tx X E req overlay_v4_net overlay_v6_net network_state) store of
        (Inl e, store) \<Rightarrow> (Inl e, store)
      | (Inr bootstrap_token, store) \<Rightarrow>
          (Inr \<lparr>cnr_network = network_info_from network_state,
                cnr_bootstrap_token = bootstrap_token\<rparr>, store))))"

section \<open>Tokens\<close>

definition create_token_tx ::
  "('n4, 'n6) externals \<Rightarrow> env \<Rightarrow> string \<Rightarrow> CreateTokenRequest \<Rightarrow> (ApiError, TokenState) tx"
where
  "create_token_tx X E network_id req st =
     (case hm_get (st_networks st) network_id of
        None \<Rightarrow> (Inl (NotFound ''network''), st)
      | Some network \<Rightarrow>
     (case build_token (random_secret E 0) (now_unix E 0) (net_id network) (ct_ttl_seconds req)
             (ct_uses req) (ct_tags req) (ct_owner_user_id req) (ct_owner_email req)
             (case ct_owner_is_admin req of Some b \<Rightarrow> b | None \<Rightarrow> True) of
        Inl e \<Rightarrow> (Inl e, st)
      | Inr token \<Rightarrow>
          (let st = put_token (tk_token token) token st;
               st = audit X E 0 1 ''token.create'' (Some (net_id network)) None
                 (Some (JObj [(''expires_at'', JInt (tk_expires_at token)),
                   (''uses'', JInt (uint (tk_uses_left token))),
                   (''tags'', JArr (map JStr (tk_tags token))),
                   (''owner_user_id'', json_opt JStr (tk_owner_user_id token)),
                   (''owner_email'', json_opt JStr (tk_owner_email token)),
                   (''owner_is_admin'', JBool (tk_owner_is_admin token))])) st
           in (Inr token, st))))"

definition create_token ::
  "'c serde \<Rightarrow> 'c io_env \<Rightarrow> ('n4, 'n6) externals \<Rightarrow> env \<Rightarrow> AppState \<Rightarrow> headers \<Rightarrow> string
   \<Rightarrow> CreateTokenRequest \<Rightarrow> 'c StoreBackend \<Rightarrow> (ApiError + EnrollmentToken) \<times> 'c StoreBackend"
where
  "create_token S io X E app headers network_id req store =
     (case require_admin headers (app_admin_token app) of
        Inl e \<Rightarrow> (Inl e, store)
      | Inr _ \<Rightarrow>
          apfst (map_sum id enrollment_token_from)
            (run_write S io (create_token_tx X E network_id req) store))"

definition list_tokens_query :: "string \<Rightarrow> State \<Rightarrow> ApiError + EnrollmentToken list" where
  "list_tokens_query network_id st =
     (if \<not> hm_contains_key (st_networks st) network_id then Inl (NotFound ''network'')
      else Inr (rev (sort_key et_expires_at
             (map enrollment_token_from
               (filter (\<lambda>token. tk_network_id token = network_id) (hm_values (st_tokens st)))))))"

definition list_tokens ::
  "'c io_env \<Rightarrow> AppState \<Rightarrow> headers \<Rightarrow> string \<Rightarrow> 'c StoreBackend \<Rightarrow> ApiError + EnrollmentToken list"
where
  "list_tokens io app headers network_id store =
     (case require_admin headers (app_admin_token app) of
        Inl e \<Rightarrow> Inl e
      | Inr _ \<Rightarrow> run_read io (list_tokens_query network_id) store)"

definition revoke_token_tx ::
  "('n4, 'n6) externals \<Rightarrow> env \<Rightarrow> string \<Rightarrow> (ApiError, TokenState) tx"
where
  "revoke_token_tx X E token_id st =
     (case hm_get (st_tokens st) token_id of
        None \<Rightarrow> (Inl (NotFound ''token''), st)
      | Some token \<Rightarrow>
          (let token = token\<lparr>tk_revoked_at := Some (now_unix E 0)\<rparr>;
               st = put_token token_id token st;
               st = audit X E 0 1 ''token.revoke'' (Some (tk_network_id token)) None
                 (Some (JObj [(''revoked_at'', json_opt JInt (tk_revoked_at token))])) st
           in (Inr token, st)))"

definition revoke_token ::
  "'c serde \<Rightarrow> 'c io_env \<Rightarrow> ('n4, 'n6) externals \<Rightarrow> env \<Rightarrow> AppState \<Rightarrow> headers \<Rightarrow> string
   \<Rightarrow> 'c StoreBackend \<Rightarrow> (ApiError + EnrollmentToken) \<times> 'c StoreBackend"
where
  "revoke_token S io X E app headers token_id store =
     (case require_admin headers (app_admin_token app) of
        Inl e \<Rightarrow> (Inl e, store)
      | Inr _ \<Rightarrow>
          apfst (map_sum id enrollment_token_from) (run_write S io (revoke_token_tx X E token_id) store))"

section \<open>Policies of a network\<close>

definition get_acl ::
  "'c io_env \<Rightarrow> AppState \<Rightarrow> headers \<Rightarrow> string \<Rightarrow> 'c StoreBackend \<Rightarrow> ApiError + AclPolicy"
where
  "get_acl io app headers network_id store =
     (case require_admin headers (app_admin_token app) of
        Inl e \<Rightarrow> Inl e
      | Inr _ \<Rightarrow>
          run_read io (\<lambda>st. case hm_get (st_networks st) network_id of
             None \<Rightarrow> Inl (NotFound ''network'') | Some network \<Rightarrow> Inr (net_acl network)) store)"

definition update_acl_tx ::
  "('n4, 'n6) externals \<Rightarrow> env \<Rightarrow> string \<Rightarrow> AclPolicy \<Rightarrow> (ApiError, AclPolicy) tx"
where
  "update_acl_tx X E network_id policy st =
     (case hm_get (st_networks st) network_id of
        None \<Rightarrow> (Inl (NotFound ''network''), st)
      | Some network \<Rightarrow>
          (let network = network\<lparr>net_acl := policy\<rparr>;
               st = put_network network_id network st;
               st = audit X E 0 0 ''acl.update'' (Some (net_id network)) None None st
           in (Inr (net_acl network), st)))"

definition update_acl ::
  "'c serde \<Rightarrow> 'c io_env \<Rightarrow> ('n4, 'n6) externals \<Rightarrow> env \<Rightarrow> AppState \<Rightarrow> headers \<Rightarrow> string \<Rightarrow> AclPolicy
   \<Rightarrow> 'c StoreBackend \<Rightarrow> (ApiError + AclPolicy) \<times> 'c StoreBackend"
where
  "update_acl S io X E app headers network_id policy store =
     (case require_admin headers (app_admin_token app) of
        Inl e \<Rightarrow> (Inl e, store)
      | Inr _ \<Rightarrow> run_write S io (update_acl_tx X E network_id policy) store)"

definition get_key_policy ::
  "'c io_env \<Rightarrow> AppState \<Rightarrow> headers \<Rightarrow> string \<Rightarrow> 'c StoreBackend \<Rightarrow> ApiError + KeyRotationPolicy"
where
  "get_key_policy io app headers network_id store =
     (case require_admin headers (app_admin_token app) of
        Inl e \<Rightarrow> Inl e
      | Inr _ \<Rightarrow>
          run_read io (\<lambda>st. case hm_get (st_networks st) network_id of
             None \<Rightarrow> Inl (NotFound ''network'') | Some network \<Rightarrow> Inr (net_key_policy network)) store)"

definition update_key_policy_tx ::
  "('n4, 'n6) externals \<Rightarrow> env \<Rightarrow> string \<Rightarrow> KeyRotationPolicy \<Rightarrow> (ApiError, KeyRotationPolicy) tx"
where
  "update_key_policy_tx X E network_id req st =
     (case hm_get (st_networks st) network_id of
        None \<Rightarrow> (Inl (NotFound ''network''), st)
      | Some network \<Rightarrow>
          (let network = network\<lparr>net_key_policy := req\<rparr>;
               st = put_network network_id network st;
               st = audit X E 0 0 ''key_policy.update'' (Some (net_id network)) None
                 (Some (JObj [(''max_age_seconds'',
                    json_opt (\<lambda>n. JInt (uint n)) (kp_max_age_seconds (net_key_policy network)))])) st
           in (Inr (net_key_policy network), st)))"

definition update_key_policy ::
  "'c serde \<Rightarrow> 'c io_env \<Rightarrow> ('n4, 'n6) externals \<Rightarrow> env \<Rightarrow> AppState \<Rightarrow> headers \<Rightarrow> string
   \<Rightarrow> KeyRotationPolicy \<Rightarrow> 'c StoreBackend \<Rightarrow> (ApiError + KeyRotationPolicy) \<times> 'c StoreBackend"
where
  "update_key_policy S io X E app headers network_id req store =
     (case require_admin headers (app_admin_token app) of
        Inl e \<Rightarrow> (Inl e, store)
      | Inr _ \<Rightarrow> run_write S io (update_key_policy_tx X E network_id req) store)"

section \<open>Deleting a network\<close>

definition delete_network_tx ::
  "('n4, 'n6) externals \<Rightarrow> env \<Rightarrow> string \<Rightarrow> (ApiError, unit) tx"
where
  "delete_network_tx X E network_id st =
     (if \<not> hm_contains_key (st_networks st) network_id then (Inl (NotFound ''network''), st)
      else
        let connected_nodes =
              map nd_id (filter (\<lambda>node. nd_network_id node = network_id) (hm_values (st_nodes st)))
        in if connected_nodes \<noteq> []
           then (Inl (Conflict ''network has connected nodes; revoke or delete nodes first''), st)
           else
             let st = st\<lparr>st_tokens := hm_retain (\<lambda>_ token. tk_network_id token \<noteq> network_id) (st_tokens st)\<rparr>;
                 st = st\<lparr>st_networks := hm_remove network_id (st_networks st)\<rparr>;
                 st = audit X E 0 0 ''network.delete'' (Some network_id) None None st
             in (Inr (), st))"

definition delete_network ::
  "'c serde \<Rightarrow> 'c io_env \<Rightarrow> ('n4, 'n6) externals \<Rightarrow> env \<Rightarrow> AppState \<Rightarrow> headers \<Rightarrow> string
   \<Rightarrow> 'c StoreBackend \<Rightarrow> (ApiError + unit) \<times> 'c StoreBackend"
where
  "delete_network S io X E app headers network_id store =
     (case require_admin headers (app_admin_token app) of
        Inl e \<Rightarrow> (Inl e, store)
      | Inr _ \<Rightarrow> run_write S io (delete_network_tx X E network_id) store)"

section \<open>The audit log\<close>

record AuditQuery =
  aq_network_id :: "string option"
  aq_node_id :: "string option"
  aq_limit :: "nat option"

definition audit_matches :: "AuditQuery \<Rightarrow> AuditEntry \<Rightarrow> bool" where
  "audit_matches params entry =
     (if (case aq_network_id params of Some n \<Rightarrow> ae_network_id entry \<noteq> Some n | None \<Rightarrow> False)
      then False
      else if (case aq_node_id params of Some n \<Rightarrow> ae_node_id entry \<noteq> Some n | None \<Rightarrow> False)
      then False else True)"

definition audit_log_query :: "AuditQuery \<Rightarrow> State \<Rightarrow> ApiError + AuditEntry list" where
  "audit_log_query params st =
     (let entries = filter (audit_matches params) (st_audit_log st);
          entries =
            (case aq_limit params of
               Some limit \<Rightarrow>
                 if length entries > limit then drop (length entries - limit) entries else entries
             | None \<Rightarrow> entries)
      in Inr entries)"

definition audit_log ::
  "'c io_env \<Rightarrow> AppState \<Rightarrow> headers \<Rightarrow> AuditQuery \<Rightarrow> 'c StoreBackend \<Rightarrow> ApiError + AuditEntry list"
where
  "audit_log io app headers params store =
     (case require_admin headers (app_admin_token app) of
        Inl e \<Rightarrow> Inl e
      | Inr _ \<Rightarrow> run_read io (audit_log_query params) store)"

lemmas network_tx_defs [op_defs] = create_token_tx_def revoke_token_tx_def update_acl_tx_def
  update_key_policy_tx_def delete_network_tx_def create_network_tx_def

section \<open>Overlaps\<close>

text \<open>The loop lets a network through when its prefixes meet none of the existing ones.\<close>

lemma overlay_conflict_None_iff:
  "overlay_conflict X n4 n6 nets = None \<longleftrightarrow>
     (\<forall>e\<in>set nets. \<exists>e4 e6. v4_parse X (net_overlay_v4 e) = Some e4 \<and>
        v6_parse X (net_overlay_v6 e) = Some e6 \<and>
        \<not> ipv4_nets_overlap X n4 e4 \<and> \<not> ipv6_nets_overlap X n6 e6)"
  by (induction nets) (auto split: option.splits)

lemma create_network_state_Inr:
  assumes "create_network_state X E req = Inr (n4, n6, ns)"
  shows "v4_parse X (net_overlay_v4 ns) = Some n4" "v6_parse X (net_overlay_v6 ns) = Some n6"
    "initial_ipv4_offset X n4 = Some (net_next_ipv4 ns)"
    "net_next_ipv6 ns = initial_ipv6_offset X n6"
    "net_id ns = uuid_to_string X (new_uuid E 0)"
  using assms
  by (auto simp: create_network_state_def Let_def case_prod_unfold split: option.splits)

end
