(* ===== verification/Netmap.thy ===== *)
theory Netmap
  imports Policy
begin

text \<open>
  The view a node gets of its network: \<open>build_netmap\<close> with the peers it may see and the
  probes they asked for, and the two handlers of \<open>api.rs\<close> that return it, at once or
  after waiting for a newer revision.
\<close>

section \<open>Definitions\<close>

definition PROBE_TTL_SECONDS :: i64 where
  "PROBE_TTL_SECONDS = 30"

definition probe_request :: "State \<Rightarrow> i64 \<Rightarrow> PeerInfo \<Rightarrow> ProbeRequest option" where
  "probe_request st now peer =
     (case hm_get (st_nodes st) (pi_id peer) of
        None \<Rightarrow> None
      | Some node \<Rightarrow>
          (case nd_probe_requested_at node of
             None \<Rightarrow> None
           | Some requested_at \<Rightarrow>
               if i64_saturating_sub now requested_at > PROBE_TTL_SECONDS then None
               else Some \<lparr>pr_peer_id = pi_id peer, pr_endpoints = pi_endpoints peer,
                          pr_ipv4 = pi_ipv4 peer, pr_ipv6 = pi_ipv6 peer,
                          pr_requested_at = requested_at\<rparr>))"

definition collect_probe_requests :: "State \<Rightarrow> PeerInfo list \<Rightarrow> i64 \<Rightarrow> ProbeRequest list" where
  "collect_probe_requests st peers now = List.map_filter (probe_request st now) peers"

definition collect_peers ::
  "string \<Rightarrow> string \<Rightarrow> (string, NodeState) hmap \<Rightarrow> string option \<Rightarrow> NodeState \<Rightarrow> AclPolicy
   \<Rightarrow> KeyRotationPolicy \<Rightarrow> i64 \<Rightarrow> PeerInfo list"
where
  "collect_peers network_id dns_domain nodes exclude_id src_node acl key_policy now =
     map (\<lambda>node. peer_info_from node dns_domain)
       (filter (\<lambda>node. acl_allows acl src_node node)
         (filter (\<lambda>node. case exclude_id of None \<Rightarrow> True | Some ex_id \<Rightarrow> nd_id node \<noteq> ex_id)
           (filter (\<lambda>node. let (approved, _) = effective_node_status node key_policy now in approved)
             (filter (\<lambda>node. nd_network_id node = network_id) (hm_values nodes)))))"

text \<open>\<open>now\<close> and \<open>generated_at\<close> are the results of the two calls of \<open>now_unix\<close>.\<close>

definition build_netmap ::
  "i64 \<Rightarrow> i64 \<Rightarrow> State \<Rightarrow> string \<Rightarrow> RelayConfig option \<Rightarrow> ApiError + NetMap"
where
  "build_netmap now generated_at st node_id relay =
     (case hm_get (st_nodes st) node_id of
        None \<Rightarrow> Inl (NotFound ''node'')
      | Some node \<Rightarrow>
     (case hm_get (st_networks st) (nd_network_id node) of
        None \<Rightarrow> Inl (NotFound ''network'')
      | Some network \<Rightarrow>
          (let (approved, key_rotation_required) =
                 effective_node_status node (net_key_policy network) now;
               peers = (if approved
                 then collect_peers (net_id network) (net_dns_domain network) (st_nodes st)
                        (Some node_id) node (net_acl network) (net_key_policy network) now
                 else []);
               probe_requests = collect_probe_requests st peers now
           in Inr \<lparr>nm_network = network_info_from network,
                   nm_node = node_info_from_state node (net_dns_domain network) approved
                     key_rotation_required,
                   nm_peers = peers, nm_relay = relay, nm_probe_requests = probe_requests,
                   nm_generated_at = generated_at, nm_revision = st_revision st\<rparr>)))"

text \<open>The closure both handlers pass to \<open>read\<close>: the netmap and the revision it was built from.\<close>

definition netmap_query ::
  "i64 \<Rightarrow> i64 \<Rightarrow> AppState \<Rightarrow> headers \<Rightarrow> string \<Rightarrow> State \<Rightarrow> ApiError + u64 \<times> NetMap"
where
  "netmap_query now generated_at app headers node_id st =
     (case hm_get (st_nodes st) node_id of
        None \<Rightarrow> Inl (NotFound ''node'')
      | Some node \<Rightarrow>
     (case require_node headers (app_admin_token app) node of
        Inl e \<Rightarrow> Inl e
      | Inr _ \<Rightarrow>
     (case build_netmap now generated_at st node_id (relay_or_none (app_relay app)) of
        Inl e \<Rightarrow> Inl e
      | Inr netmap \<Rightarrow> Inr (st_revision st, netmap))))"

definition netmap ::
  "'c io_env \<Rightarrow> env \<Rightarrow> AppState \<Rightarrow> headers \<Rightarrow> string \<Rightarrow> 'c StoreBackend \<Rightarrow> ApiError + NetMap"
where
  "netmap io E app headers node_id store =
     map_sum map_store_err snd
       (store_read io (netmap_query (now_unix E 0) (now_unix E 1) app headers node_id) store)"

text \<open>
  One turn of the long poll, at an instant in milliseconds, on the store as it is then.
  \<open>None\<close> is the turn that goes to sleep.
\<close>

record 'c poll_turn =
  pt_store :: "'c StoreBackend"
  pt_io :: "'c io_env"
  pt_env :: env
  pt_instant :: nat

definition longpoll_turn ::
  "AppState \<Rightarrow> headers \<Rightarrow> string \<Rightarrow> u64 \<Rightarrow> nat \<Rightarrow> 'c poll_turn \<Rightarrow> (ApiError + NetMap) option"
where
  "longpoll_turn app headers node_id since deadline turn =
     (case store_read (pt_io turn)
             (netmap_query (now_unix (pt_env turn) 0) (now_unix (pt_env turn) 1) app headers node_id)
             (pt_store turn) of
        Inl e \<Rightarrow> Some (Inl (map_store_err e))
      | Inr (revision, nm) \<Rightarrow>
          if revision > since \<or> pt_instant turn \<ge> deadline then Some (Inr nm) else None)"

partial_function (option) longpoll_loop ::
  "AppState \<Rightarrow> headers \<Rightarrow> string \<Rightarrow> u64 \<Rightarrow> nat \<Rightarrow> (nat \<Rightarrow> 'c poll_turn) \<Rightarrow> nat \<Rightarrow> (ApiError + NetMap) option"
where
  "longpoll_loop app headers node_id since deadline turns k =
     (case longpoll_turn app headers node_id since deadline (turns k) of
        Some res \<Rightarrow> Some res
      | None \<Rightarrow> longpoll_loop app headers node_id since deadline turns (Suc k))"

declare longpoll_loop.simps [code]

record NetmapLongpollParams =
  lp_since :: "u64 option"
  lp_timeout_seconds :: "u64 option"

definition longpoll_timeout :: "NetmapLongpollParams \<Rightarrow> u64" where
  "longpoll_timeout params =
     min (case lp_timeout_seconds params of Some t \<Rightarrow> t | None \<Rightarrow> 30) 300"

text \<open>\<open>start\<close> is the instant at which the handler computes its deadline.\<close>

definition netmap_longpoll ::
  "AppState \<Rightarrow> headers \<Rightarrow> string \<Rightarrow> NetmapLongpollParams \<Rightarrow> nat \<Rightarrow> (nat \<Rightarrow> 'c poll_turn)
   \<Rightarrow> (ApiError + NetMap) option"
where
  "netmap_longpoll app headers node_id params start turns =
     (let since = (case lp_since params of Some s \<Rightarrow> s | None \<Rightarrow> 0);
          deadline = start + unat (longpoll_timeout params) * 1000
      in longpoll_loop app headers node_id since deadline turns 0)"

section \<open>Peers\<close>

text \<open>Whether \<open>dst\<close> is a peer that \<open>src\<close> is shown in a network.\<close>

definition visible_peer :: "NetworkState \<Rightarrow> string \<Rightarrow> i64 \<Rightarrow> NodeState \<Rightarrow> NodeState \<Rightarrow> bool" where
  "visible_peer network self now src dst \<longleftrightarrow>
     nd_network_id dst = net_id network \<and>
     fst (effective_node_status dst (net_key_policy network) now) \<and>
     nd_id dst \<noteq> self \<and> acl_allows (net_acl network) src dst"

lemma collect_peers_eq:
  "collect_peers (net_id network) domain nodes (Some self) src (net_acl network) (net_key_policy network) now =
     map (\<lambda>node. peer_info_from node domain)
       (filter (visible_peer network self now src) (hm_values nodes))"
  unfolding collect_peers_def
  by (simp add: case_prod_unfold) (intro arg_cong [where f = "map _"] filter_cong, auto simp: visible_peer_def)

lemma build_netmap_Inr:
  assumes "build_netmap now gen st self relay = Inr nm"
  obtains node network where "hm_get (st_nodes st) self = Some node"
    "hm_get (st_networks st) (nd_network_id node) = Some network"
    "nm_network nm = network_info_from network"
    "nm_node nm = node_info_from_state node (net_dns_domain network)
       (fst (effective_node_status node (net_key_policy network) now))
       (snd (effective_node_status node (net_key_policy network) now))"
    "nm_peers nm = (if fst (effective_node_status node (net_key_policy network) now)
       then map (\<lambda>n. peer_info_from n (net_dns_domain network))
              (filter (visible_peer network self now node) (hm_values (st_nodes st))) else [])"
    "nm_relay nm = relay" "nm_revision nm = st_revision st" "nm_generated_at nm = gen"
    "nm_probe_requests nm = collect_probe_requests st (nm_peers nm) now"
proof -
  note * = assms [unfolded build_netmap_def]
  from * obtain node where node: "hm_get (st_nodes st) self = Some node"
    by (cases "hm_get (st_nodes st) self") simp_all
  with * obtain network where network: "hm_get (st_networks st) (nd_network_id node) = Some network"
    by (cases "hm_get (st_networks st) (nd_network_id node)") simp_all
  show ?thesis
    by (rule that [OF node network])
      (use * node network in \<open>auto simp: Let_def case_prod_unfold collect_peers_eq\<close>)
qed

lemma build_netmap_total:
  "hm_get (st_nodes st) self = Some node \<Longrightarrow>
   hm_get (st_networks st) (nd_network_id node) = Some network \<Longrightarrow>
   \<exists>nm. build_netmap now gen st self relay = Inr nm"
  by (simp add: build_netmap_def Let_def case_prod_unfold)

lemma probe_request_Some:
  assumes "probe_request st now peer = Some pr"
  shows "pr_peer_id pr = pi_id peer \<and> pr_ipv4 pr = pi_ipv4 peer \<and> pr_ipv6 pr = pi_ipv6 peer \<and>
    pr_endpoints pr = pi_endpoints peer \<and>
    (\<exists>node. hm_get (st_nodes st) (pi_id peer) = Some node \<and>
       nd_probe_requested_at node = Some (pr_requested_at pr)) \<and> now - pr_requested_at pr \<le> 30"
proof -
  have "i64_saturating_sub now t \<le> 30 \<Longrightarrow> now - t \<le> 30" for t
    by (simp add: i64_saturating_sub_def)
  with assms show ?thesis
    by (auto simp: probe_request_def PROBE_TTL_SECONDS_def split: option.splits if_splits)
qed

lemma collect_probe_requests_set:
  "pr \<in> set (collect_probe_requests st peers now) \<longleftrightarrow>
     (\<exists>peer\<in>set peers. probe_request st now peer = Some pr)"
  by (force simp: collect_probe_requests_def List.map_filter_def image_iff)

section \<open>The long poll\<close>

lemma map_sum_eq_Inr: "map_sum f g s = Inr y \<longleftrightarrow> (\<exists>x. s = Inr x \<and> g x = y)"
  by (cases s) auto

text \<open>
  Every turn sleeps at least half a second, so the turn that passes the deadline comes
  after at most two turns per second of the timeout, and the loop ends there or earlier.
\<close>

lemma longpoll_loop_first:
  assumes "longpoll_turn app h nid since dl (turns (k + n)) = Some res"
    and "\<forall>i<n. longpoll_turn app h nid since dl (turns (k + i)) = None"
  shows "longpoll_loop app h nid since dl turns k = Some res"
  using assms
proof (induction n arbitrary: k)
  case 0
  then show ?case by (subst longpoll_loop.simps) simp
next
  case (Suc n)
  have "longpoll_turn app h nid since dl (turns k) = None"
    using Suc.prems(2) by (metis add.right_neutral zero_less_Suc)
  moreover have "\<forall>i<n. longpoll_turn app h nid since dl (turns (Suc k + i)) = None"
    using Suc.prems(2) by (metis add_Suc_right add_Suc_shift Suc_less_eq)
  ultimately show ?case
    using Suc.IH [of "Suc k"] Suc.prems(1) by (subst longpoll_loop.simps) simp
qed

definition sleeps_between :: "nat \<Rightarrow> (nat \<Rightarrow> 'c poll_turn) \<Rightarrow> bool" where
  "sleeps_between start turns \<longleftrightarrow>
     start \<le> pt_instant (turns 0) \<and> (\<forall>k. pt_instant (turns k) + 500 \<le> pt_instant (turns (Suc k)))"

lemma sleeps_between_instant:
  "sleeps_between start turns \<Longrightarrow> start + 500 * k \<le> pt_instant (turns k)"
proof (induction k)
  case (Suc k)
  then have "pt_instant (turns k) + 500 \<le> pt_instant (turns (Suc k))"
    unfolding sleeps_between_def by blast
  with Suc show ?case by simp
qed (simp add: sleeps_between_def)

lemma longpoll_turn_at_deadline:
  "dl \<le> pt_instant t \<Longrightarrow> longpoll_turn app h nid since dl t \<noteq> None"
  by (auto simp: longpoll_turn_def split: sum.splits)

lemma netmap_query_revision: "netmap_query now gen app h nid st = Inr (revn, nm) \<Longrightarrow> nm_revision nm = revn"
  by (auto simp: netmap_query_def split: option.splits sum.splits elim!: build_netmap_Inr)

lemma longpoll_turn_newer:
  assumes "longpoll_turn app h nid since dl t = Some res" and "res = Inr nm"
  shows "nm_revision nm > since \<or> dl \<le> pt_instant t"
proof -
  obtain revn where "store_read (pt_io t) (netmap_query (now_unix (pt_env t) 0) (now_unix (pt_env t) 1) app h nid)
      (pt_store t) = Inr (revn, nm)" and revn: "revn > since \<or> dl \<le> pt_instant t"
    using assms by (auto simp: longpoll_turn_def split: sum.splits if_splits)
  then have "nm_revision nm = revn"
    by (cases "pt_store t")
      (auto simp: store_read_def map_sum_eq_Inr netmap_query_revision split: sum.splits)
  with revn show ?thesis by simp
qed

lemma longpoll_timeout_le: "unat (longpoll_timeout p) \<le> 300"
proof -
  have "longpoll_timeout p \<le> 300"
    by (simp add: longpoll_timeout_def)
  then show ?thesis by (simp add: word_le_nat_alt)
qed

lemma netmap_longpoll_turn:
  assumes "sleeps_between start turns"
  obtains k since deadline res where "k \<le> 2 * unat (longpoll_timeout params)"
    "since = (case lp_since params of Some s \<Rightarrow> s | None \<Rightarrow> 0)"
    "deadline = start + unat (longpoll_timeout params) * 1000"
    "longpoll_turn app h nid since deadline (turns k) = Some res"
    "\<forall>i<k. longpoll_turn app h nid since deadline (turns i) = None"
    "netmap_longpoll app h nid params start turns = Some res"
proof -
  define since where "since = (case lp_since params of Some s \<Rightarrow> s | None \<Rightarrow> 0)"
  define deadline where "deadline = start + unat (longpoll_timeout params) * 1000"
  let ?P = "\<lambda>k. longpoll_turn app h nid since deadline (turns k) \<noteq> None"
  let ?n = "2 * unat (longpoll_timeout params)"
  have n: "?P ?n"
    using sleeps_between_instant [OF assms, of ?n]
    by (intro longpoll_turn_at_deadline) (simp add: deadline_def)
  define k where "k = (LEAST k. ?P k)"
  have "?P k" and le: "k \<le> ?n"
    unfolding k_def using n by (rule LeastI, rule Least_le)
  moreover have before: "\<forall>i<k. longpoll_turn app h nid since deadline (turns i) = None"
    unfolding k_def using not_less_Least by blast
  ultimately obtain res where res: "longpoll_turn app h nid since deadline (turns k) = Some res"
    by blast
  have "netmap_longpoll app h nid params start turns = Some res"
    using longpoll_loop_first [of app h nid since deadline turns 0 k res] res before
    by (simp add: netmap_longpoll_def since_def deadline_def Let_def)
  then show ?thesis
    using that [OF le since_def deadline_def res before] by blast
qed

end
