(* ===== verification/Enrollment.thy ===== *)
theory Enrollment
  imports Addressing Netmap
begin

text \<open>
  How a node enters a network: \<open>register\<close> with an enrollment token, \<open>register_url\<close>
  with an approval link, and the two ways to approve a node. The writes are closures with
  the suffix \<open>tx\<close>.
\<close>

section \<open>Registration with a token\<close>

definition initial_key_history :: "string \<Rightarrow> string \<Rightarrow> i64 \<Rightarrow> KeyRecord list" where
  "initial_key_history machine_public_key wg_public_key now =
     [\<lparr>kr_key_type = Machine, kr_public_key = machine_public_key, kr_created_at = now, kr_revoked_at = None\<rparr>,
      \<lparr>kr_key_type = WireGuard, kr_public_key = wg_public_key, kr_created_at = now, kr_revoked_at = None\<rparr>]"

definition register_node ::
  "('n4, 'n6) externals \<Rightarrow> env \<Rightarrow> RegisterRequest \<Rightarrow> string \<Rightarrow> TokenState \<Rightarrow> NetworkState \<Rightarrow> string \<Rightarrow> string
   \<Rightarrow> NodeState"
where
  "register_node X E req node_name token network ipv4 ipv6 =
     (let now = now_unix E 0; approved = (\<not> net_requires_approval network) in
      \<lparr>nd_id = uuid_to_string X (new_uuid E 0), nd_network_id = net_id network, nd_name = node_name,
       nd_machine_public_key = rg_machine_public_key req, nd_wg_public_key = rg_wg_public_key req,
       nd_ipv4 = ipv4, nd_ipv6 = ipv6, nd_endpoints = [], nd_tags = tk_tags token,
       nd_owner_user_id = tk_owner_user_id token, nd_owner_email = tk_owner_email token,
       nd_owner_is_admin = tk_owner_is_admin token, nd_routes = [], nd_created_at = now,
       nd_last_seen = now, nd_probe_requested_at = None, nd_approved = approved,
       nd_approved_at = (if approved then Some now else None), nd_auth_secret = None,
       nd_auth_expires_at = None, nd_node_token = Some (random_secret E 0), nd_revoked_at = None,
       nd_key_history = initial_key_history (rg_machine_public_key req) (rg_wg_public_key req) now\<rparr>)"

text \<open>The end of the closure: one use of the token is spent, and a token without uses is removed.\<close>

definition spend_token :: "string \<Rightarrow> State \<Rightarrow> (ApiError + unit) \<times> State" where
  "spend_token token_id st =
     (case hm_get (st_tokens st) token_id of
        None \<Rightarrow> (Inl (Unauthorized ''token not found''), st)
      | Some token \<Rightarrow>
          (let token = token\<lparr>tk_uses_left := saturating_sub (tk_uses_left token) 1\<rparr>;
               st = put_token token_id token st
           in if tk_uses_left token = 0
              then (Inr (), st\<lparr>st_tokens := hm_remove token_id (st_tokens st)\<rparr>)
              else (Inr (), st)))"

definition register_tx ::
  "('n4, 'n6) externals \<Rightarrow> env \<Rightarrow> RegisterRequest \<Rightarrow> string \<Rightarrow> (ApiError, string) tx"
where
  "register_tx X E req node_name st =
     (case hm_get (st_tokens st) (rg_token req) of
        None \<Rightarrow> (Inl (Unauthorized ''token not found''), st)
      | Some token \<Rightarrow>
      if tk_expires_at token \<le> now_unix E 0 then (Inl (Unauthorized ''token expired''), st)
      else if tk_revoked_at token \<noteq> None then (Inl (Unauthorized ''token revoked''), st)
      else if tk_uses_left token = 0 then (Inl (Unauthorized ''token used up''), st)
      else
     (case ensure_unique_node_name st (tk_network_id token) node_name None of
        Inl e \<Rightarrow> (Inl e, st)
      | Inr _ \<Rightarrow>
     (case hm_get (st_networks st) (tk_network_id token) of
        None \<Rightarrow> (Inl (NotFound ''network''), st)
      | Some network \<Rightarrow>
     (case allocate_node_ips X network of
        (Inl e, network) \<Rightarrow> (Inl e, put_network (tk_network_id token) network st)
      | (Inr (ipv4, ipv6), network) \<Rightarrow>
          (let st = put_network (tk_network_id token) network st;
               node = register_node X E req node_name token network ipv4 ipv6;
               st = put_node (nd_id node) node st;
               st = audit X E 1 1 ''node.register'' (Some (net_id network)) (Some (nd_id node))
                 (Some (JObj [(''approved'', JBool (nd_approved node)),
                   (''owner_user_id'', json_opt JStr (nd_owner_user_id node)),
                   (''owner_email'', json_opt JStr (nd_owner_email node)),
                   (''owner_is_admin'', JBool (nd_owner_is_admin node))])) st
           in case spend_token (rg_token req) st of
                (Inl e, st) \<Rightarrow> (Inl e, st)
              | (Inr _, st) \<Rightarrow> (Inr (nd_id node), st))))))"

text \<open>
  The handler writes, then reads the netmap in a second access to the store. \<open>between\<close> is
  what other requests do to the store after the write and before the read.
\<close>

definition register ::
  "'c serde \<Rightarrow> 'c io_env \<Rightarrow> ('c StoreBackend \<Rightarrow> 'c StoreBackend) \<Rightarrow> 'c io_env \<Rightarrow> ('n4, 'n6) externals
   \<Rightarrow> env \<Rightarrow> AppState \<Rightarrow> RegisterRequest \<Rightarrow> 'c StoreBackend
   \<Rightarrow> (ApiError + RegisterResponse) \<times> 'c StoreBackend"
where
  "register S io between io' X E app req store =
     (case normalize_node_name (rg_node_name req) of
        Inl e \<Rightarrow> (Inl e, store)
      | Inr node_name \<Rightarrow>
     (case run_write S io (register_tx X E req node_name) store of
        (Inl e, store) \<Rightarrow> (Inl e, store)
      | (Inr node_id, store) \<Rightarrow>
          (let store = between store in
           (case run_read io' (\<lambda>st. build_netmap (now_unix E 2) (now_unix E 3) st node_id
                   (relay_or_none (app_relay app))) store of
              Inl e \<Rightarrow> (Inl e, store)
            | Inr nm \<Rightarrow>
                (Inr \<lparr>rgr_node_token = random_secret E 0, rgr_netmap = nm\<rparr>, store)))))"

section \<open>Registration with an approval link\<close>

definition register_url_node ::
  "('n4, 'n6) externals \<Rightarrow> env \<Rightarrow> RegisterUrlRequest \<Rightarrow> string \<Rightarrow> i64 \<Rightarrow> NetworkState \<Rightarrow> string \<Rightarrow> string
   \<Rightarrow> NodeState"
where
  "register_url_node X E req node_name expires_at network ipv4 ipv6 =
     (let now = now_unix E 0 in
      \<lparr>nd_id = uuid_to_string X (new_uuid E 0), nd_network_id = net_id network, nd_name = node_name,
       nd_machine_public_key = ru_machine_public_key req, nd_wg_public_key = ru_wg_public_key req,
       nd_ipv4 = ipv4, nd_ipv6 = ipv6, nd_endpoints = [], nd_tags = [],
       nd_owner_user_id = None, nd_owner_email = None, nd_owner_is_admin = True, nd_routes = [],
       nd_created_at = now, nd_last_seen = now, nd_probe_requested_at = None, nd_approved = False,
       nd_approved_at = None, nd_auth_secret = Some (random_secret E 1),
       nd_auth_expires_at = Some expires_at, nd_node_token = Some (random_secret E 0),
       nd_revoked_at = None,
       nd_key_history = initial_key_history (ru_machine_public_key req) (ru_wg_public_key req) now\<rparr>)"

definition register_url_tx ::
  "('n4, 'n6) externals \<Rightarrow> env \<Rightarrow> RegisterUrlRequest \<Rightarrow> string \<Rightarrow> i64 \<Rightarrow> (ApiError, NodeState \<times> string) tx"
where
  "register_url_tx X E req node_name expires_at st =
     (case ensure_unique_node_name st (ru_network_id req) node_name None of
        Inl e \<Rightarrow> (Inl e, st)
      | Inr _ \<Rightarrow>
     (case hm_get (st_networks st) (ru_network_id req) of
        None \<Rightarrow> (Inl (NotFound ''network''), st)
      | Some network \<Rightarrow>
     (case allocate_node_ips X network of
        (Inl e, network) \<Rightarrow> (Inl e, put_network (ru_network_id req) network st)
      | (Inr (ipv4, ipv6), network) \<Rightarrow>
          (let st = put_network (ru_network_id req) network st;
               node = register_url_node X E req node_name expires_at network ipv4 ipv6;
               st = put_node (nd_id node) node st;
               st = audit X E 1 1 ''node.register_url'' (Some (net_id network)) (Some (nd_id node))
                 (Some (JObj [(''expires_at'', JInt expires_at)])) st;
               auth_path = ''/v1/register/approve/'' @ nd_id node @ ''/'' @ random_secret E 1
           in (Inr (node, auth_path), st)))))"

definition register_url ::
  "'c serde \<Rightarrow> 'c io_env \<Rightarrow> ('n4, 'n6) externals \<Rightarrow> env \<Rightarrow> RegisterUrlRequest
   \<Rightarrow> 'c StoreBackend \<Rightarrow> (ApiError + RegisterUrlResponse) \<times> 'c StoreBackend"
where
  "register_url S io X E req store =
     (let ttl_seconds = (case ru_ttl_seconds req of Some t \<Rightarrow> t | None \<Rightarrow> 600) in
      if ttl_seconds = 0 then (Inl (BadRequest ''ttl_seconds must be > 0''), store)
      else
        let expires_at = i64_add (now_unix E 0) (as_i64 ttl_seconds) in
        (case normalize_node_name (ru_node_name req) of
           Inl e \<Rightarrow> (Inl e, store)
         | Inr node_name \<Rightarrow>
        (case run_write S io (register_url_tx X E req node_name expires_at) store of
           (Inl e, store) \<Rightarrow> (Inl e, store)
         | (Inr (node, auth_path), store) \<Rightarrow>
             (Inr \<lparr>rur_node_id = nd_id node, rur_network_id = nd_network_id node,
                   rur_ipv4 = nd_ipv4 node, rur_ipv6 = nd_ipv6 node, rur_auth_path = auth_path,
                   rur_expires_at = expires_at, rur_node_token = random_secret E 0\<rparr>, store))))"

section \<open>Approval\<close>

definition mark_approved :: "i64 \<Rightarrow> NodeState \<Rightarrow> NodeState" where
  "mark_approved now node =
     node\<lparr>nd_approved := True, nd_approved_at := Some now, nd_auth_secret := None,
          nd_auth_expires_at := None\<rparr>"

definition approve_audit ::
  "('n4, 'n6) externals \<Rightarrow> env \<Rightarrow> string \<Rightarrow> NodeState \<Rightarrow> State \<Rightarrow> State"
where
  "approve_audit X E via node st =
     audit X E 0 1 ''node.approve'' (Some (nd_network_id node)) (Some (nd_id node))
       (Some (JObj [(''approved_at'', json_opt JInt (nd_approved_at node)), (''via'', JStr via)])) st"

definition approve_node_secret_tx ::
  "('n4, 'n6) externals \<Rightarrow> env \<Rightarrow> string \<Rightarrow> string \<Rightarrow> (ApiError, NodeState) tx"
where
  "approve_node_secret_tx X E node_id secret st =
     (case hm_get (st_nodes st) node_id of
        None \<Rightarrow> (Inl (NotFound ''node''), st)
      | Some node \<Rightarrow>
      if nd_approved node then (Inr node, st)
      else
     (case nd_auth_secret node of
        None \<Rightarrow> (Inl (Unauthorized ''approval not allowed''), st)
      | Some auth_secret \<Rightarrow>
          if auth_secret \<noteq> secret then (Inl (Unauthorized ''invalid approval secret''), st)
          else if (case nd_auth_expires_at node of Some t \<Rightarrow> t \<le> now_unix E 0 | None \<Rightarrow> False)
          then (Inl (Unauthorized ''approval expired''), st)
          else
            let node = mark_approved (now_unix E 0) node;
                st = put_node node_id node st;
                st = approve_audit X E ''auth_url'' node st
            in (Inr node, st)))"

definition approve_response :: "NodeState \<Rightarrow> json" where
  "approve_response node =
     JObj [(''node_id'', JStr (nd_id node)), (''approved'', JBool (nd_approved node)),
       (''approved_at'', json_opt JInt (nd_approved_at node))]"

definition approve_node_secret ::
  "'c serde \<Rightarrow> 'c io_env \<Rightarrow> ('n4, 'n6) externals \<Rightarrow> env \<Rightarrow> string \<Rightarrow> string
   \<Rightarrow> 'c StoreBackend \<Rightarrow> (ApiError + json) \<times> 'c StoreBackend"
where
  "approve_node_secret S io X E node_id secret store =
     apfst (map_sum id approve_response)
       (run_write S io (approve_node_secret_tx X E node_id secret) store)"

definition approve_node_tx ::
  "('n4, 'n6) externals \<Rightarrow> env \<Rightarrow> string \<Rightarrow> (ApiError, NodeState) tx"
where
  "approve_node_tx X E node_id st =
     (case hm_get (st_nodes st) node_id of
        None \<Rightarrow> (Inl (NotFound ''node''), st)
      | Some node \<Rightarrow>
          if nd_approved node then (Inr node, st)
          else
            let node = mark_approved (now_unix E 0) node;
                st = put_node node_id node st;
                st = approve_audit X E ''admin'' node st
            in (Inr node, st))"

definition approve_node ::
  "'c serde \<Rightarrow> 'c io_env \<Rightarrow> ('n4, 'n6) externals \<Rightarrow> env \<Rightarrow> AppState \<Rightarrow> headers \<Rightarrow> string
   \<Rightarrow> 'c StoreBackend \<Rightarrow> (ApiError + json) \<times> 'c StoreBackend"
where
  "approve_node S io X E app headers node_id store =
     (case require_admin headers (app_admin_token app) of
        Inl e \<Rightarrow> (Inl e, store)
      | Inr _ \<Rightarrow>
          apfst (map_sum id approve_response) (run_write S io (approve_node_tx X E node_id) store))"

lemmas enrollment_tx_defs [op_defs] = register_tx_def register_url_tx_def approve_node_secret_tx_def
  approve_node_tx_def

section \<open>What a registration does\<close>

lemma register_node_simps [simp]:
  "nd_id (register_node X E req name t net i4 i6) = uuid_to_string X (new_uuid E 0)"
  "nd_network_id (register_node X E req name t net i4 i6) = net_id net"
  "nd_name (register_node X E req name t net i4 i6) = name"
  "nd_ipv4 (register_node X E req name t net i4 i6) = i4"
  "nd_ipv6 (register_node X E req name t net i4 i6) = i6"
  "nd_approved (register_node X E req name t net i4 i6) = (\<not> net_requires_approval net)"
  "nd_auth_secret (register_node X E req name t net i4 i6) = None"
  "nd_node_token (register_node X E req name t net i4 i6) = Some (random_secret E 0)"
  "nd_revoked_at (register_node X E req name t net i4 i6) = None"
  "nd_tags (register_node X E req name t net i4 i6) = tk_tags t"
  by (simp_all add: register_node_def Let_def)

lemma register_url_node_simps [simp]:
  "nd_id (register_url_node X E req name ex net i4 i6) = uuid_to_string X (new_uuid E 0)"
  "nd_network_id (register_url_node X E req name ex net i4 i6) = net_id net"
  "nd_name (register_url_node X E req name ex net i4 i6) = name"
  "nd_ipv4 (register_url_node X E req name ex net i4 i6) = i4"
  "nd_ipv6 (register_url_node X E req name ex net i4 i6) = i6"
  "nd_approved (register_url_node X E req name ex net i4 i6) = False"
  "nd_auth_secret (register_url_node X E req name ex net i4 i6) = Some (random_secret E 1)"
  "nd_auth_expires_at (register_url_node X E req name ex net i4 i6) = Some ex"
  "nd_node_token (register_url_node X E req name ex net i4 i6) = Some (random_secret E 0)"
  "nd_revoked_at (register_url_node X E req name ex net i4 i6) = None"
  by (simp_all add: register_url_node_def Let_def)

lemma mark_approved_simps [simp]:
  "nd_id (mark_approved now n) = nd_id n" "nd_network_id (mark_approved now n) = nd_network_id n"
  "nd_name (mark_approved now n) = nd_name n" "nd_ipv4 (mark_approved now n) = nd_ipv4 n"
  "nd_ipv6 (mark_approved now n) = nd_ipv6 n" "nd_approved (mark_approved now n)"
  "nd_auth_secret (mark_approved now n) = None" "nd_revoked_at (mark_approved now n) = nd_revoked_at n"
  "nd_node_token (mark_approved now n) = nd_node_token n"
  by (simp_all add: mark_approved_def)

lemma approve_audit_simps [simp]:
  "st_networks (approve_audit X E v n st) = st_networks st"
  "st_nodes (approve_audit X E v n st) = st_nodes st"
  "st_tokens (approve_audit X E v n st) = st_tokens st"
  "st_revision (approve_audit X E v n st) = st_revision st"
  by (simp_all add: approve_audit_def)

section \<open>Registration, success and failure\<close>

lemma register_tx_needs:
  assumes "register_tx X E req name st = (Inr node_id, st')"
  shows "\<exists>tok net a4 a6 net'. hm_get (st_tokens st) (rg_token req) = Some tok \<and>
    now_unix E 0 < tk_expires_at tok \<and> tk_revoked_at tok = None \<and> tk_uses_left tok \<noteq> 0 \<and>
    ensure_unique_node_name st (tk_network_id tok) name None = Inr () \<and>
    hm_get (st_networks st) (tk_network_id tok) = Some net \<and>
    allocate_node_ips X net = (Inr (a4, a6), net')"
proof -
  obtain tok where tok: "hm_get (st_tokens st) (rg_token req) = Some tok"
    using assms by (cases "hm_get (st_tokens st) (rg_token req)") (simp_all add: register_tx_def)
  have live: "now_unix E 0 < tk_expires_at tok" "tk_revoked_at tok = None" "tk_uses_left tok \<noteq> 0"
    using assms tok by (auto simp: register_tx_def split: if_splits)
  with assms tok have uniq: "ensure_unique_node_name st (tk_network_id tok) name None = Inr ()"
    by (cases "ensure_unique_node_name st (tk_network_id tok) name None") (simp_all add: register_tx_def)
  obtain net where net: "hm_get (st_networks st) (tk_network_id tok) = Some net"
    using assms tok live uniq
    by (cases "hm_get (st_networks st) (tk_network_id tok)") (simp_all add: register_tx_def)
  obtain r net' where alloc: "allocate_node_ips X net = (r, net')" by fastforce
  with assms tok live uniq net obtain a4 a6 where "r = Inr (a4, a6)"
    by (cases r) (auto simp: register_tx_def)
  then show ?thesis
    using tok live uniq net alloc by blast
qed

lemma register_tx_ok:
  assumes tok: "hm_get (st_tokens st) (rg_token req) = Some tok"
    and live: "now_unix E 0 < tk_expires_at tok" "tk_revoked_at tok = None" "tk_uses_left tok \<noteq> 0"
    and uniq: "ensure_unique_node_name st (tk_network_id tok) name None = Inr ()"
    and net: "hm_get (st_networks st) (tk_network_id tok) = Some net"
    and alloc: "allocate_node_ips X net = (Inr (a4, a6), net')"
  shows "\<exists>st' node. register_tx X E req name st = (Inr (nd_id node), st') \<and>
    st_nodes st' = hm_insert (nd_id node) node (st_nodes st) \<and>
    nd_id node = uuid_to_string X (new_uuid E 0) \<and> nd_network_id node = net_id net' \<and>
    nd_name node = name \<and> nd_ipv4 node = a4 \<and> nd_ipv6 node = a6 \<and> nd_tags node = tk_tags tok \<and>
    nd_approved node = (\<not> net_requires_approval net') \<and>
    nd_node_token node = Some (random_secret E 0) \<and>
    st_networks st' = hm_insert (tk_network_id tok) net' (st_networks st) \<and>
    hm_get (st_tokens st') = (hm_get (st_tokens st))(rg_token req :=
      (if tk_uses_left tok = 1 then None
       else Some (tok\<lparr>tk_uses_left := tk_uses_left tok - 1\<rparr>))) \<and>
    node = register_node X E req name tok net' a4 a6"
proof -
  define node where "node = register_node X E req name tok net' a4 a6"
  have one: "1 \<le> tk_uses_left tok"
    using live(3) by (simp add: word_le_nat_alt Suc_le_eq unat_gt_0)
  then have zero: "saturating_sub (tk_uses_left tok) 1 = 0 \<longleftrightarrow> tk_uses_left tok = 1"
    by (auto simp: saturating_sub_def)
  define st1 where "st1 = audit X E 1 1 ''node.register'' (Some (net_id net')) (Some (nd_id node))
    (Some (JObj [(''approved'', JBool (nd_approved node)),
      (''owner_user_id'', json_opt JStr (nd_owner_user_id node)),
      (''owner_email'', json_opt JStr (nd_owner_email node)),
      (''owner_is_admin'', JBool (nd_owner_is_admin node))]))
    (put_node (nd_id node) node (put_network (tk_network_id tok) net' st))"
  have st1: "register_tx X E req name st =
      (case spend_token (rg_token req) st1 of (Inl e, st) \<Rightarrow> (Inl e, st) | (Inr _, st) \<Rightarrow> (Inr (nd_id node), st))"
    "st_nodes st1 = hm_insert (nd_id node) node (st_nodes st)"
    "st_networks st1 = hm_insert (tk_network_id tok) net' (st_networks st)" "st_tokens st1 = st_tokens st"
    unfolding st1_def node_def using tok live uniq net alloc by (simp_all add: register_tx_def Let_def)
  define st' where "st' = snd (spend_token (rg_token req) st1)"
  have "spend_token (rg_token req) st1 = (Inr (), st')"
    "st_nodes st' = st_nodes st1" "st_networks st' = st_networks st1"
    "hm_get (st_tokens st') = (hm_get (st_tokens st))(rg_token req :=
      (if tk_uses_left tok = 1 then None else Some (tok\<lparr>tk_uses_left := tk_uses_left tok - 1\<rparr>)))"
    using tok st1(4) zero one
    by (auto simp: st'_def spend_token_def Let_def hm_simps saturating_sub_def)
  then show ?thesis
    using st1 by (intro exI [of _ st'] exI [of _ node]) (simp add: node_def)
qed

text \<open>A registration that fails has changed nothing but, possibly, a counter of the network.\<close>

lemma register_tx_failed_cases:
  assumes "register_tx X E req name st = (Inl e, st')"
  shows "st' = st \<or>
    (\<exists>n net net'. hm_get (st_networks st) n = Some net \<and> allocate_node_ips X net = (Inl e, net') \<and>
       st' = put_network n net' st)"
proof (rule ccontr)
  assume *: "\<not> ?thesis"
  have no: "register_tx X E req name st \<noteq> (Inl e, st)"
    using assms * by auto
  obtain tok where tok: "hm_get (st_tokens st) (rg_token req) = Some tok"
    using assms no by (cases "hm_get (st_tokens st) (rg_token req)") (auto simp: register_tx_def)
  have live: "now_unix E 0 < tk_expires_at tok" "tk_revoked_at tok = None" "tk_uses_left tok \<noteq> 0"
    using assms no tok by (auto simp: register_tx_def split: if_splits)
  have uniq: "ensure_unique_node_name st (tk_network_id tok) name None = Inr ()"
    using assms no tok live
    by (cases "ensure_unique_node_name st (tk_network_id tok) name None") (auto simp: register_tx_def)
  obtain net where net: "hm_get (st_networks st) (tk_network_id tok) = Some net"
    using assms no tok live uniq
    by (cases "hm_get (st_networks st) (tk_network_id tok)") (auto simp: register_tx_def)
  obtain r net' where alloc: "allocate_node_ips X net = (r, net')" by fastforce
  obtain a4 a6 where "r = Inr (a4, a6)"
    using assms * tok live uniq net alloc by (cases r) (auto simp: register_tx_def)
  then show False
    using register_tx_ok [OF tok live uniq net, of X a4 a6 net'] alloc assms by simp
qed

lemma register_tx_failed:
  assumes "register_tx X E req name st = (Inl e, st')"
  shows "st_tokens st' = st_tokens st \<and> st_nodes st' = st_nodes st \<and> st_audit_log st' = st_audit_log st"
  using register_tx_failed_cases [OF assms] by auto

end
