(* ===== verification/Nodes.thy ===== *)
theory Nodes
  imports Netmap
begin

text \<open>
  The handlers of \<open>api.rs\<close> on nodes already in a network: listing and updating them by
  an administrator, rotating and revoking keys, deleting a node, and the heartbeat.
\<close>

section \<open>Listing and updating\<close>

definition admin_nodes_query :: "i64 \<Rightarrow> string \<Rightarrow> State \<Rightarrow> ApiError + NodeInfo list" where
  "admin_nodes_query now network_id st =
     (case hm_get (st_networks st) network_id of
        None \<Rightarrow> Inl (NotFound ''network'')
      | Some network \<Rightarrow>
          Inr (map (\<lambda>node.
                 let (approved, key_rotation_required) =
                   effective_node_status node (net_key_policy network) now
                 in node_info_from_state node (net_dns_domain network) approved key_rotation_required)
               (filter (\<lambda>node. nd_network_id node = network_id) (hm_values (st_nodes st)))))"

definition admin_nodes ::
  "'c io_env \<Rightarrow> env \<Rightarrow> AppState \<Rightarrow> headers \<Rightarrow> string \<Rightarrow> 'c StoreBackend \<Rightarrow> ApiError + NodeInfo list"
where
  "admin_nodes io E app headers network_id store =
     (case require_admin headers (app_admin_token app) of
        Inl e \<Rightarrow> Inl e
      | Inr _ \<Rightarrow> run_read io (admin_nodes_query (now_unix E 0) network_id) store)"

text \<open>The new name, when the request has one that differs; the error of its checks.\<close>

definition next_name :: "State \<Rightarrow> NodeState \<Rightarrow> UpdateNodeRequest \<Rightarrow> ApiError + string option" where
  "next_name st existing req =
     (case un_name req of
        None \<Rightarrow> Inr None
      | Some name \<Rightarrow>
          (case normalize_node_name name of
             Inl e \<Rightarrow> Inl e
           | Inr normalized \<Rightarrow>
               if normalized \<noteq> nd_name existing
               then (case ensure_unique_node_name st (nd_network_id existing) normalized
                            (Some (nd_id existing)) of
                       Inl e \<Rightarrow> Inl e
                     | Inr _ \<Rightarrow> Inr (Some normalized))
               else Inr None))"

text \<open>The tags trimmed, without empty and repeated ones, when they differ.\<close>

definition next_tags :: "NodeState \<Rightarrow> UpdateNodeRequest \<Rightarrow> string list option" where
  "next_tags existing req =
     (case un_tags req of
        None \<Rightarrow> None
      | Some tags \<Rightarrow>
          (let unique = retain_fresh {} (filter (\<lambda>tag. tag \<noteq> []) (map trim tags))
           in if unique \<noteq> nd_tags existing then Some unique else None))"

definition update_node_tx ::
  "('n4, 'n6) externals \<Rightarrow> env \<Rightarrow> string \<Rightarrow> UpdateNodeRequest \<Rightarrow> (ApiError, NodeInfo) tx"
where
  "update_node_tx X E node_id req st =
     (case hm_get (st_nodes st) node_id of
        None \<Rightarrow> (Inl (NotFound ''node''), st)
      | Some existing \<Rightarrow>
     (case next_name st existing req of
        Inl e \<Rightarrow> (Inl e, st)
      | Inr name \<Rightarrow>
          (let tags = next_tags existing req;
               detail = (case name of Some n \<Rightarrow> [(''name'', JStr n)] | None \<Rightarrow> []) @
                        (case tags of Some ts \<Rightarrow> [(''tags'', JArr (map JStr ts))] | None \<Rightarrow> []);
               node = (case name of Some n \<Rightarrow> existing\<lparr>nd_name := n\<rparr> | None \<Rightarrow> existing);
               node = (case tags of Some ts \<Rightarrow> node\<lparr>nd_tags := ts\<rparr> | None \<Rightarrow> node);
               st = put_node node_id node st
           in case hm_get (st_networks st) (nd_network_id node) of
                None \<Rightarrow> (Inl (NotFound ''network''), st)
              | Some network \<Rightarrow>
                  (let (approved, key_rotation_required) =
                         effective_node_status node (net_key_policy network) (now_unix E 0);
                       st = (if detail \<noteq> []
                         then audit X E 0 1 ''node.update'' (Some (net_id network)) (Some (nd_id node))
                                (Some (JObj detail)) st
                         else st)
                   in (Inr (node_info_from_state node (net_dns_domain network) approved
                              key_rotation_required), st)))))"

definition update_node ::
  "'c serde \<Rightarrow> 'c io_env \<Rightarrow> ('n4, 'n6) externals \<Rightarrow> env \<Rightarrow> AppState \<Rightarrow> headers \<Rightarrow> string
   \<Rightarrow> UpdateNodeRequest \<Rightarrow> 'c StoreBackend \<Rightarrow> (ApiError + NodeInfo) \<times> 'c StoreBackend"
where
  "update_node S io X E app headers node_id req store =
     (case require_admin headers (app_admin_token app) of
        Inl e \<Rightarrow> (Inl e, store)
      | Inr _ \<Rightarrow>
          if un_name req = None \<and> un_tags req = None
          then (Inl (BadRequest ''no fields to update''), store)
          else run_write S io (update_node_tx X E node_id req) store)"

section \<open>Keys\<close>

text \<open>
  One of the two key updates of \<open>rotate_keys\<close>: the record of the key in use is revoked,
  the new key and its record are stored.
\<close>

definition rotate_machine_key :: "i64 \<Rightarrow> string \<Rightarrow> NodeState \<Rightarrow> NodeState" where
  "rotate_machine_key now new_machine node =
     node\<lparr>nd_key_history :=
            revoke_key_record (nd_key_history node) Machine (nd_machine_public_key node) now
            @ [\<lparr>kr_key_type = Machine, kr_public_key = new_machine, kr_created_at = now,
                kr_revoked_at = None\<rparr>],
          nd_machine_public_key := new_machine\<rparr>"

definition rotate_wg_key :: "i64 \<Rightarrow> string \<Rightarrow> NodeState \<Rightarrow> NodeState" where
  "rotate_wg_key now new_wg node =
     node\<lparr>nd_key_history :=
            revoke_key_record (nd_key_history node) WireGuard (nd_wg_public_key node) now
            @ [\<lparr>kr_key_type = WireGuard, kr_public_key = new_wg, kr_created_at = now,
                kr_revoked_at = None\<rparr>],
          nd_wg_public_key := new_wg\<rparr>"

text \<open>
  The closure mutates the node in place: when the second key is refused, the first one
  has already been replaced in the state it was lent.
\<close>

definition rotate_keys_tx ::
  "('n4, 'n6) externals \<Rightarrow> env \<Rightarrow> string option \<Rightarrow> headers \<Rightarrow> string \<Rightarrow> KeyRotationRequest
   \<Rightarrow> (ApiError, NodeState) tx"
where
  "rotate_keys_tx X E admin_token headers node_id req st =
     (case hm_get (st_nodes st) node_id of
        None \<Rightarrow> (Inl (NotFound ''node''), st)
      | Some node \<Rightarrow>
     (case require_node headers admin_token node of
        Inl e \<Rightarrow> (Inl e, st)
      | Inr _ \<Rightarrow>
          if kq_machine_public_key req = Some (nd_machine_public_key node)
          then (Inl (BadRequest ''machine_public_key unchanged''), st)
          else
            let now = now_unix E 0;
                node = (case kq_machine_public_key req of
                          Some new_machine \<Rightarrow> rotate_machine_key now new_machine node
                        | None \<Rightarrow> node)
            in if kq_wg_public_key req = Some (nd_wg_public_key node)
               then (Inl (BadRequest ''wg_public_key unchanged''), put_node node_id node st)
               else
                 let node = (case kq_wg_public_key req of
                               Some new_wg \<Rightarrow> rotate_wg_key now new_wg node
                             | None \<Rightarrow> node);
                     rotated = (case kq_machine_public_key req of
                                  Some k \<Rightarrow> [(''machine'', JStr k)] | None \<Rightarrow> []) @
                               (case kq_wg_public_key req of
                                  Some k \<Rightarrow> [(''wireguard'', JStr k)] | None \<Rightarrow> []);
                     node = node\<lparr>nd_revoked_at := None\<rparr>;
                     st = put_node node_id node st;
                     st = audit X E 0 1 ''keys.rotate'' (Some (nd_network_id node)) (Some (nd_id node))
                       (Some (JObj rotated)) st
                 in (Inr node, st)))"

definition rotate_keys ::
  "'c serde \<Rightarrow> 'c io_env \<Rightarrow> ('n4, 'n6) externals \<Rightarrow> env \<Rightarrow> AppState \<Rightarrow> headers \<Rightarrow> string
   \<Rightarrow> KeyRotationRequest \<Rightarrow> 'c StoreBackend \<Rightarrow> (ApiError + KeyRotationResponse) \<times> 'c StoreBackend"
where
  "rotate_keys S io X E app headers node_id req store =
     (if kq_machine_public_key req = None \<and> kq_wg_public_key req = None
      then (Inl (BadRequest ''no keys provided''), store)
      else
        apfst (map_sum id (\<lambda>node. \<lparr>krr_node_id = nd_id node,
            krr_machine_public_key = nd_machine_public_key node,
            krr_wg_public_key = nd_wg_public_key node\<rparr>))
          (run_write S io (rotate_keys_tx X E (app_admin_token app) headers node_id req) store))"

definition revoke_node_keys :: "i64 \<Rightarrow> NodeState \<Rightarrow> NodeState" where
  "revoke_node_keys now node =
     node\<lparr>nd_revoked_at := Some now,
          nd_key_history :=
            revoke_key_record
              (revoke_key_record (nd_key_history node) Machine (nd_machine_public_key node) now)
              WireGuard (nd_wg_public_key node) now\<rparr>"

definition revoke_node_tx ::
  "('n4, 'n6) externals \<Rightarrow> env \<Rightarrow> string \<Rightarrow> (ApiError, NodeState) tx"
where
  "revoke_node_tx X E node_id st =
     (case hm_get (st_nodes st) node_id of
        None \<Rightarrow> (Inl (NotFound ''node''), st)
      | Some node \<Rightarrow>
          (let node = revoke_node_keys (now_unix E 0) node;
               st = put_node node_id node st;
               st = audit X E 0 1 ''keys.revoke'' (Some (nd_network_id node)) (Some (nd_id node))
                 (Some (JObj [(''revoked_at'', json_opt JInt (nd_revoked_at node))])) st
           in (Inr node, st)))"

definition revoke_node ::
  "'c serde \<Rightarrow> 'c io_env \<Rightarrow> ('n4, 'n6) externals \<Rightarrow> env \<Rightarrow> AppState \<Rightarrow> headers \<Rightarrow> string
   \<Rightarrow> 'c StoreBackend \<Rightarrow> (ApiError + json) \<times> 'c StoreBackend"
where
  "revoke_node S io X E app headers node_id store =
     (case require_admin headers (app_admin_token app) of
        Inl e \<Rightarrow> (Inl e, store)
      | Inr _ \<Rightarrow>
          apfst (map_sum id (\<lambda>node. JObj [(''node_id'', JStr (nd_id node)),
              (''revoked_at'', json_opt JInt (nd_revoked_at node))]))
            (run_write S io (revoke_node_tx X E node_id) store))"

definition node_keys ::
  "'c io_env \<Rightarrow> AppState \<Rightarrow> headers \<Rightarrow> string \<Rightarrow> 'c StoreBackend \<Rightarrow> ApiError + KeyHistoryResponse"
where
  "node_keys io app headers node_id store =
     map_sum id (\<lambda>history. \<lparr>kh_node_id = node_id, kh_keys = history\<rparr>)
       (run_read io (\<lambda>st. case hm_get (st_nodes st) node_id of
            None \<Rightarrow> Inl (NotFound ''node'')
          | Some node \<Rightarrow>
              (case require_node headers (app_admin_token app) node of
                 Inl e \<Rightarrow> Inl e
               | Inr _ \<Rightarrow> Inr (nd_key_history node))) store)"

section \<open>Deletion and heartbeat\<close>

definition delete_node_tx ::
  "('n4, 'n6) externals \<Rightarrow> env \<Rightarrow> string \<Rightarrow> (ApiError, string) tx"
where
  "delete_node_tx X E node_id st =
     (case hm_get (st_nodes st) node_id of
        None \<Rightarrow> (Inl (NotFound ''node''), st)
      | Some node \<Rightarrow>
          (let st = st\<lparr>st_nodes := hm_remove node_id (st_nodes st)\<rparr>;
               st = audit X E 0 0 ''node.delete'' (Some (nd_network_id node)) (Some (nd_id node))
                 (Some (JObj [(''name'', JStr (nd_name node)), (''ipv4'', JStr (nd_ipv4 node)),
                   (''ipv6'', JStr (nd_ipv6 node))])) st
           in (Inr (nd_id node), st)))"

definition delete_node ::
  "'c serde \<Rightarrow> 'c io_env \<Rightarrow> ('n4, 'n6) externals \<Rightarrow> env \<Rightarrow> AppState \<Rightarrow> headers \<Rightarrow> string
   \<Rightarrow> 'c StoreBackend \<Rightarrow> (ApiError + string) \<times> 'c StoreBackend"
where
  "delete_node S io X E app headers node_id store =
     (case require_admin headers (app_admin_token app) of
        Inl e \<Rightarrow> (Inl e, store)
      | Inr _ \<Rightarrow> run_write S io (delete_node_tx X E node_id) store)"

definition heartbeat_tx ::
  "env \<Rightarrow> string option \<Rightarrow> headers \<Rightarrow> HeartbeatRequest \<Rightarrow> string list \<Rightarrow> (ApiError, unit) tx"
where
  "heartbeat_tx E admin_token headers req endpoints st =
     (case hm_get (st_nodes st) (hb_node_id req) of
        None \<Rightarrow> (Inl (NotFound ''node''), st)
      | Some node \<Rightarrow>
     (case require_node headers admin_token node of
        Inl e \<Rightarrow> (Inl e, st)
      | Inr _ \<Rightarrow>
          (let now = now_unix E 0;
               node = node\<lparr>nd_endpoints := endpoints, nd_routes := hb_routes req, nd_last_seen := now\<rparr>;
               node = (if (case hb_probe req of Some b \<Rightarrow> b | None \<Rightarrow> False)
                       then node\<lparr>nd_probe_requested_at := Some now\<rparr> else node)
           in (Inr (), put_node (hb_node_id req) node st))))"

text \<open>As in \<open>register\<close>, other requests may reach the store between the write and the read.\<close>

definition heartbeat ::
  "'c serde \<Rightarrow> 'c io_env \<Rightarrow> ('c StoreBackend \<Rightarrow> 'c StoreBackend) \<Rightarrow> 'c io_env \<Rightarrow> env \<Rightarrow> AppState \<Rightarrow> headers
   \<Rightarrow> IpAddr \<Rightarrow> HeartbeatRequest \<Rightarrow> 'c StoreBackend \<Rightarrow> (ApiError + NetMap) \<times> 'c StoreBackend"
where
  "heartbeat S io between io' E app headers remote_ip req store =
     (let observed_endpoint = map_option (show_socket_addr remote_ip) (hb_listen_port req);
          endpoints = merge_endpoints (hb_endpoints req) observed_endpoint
      in case run_write S io (heartbeat_tx E (app_admin_token app) headers req endpoints) store of
           (Inl e, store) \<Rightarrow> (Inl e, store)
         | (Inr _, store) \<Rightarrow>
             (let store = between store in
              (run_read io' (\<lambda>st. build_netmap (now_unix E 1) (now_unix E 2) st (hb_node_id req)
                 (relay_or_none (app_relay app))) store, store)))"

lemmas node_tx_defs [op_defs] = update_node_tx_def rotate_keys_tx_def revoke_node_tx_def
  delete_node_tx_def heartbeat_tx_def

section \<open>Fields the key updates leave alone\<close>

lemma rotate_key_simps [simp]:
  "nd_id (rotate_machine_key now k n) = nd_id n" "nd_id (rotate_wg_key now k n) = nd_id n"
  "nd_network_id (rotate_machine_key now k n) = nd_network_id n"
  "nd_network_id (rotate_wg_key now k n) = nd_network_id n"
  "nd_name (rotate_machine_key now k n) = nd_name n" "nd_name (rotate_wg_key now k n) = nd_name n"
  "nd_ipv4 (rotate_machine_key now k n) = nd_ipv4 n" "nd_ipv4 (rotate_wg_key now k n) = nd_ipv4 n"
  "nd_ipv6 (rotate_machine_key now k n) = nd_ipv6 n" "nd_ipv6 (rotate_wg_key now k n) = nd_ipv6 n"
  "nd_approved (rotate_machine_key now k n) = nd_approved n"
  "nd_approved (rotate_wg_key now k n) = nd_approved n"
  "nd_auth_secret (rotate_machine_key now k n) = nd_auth_secret n"
  "nd_auth_secret (rotate_wg_key now k n) = nd_auth_secret n"
  "nd_revoked_at (rotate_machine_key now k n) = nd_revoked_at n"
  "nd_revoked_at (rotate_wg_key now k n) = nd_revoked_at n"
  "nd_machine_public_key (rotate_machine_key now k n) = k"
  "nd_machine_public_key (rotate_wg_key now k n) = nd_machine_public_key n"
  "nd_wg_public_key (rotate_machine_key now k n) = nd_wg_public_key n"
  "nd_wg_public_key (rotate_wg_key now k n) = k"
  by (simp_all add: rotate_machine_key_def rotate_wg_key_def)

lemma revoke_node_keys_simps [simp]:
  "nd_id (revoke_node_keys now n) = nd_id n"
  "nd_network_id (revoke_node_keys now n) = nd_network_id n"
  "nd_name (revoke_node_keys now n) = nd_name n" "nd_ipv4 (revoke_node_keys now n) = nd_ipv4 n"
  "nd_ipv6 (revoke_node_keys now n) = nd_ipv6 n"
  "nd_approved (revoke_node_keys now n) = nd_approved n"
  "nd_auth_secret (revoke_node_keys now n) = nd_auth_secret n"
  "nd_revoked_at (revoke_node_keys now n) = Some now"
  "nd_machine_public_key (revoke_node_keys now n) = nd_machine_public_key n"
  "nd_wg_public_key (revoke_node_keys now n) = nd_wg_public_key n"
  by (simp_all add: revoke_node_keys_def)

section \<open>Key rotation and the history\<close>

lemma revoke_key_record_keys:
  "r \<in> set (revoke_key_record h kt pk now) \<Longrightarrow> \<exists>r0\<in>set h. kr_public_key r = kr_public_key r0"
  unfolding revoke_key_record_def set_map by (elim imageE) (auto split: if_splits)

lemma revoke_node_keys_revoked:
  assumes "r \<in> set (nd_key_history (revoke_node_keys now n))"
    and "kr_public_key r = node_key n (kr_key_type r)"
  shows "kr_revoked_at r = Some now"
proof -
  let ?h1 = "revoke_key_record (nd_key_history n) Machine (nd_machine_public_key n) now"
  have r: "r \<in> set (revoke_key_record ?h1 WireGuard (nd_wg_public_key n) now)"
    using assms(1) by (simp add: revoke_node_keys_def)
  show ?thesis
  proof (cases "kr_key_type r")
    case Machine
    then have "r \<in> set ?h1"
      using r revoke_key_record_others [of r WireGuard "nd_wg_public_key n" ?h1 now] by simp
    with Machine assms(2) show ?thesis
      by (intro revoke_key_record_revokes [of r _ Machine]) (auto simp: node_key_def)
  next
    case WireGuard
    with r assms(2) show ?thesis
      by (intro revoke_key_record_revokes [of r _ WireGuard]) (auto simp: node_key_def)
  qed
qed

lemma revoke_node_keys_not_current:
  "current_key_created_at (revoke_node_keys now n) kt = None"
proof -
  have "node_key (revoke_node_keys now n) kt = node_key n kt"
    by (simp add: node_key_def split: KeyType.split)
  then show ?thesis
    unfolding current_key_created_at_None_iff record_is_current_iff
    using revoke_node_keys_revoked by fastforce
qed

text \<open>Rotating both keys revokes what a revocation revokes, and appends the two new records.\<close>

lemma rotate_both_history:
  "nd_key_history (rotate_wg_key now w (rotate_machine_key now m n)) =
     nd_key_history (revoke_node_keys now n) @
       [\<lparr>kr_key_type = Machine, kr_public_key = m, kr_created_at = now, kr_revoked_at = None\<rparr>,
        \<lparr>kr_key_type = WireGuard, kr_public_key = w, kr_created_at = now, kr_revoked_at = None\<rparr>]"
  by (simp add: rotate_wg_key_def rotate_machine_key_def revoke_node_keys_def revoke_key_record_def)

lemma revoke_node_keys_history_keys:
  "r \<in> set (nd_key_history (revoke_node_keys now n)) \<Longrightarrow>
     \<exists>r0\<in>set (nd_key_history n). kr_public_key r = kr_public_key r0"
  unfolding revoke_node_keys_def by (auto dest!: revoke_key_record_keys)

lemma find_append_fresh: "\<forall>x\<in>set xs. \<not> P x \<Longrightarrow> find P (xs @ ys) = find P ys"
  by (induction xs) auto

end
