(* ===== verification/Invariants.thy ===== *)
theory Invariants
  imports Networks Enrollment Nodes
begin

text \<open>
  The well-formedness of the server's state, and that every closure a handler passes to
  the store keeps it, whether it succeeds or fails: the maps are keyed by identifier,
  nodes and tokens belong to existing networks, the overlays of different networks are
  disjoint, and no two nodes share an overlay address.
\<close>

section \<open>Well-formed states\<close>

definition wf_network :: "('n4, 'n6) externals \<Rightarrow> string \<Rightarrow> NetworkState \<Rightarrow> bool" where
  "wf_network X k net \<longleftrightarrow>
     net_id net = k \<and>
     (case (v4_parse X (net_overlay_v4 net), v6_parse X (net_overlay_v6 net)) of
        (Some n4, Some n6) \<Rightarrow>
          (case max_ipv4_offset X n4 of
             Some m \<Rightarrow> 1 \<le> net_next_ipv4 net \<and> unat (net_next_ipv4 net) \<le> unat m + 1 \<and>
               unat (net_next_ipv6 net) \<le> unat (net_next_ipv4 net) + 9
           | None \<Rightarrow> False)
      | _ \<Rightarrow> False)"

definition nets_disjoint :: "('n4, 'n6) externals \<Rightarrow> NetworkState \<Rightarrow> NetworkState \<Rightarrow> bool" where
  "nets_disjoint X a b \<longleftrightarrow>
     (case (v4_parse X (net_overlay_v4 a), v4_parse X (net_overlay_v4 b)) of
        (Some a4, Some b4) \<Rightarrow> \<not> ipv4_nets_overlap X a4 b4 | _ \<Rightarrow> True) \<and>
     (case (v6_parse X (net_overlay_v6 a), v6_parse X (net_overlay_v6 b)) of
        (Some a6, Some b6) \<Rightarrow> \<not> ipv6_nets_overlap X a6 b6 | _ \<Rightarrow> True)"

text \<open>The node's addresses were handed out by its network: they lie below the next free ones.\<close>

definition addr_issued :: "('n4, 'n6) externals \<Rightarrow> NetworkState \<Rightarrow> NodeState \<Rightarrow> bool" where
  "addr_issued X net node \<longleftrightarrow>
     (case (v4_parse X (net_overlay_v4 net), parse_ipv4 (nd_ipv4 node)) of
        (Some n4, Some a4) \<Rightarrow> nd_ipv4 node = show_ipv4 a4 \<and>
          unat (v4_network X n4) < unat a4 \<and>
          unat a4 < unat (v4_network X n4) + unat (net_next_ipv4 net)
      | _ \<Rightarrow> False) \<and>
     (case (v6_parse X (net_overlay_v6 net), parse_ipv6 (nd_ipv6 node)) of
        (Some n6, Some a6) \<Rightarrow> nd_ipv6 node = show_ipv6 a6 \<and> v6_contains X n6 a6 \<and>
          unat (v6_network X n6) \<le> unat a6 \<and>
          unat a6 < unat (v6_network X n6) + unat (net_next_ipv6 net)
      | _ \<Rightarrow> False)"

definition wf_node ::
  "('n4, 'n6) externals \<Rightarrow> (string, NetworkState) hmap \<Rightarrow> string \<Rightarrow> NodeState \<Rightarrow> bool"
where
  "wf_node X nets k node \<longleftrightarrow>
     nd_id node = k \<and>
     (case hm_get nets (nd_network_id node) of None \<Rightarrow> False | Some net \<Rightarrow> addr_issued X net node) \<and>
     (nd_approved node \<longrightarrow> nd_auth_secret node = None)"

definition distinct_addrs :: "NodeState \<Rightarrow> NodeState \<Rightarrow> bool" where
  "distinct_addrs a b \<longleftrightarrow> nd_ipv4 a \<noteq> nd_ipv4 b \<and> nd_ipv6 a \<noteq> nd_ipv6 b"

definition wf_token :: "(string, NetworkState) hmap \<Rightarrow> string \<Rightarrow> TokenState \<Rightarrow> bool" where
  "wf_token nets k token \<longleftrightarrow>
     tk_token token = k \<and> hm_contains_key nets (tk_network_id token) \<and> tk_uses_left token \<noteq> 0"

definition wf_maps ::
  "('n4, 'n6) externals \<Rightarrow> (string, NetworkState) hmap \<Rightarrow> (string, NodeState) hmap
   \<Rightarrow> (string, TokenState) hmap \<Rightarrow> bool"
where
  "wf_maps X nets nodes toks \<longleftrightarrow>
     hm_wf nets \<and> hm_wf nodes \<and> hm_wf toks \<and>
     hm_each (wf_network X) nets \<and> hm_pairwise (nets_disjoint X) nets \<and>
     hm_each (wf_node X nets) nodes \<and> hm_pairwise distinct_addrs nodes \<and>
     hm_each (wf_token nets) toks"

definition wf_state :: "('n4, 'n6) externals \<Rightarrow> State \<Rightarrow> bool" where
  "wf_state X st \<longleftrightarrow> wf_maps X (st_networks st) (st_nodes st) (st_tokens st)"

section \<open>Using the invariant\<close>

lemma wf_networkE:
  assumes "wf_network X k net"
  obtains n4 n6 m where "net_id net = k" "v4_parse X (net_overlay_v4 net) = Some n4"
    "v6_parse X (net_overlay_v6 net) = Some n6" "max_ipv4_offset X n4 = Some m"
    "1 \<le> net_next_ipv4 net" "unat (net_next_ipv4 net) \<le> unat m + 1"
    "unat (net_next_ipv6 net) \<le> unat (net_next_ipv4 net) + 9"
  using assms unfolding wf_network_def by (simp split: option.splits)

lemma addr_issuedE:
  assumes "addr_issued X net node"
  obtains n4 a4 n6 a6 where "v4_parse X (net_overlay_v4 net) = Some n4" "nd_ipv4 node = show_ipv4 a4"
    "unat (v4_network X n4) < unat a4" "unat a4 < unat (v4_network X n4) + unat (net_next_ipv4 net)"
    "v6_parse X (net_overlay_v6 net) = Some n6" "nd_ipv6 node = show_ipv6 a6" "v6_contains X n6 a6"
    "unat (v6_network X n6) \<le> unat a6"
    "unat a6 < unat (v6_network X n6) + unat (net_next_ipv6 net)"
  using assms unfolding addr_issued_def by (simp split: option.splits)

lemma wf_mapsD:
  assumes "wf_maps X nets nodes toks"
  shows "hm_wf nets" "hm_wf nodes" "hm_wf toks" "hm_each (wf_network X) nets"
    "hm_pairwise (nets_disjoint X) nets" "hm_each (wf_node X nets) nodes"
    "hm_pairwise distinct_addrs nodes" "hm_each (wf_token nets) toks"
  using assms by (simp_all add: wf_maps_def)

lemma wf_maps_network: "wf_maps X nets nodes toks \<Longrightarrow> hm_get nets k = Some net \<Longrightarrow> wf_network X k net"
  by (auto dest: wf_mapsD intro: hm.each_get)

lemma wf_maps_node: "wf_maps X nets nodes toks \<Longrightarrow> hm_get nodes k = Some node \<Longrightarrow> wf_node X nets k node"
  by (auto dest: wf_mapsD intro: hm.each_get)

lemma wf_maps_token: "wf_maps X nets nodes toks \<Longrightarrow> hm_get toks k = Some tok \<Longrightarrow> wf_token nets k tok"
  by (auto dest: wf_mapsD intro: hm.each_get)

text \<open>An issued IPv4 address lies in the overlay of its network.\<close>

lemma issued_v4_in_overlay:
  assumes "ipnet_laws X" and "max_ipv4_offset X n4 = Some m" and "unat nxt \<le> unat m + 1"
    and "unat (v4_network X n4) < unat a4" and "unat a4 < unat (v4_network X n4) + unat (nxt :: u32)"
  shows "v4_contains X n4 a4"
proof -
  define off where "off = a4 - v4_network X n4"
  have "v4_network X n4 \<le> a4"
    using assms(4) by (simp add: word_le_nat_alt)
  then have "unat off = unat a4 - unat (v4_network X n4)"
    by (simp add: off_def unat_sub)
  then have "off \<le> m"
    using assms(3,5) by (simp add: word_le_nat_alt)
  then have "v4_contains X n4 (v4_network X n4 + off)"
    by (rule v4_offset_in_net(2) [OF assms(1,2)])
  then show ?thesis by (simp add: off_def)
qed

section \<open>Edits that keep the invariant\<close>

lemma wf_replace_node:
  assumes "wf_maps X nets nodes toks" and "hm_get nodes k = Some old"
    and "nd_id new = nd_id old" "nd_network_id new = nd_network_id old"
    and "nd_ipv4 new = nd_ipv4 old" "nd_ipv6 new = nd_ipv6 old"
    and "nd_approved new \<Longrightarrow> nd_auth_secret new = None"
  shows "wf_maps X nets (hm_insert k new nodes) toks"
proof -
  note wf = wf_mapsD [OF assms(1)]
  have "wf_node X nets k old"
    by (rule wf_maps_node [OF assms(1,2)])
  moreover have "addr_issued X net new = addr_issued X net old" for net
    by (simp only: addr_issued_def assms(5,6))
  ultimately have "wf_node X nets k new"
    using assms(3,4,7) by (auto simp: wf_node_def split: option.splits)
  then have "hm_each (wf_node X nets) (hm_insert k new nodes)"
    by (rule hm.each_put [OF wf(2,6)])
  moreover have "hm_pairwise distinct_addrs (hm_insert k new nodes)"
    using assms(5,6)
    by (intro hm.pairs_replace [OF wf(2,7) assms(2)]) (simp_all add: distinct_addrs_def)
  ultimately show ?thesis
    using wf by (simp add: wf_maps_def)
qed

lemma wf_remove_node: "wf_maps X nets nodes toks \<Longrightarrow> wf_maps X nets (hm_remove k nodes) toks"
  by (auto simp: wf_maps_def intro: hm.each_del hm.pairs_del)

lemma wf_put_token:
  "wf_maps X nets nodes toks \<Longrightarrow> wf_token nets k tok \<Longrightarrow> wf_maps X nets nodes (hm_insert k tok toks)"
  by (auto simp: wf_maps_def intro: hm.each_put)

lemma wf_remove_token: "wf_maps X nets nodes toks \<Longrightarrow> wf_maps X nets nodes (hm_remove k toks)"
  by (auto simp: wf_maps_def intro: hm.each_del)

lemma wf_drop_token:
  "wf_maps X nets nodes toks \<Longrightarrow> wf_maps X nets nodes (hm_remove k (hm_insert k tok toks))"
  by (auto simp: wf_maps_def hm.each_iff hm_simps)

text \<open>A network whose counters grow still covers the addresses it has issued.\<close>

lemma addr_issued_mono:
  assumes "addr_issued X old node" and "net_overlay_v4 new = net_overlay_v4 old"
    "net_overlay_v6 new = net_overlay_v6 old"
    and "unat (net_next_ipv4 old) \<le> unat (net_next_ipv4 new)"
    and "unat (net_next_ipv6 old) \<le> unat (net_next_ipv6 new)"
  shows "addr_issued X new node"
  using assms unfolding addr_issued_def by (auto split: option.splits)

lemma wf_replace_network:
  assumes "wf_maps X nets nodes toks" and "hm_get nets k = Some old" and "wf_network X k new"
    and "net_overlay_v4 new = net_overlay_v4 old" "net_overlay_v6 new = net_overlay_v6 old"
    and "unat (net_next_ipv4 old) \<le> unat (net_next_ipv4 new)"
    and "unat (net_next_ipv6 old) \<le> unat (net_next_ipv6 new)"
  shows "wf_maps X (hm_insert k new nets) nodes toks"
proof -
  note wf = wf_mapsD [OF assms(1)]
  have "hm_pairwise (nets_disjoint X) (hm_insert k new nets)"
    using assms(4,5)
    by (intro hm.pairs_replace [OF wf(1,5) assms(2)]) (simp_all add: nets_disjoint_def)
  moreover have "hm_each (wf_node X (hm_insert k new nets)) nodes"
  proof (rule hm.each_mono [OF wf(2,6)])
    fix i node
    assume "wf_node X nets i node"
    then show "wf_node X (hm_insert k new nets) i node"
      using assms(2) addr_issued_mono [OF _ assms(4-7)]
      by (auto simp: wf_node_def hm_simps split: option.splits)
  qed
  moreover have "hm_each (wf_token (hm_insert k new nets)) toks"
    by (rule hm.each_mono [OF wf(3,8)]) (auto simp: wf_token_def hm_simps)
  ultimately show ?thesis
    using wf hm.each_put [OF wf(1,4) assms(3)] by (simp add: wf_maps_def)
qed

lemma wf_network_unchanged:
  "wf_network X k old \<Longrightarrow> net_id new = net_id old \<Longrightarrow> net_overlay_v4 new = net_overlay_v4 old \<Longrightarrow>
   net_overlay_v6 new = net_overlay_v6 old \<Longrightarrow> net_next_ipv4 new = net_next_ipv4 old \<Longrightarrow>
   net_next_ipv6 new = net_next_ipv6 old \<Longrightarrow> wf_network X k new"
  by (simp only: wf_network_def)

section \<open>Allocation\<close>

text \<open>Within a well-formed network the counters are exact: neither wraps.\<close>

lemma next_ipv4_exact:
  assumes "max_ipv4_offset X n4 = Some m" and "nxt \<le> m"
  shows "unat (nxt + 1) = unat nxt + 1"
proof -
  have "unat nxt < 2 ^ (32 - v4_prefix_len X n4) - 1"
    by (rule v4_offset_not_broadcast [OF assms])
  moreover have "(2 :: nat) ^ (32 - v4_prefix_len X n4) \<le> 2 ^ 32"
    by (rule power_increasing) simp_all
  ultimately show ?thesis
    using unat_plus_exact [of nxt 1] by simp
qed

lemma next_ipv6_exact:
  assumes "unat (nxt :: u128) \<le> unat (v4 :: u32) + 9"
  shows "unat (nxt + 1) = unat nxt + 1"
proof -
  have "unat v4 < 2 ^ 32"
    using unsigned_less [of v4] by simp
  with assms show ?thesis
    using unat_plus_exact [of nxt 1] by simp
qed

lemma wf_network_allocated:
  assumes "wf_network X k net" and "allocate_node_ips X net = (res, net')"
  shows "wf_network X k net'" and "net_overlay_v4 net' = net_overlay_v4 net"
    and "net_overlay_v6 net' = net_overlay_v6 net" and "net_id net' = net_id net"
    and "unat (net_next_ipv4 net) \<le> unat (net_next_ipv4 net')"
    and "unat (net_next_ipv6 net) \<le> unat (net_next_ipv6 net')"
proof -
  obtain n4 n6 m where net: "net_id net = k" "v4_parse X (net_overlay_v4 net) = Some n4"
    "v6_parse X (net_overlay_v6 net) = Some n6" "max_ipv4_offset X n4 = Some m"
    "1 \<le> net_next_ipv4 net" "unat (net_next_ipv4 net) \<le> unat m + 1"
    "unat (net_next_ipv6 net) \<le> unat (net_next_ipv4 net) + 9"
    using assms(1) by (rule wf_networkE)
  note v6 = next_ipv6_exact [OF net(7)]
  have cases: "net' = net \<or> net_next_ipv4 net \<le> m \<and>
      (net' = net\<lparr>net_next_ipv4 := net_next_ipv4 net + 1\<rparr> \<or>
       net' = net\<lparr>net_next_ipv4 := net_next_ipv4 net + 1, net_next_ipv6 := net_next_ipv6 net + 1\<rparr>)"
  proof (cases res)
    case (Inl e)
    then show ?thesis using allocate_node_ips_Inl assms(2) net(2,4) by fastforce
  next
    case (Inr p)
    then show ?thesis using assms(2) net(2,4) by (cases p) (auto elim: allocate_node_ips_Inr)
  qed
  then show "net_overlay_v4 net' = net_overlay_v4 net" "net_overlay_v6 net' = net_overlay_v6 net"
    "net_id net' = net_id net"
    by auto
  show "unat (net_next_ipv4 net) \<le> unat (net_next_ipv4 net')"
    "unat (net_next_ipv6 net) \<le> unat (net_next_ipv6 net')" "wf_network X k net'"
    using cases net v6 next_ipv4_exact [OF net(4)]
    by (auto simp: wf_network_def word_le_nat_alt)
qed

text \<open>A failed allocation may still have moved the IPv4 counter.\<close>

lemma wf_allocate_failed:
  assumes "wf_maps X nets nodes toks" and "hm_get nets k = Some net"
    and "allocate_node_ips X net = (res, net')"
  shows "wf_maps X (hm_insert k net' nets) nodes toks"
  using wf_replace_network [OF assms(1,2)] wf_network_allocated [OF wf_maps_network [OF assms(1,2)] assms(3)]
  by blast

text \<open>The new addresses are not those of any node, of this network or of another.\<close>

lemma allocated_fresh:
  assumes laws: "ipnet_laws X" and wf: "wf_maps X nets nodes toks"
    and net: "hm_get nets k = Some net" and alloc: "allocate_node_ips X net = (Inr (s4, s6), net')"
    and node: "hm_get nodes i = Some node"
  shows "nd_ipv4 node \<noteq> s4 \<and> nd_ipv6 node \<noteq> s6"
proof -
  obtain n4 n6 m where n: "v4_parse X (net_overlay_v4 net) = Some n4"
    "v6_parse X (net_overlay_v6 net) = Some n6" "max_ipv4_offset X n4 = Some m"
    "net_next_ipv4 net \<le> m" "net_next_ipv6 net \<le> max_ipv6_offset X n6"
    "s4 = show_ipv4 (v4_network X n4 + net_next_ipv4 net)"
    "s6 = show_ipv6 (v6_network X n6 + net_next_ipv6 net)"
    using alloc by (rule allocate_node_ips_Inr)
  note new4 = v4_offset_in_net [OF laws n(3,4)] and new6 = v6_offset_in_net [OF laws n(5)]
  from wf_maps_node [OF wf node] obtain nt where nt: "hm_get nets (nd_network_id node) = Some nt"
    and issued: "addr_issued X nt node"
    by (auto simp: wf_node_def split: option.splits)
  obtain e4 a4 e6 a6 where a: "v4_parse X (net_overlay_v4 nt) = Some e4" "nd_ipv4 node = show_ipv4 a4"
    "unat (v4_network X e4) < unat a4" "unat a4 < unat (v4_network X e4) + unat (net_next_ipv4 nt)"
    "v6_parse X (net_overlay_v6 nt) = Some e6" "nd_ipv6 node = show_ipv6 a6" "v6_contains X e6 a6"
    "unat a6 < unat (v6_network X e6) + unat (net_next_ipv6 nt)"
    using issued by (rule addr_issuedE)
  show ?thesis
  proof (cases "nd_network_id node = k")
    case True
    with net nt have "nt = net" by simp
    then show ?thesis
      using a n new4(1) new6(1) by auto
  next
    case False
    have disj: "nets_disjoint X nt net"
      by (rule hm.pairs_get [OF wf_mapsD(1,5) [OF wf] nt net False])
    obtain mt where "max_ipv4_offset X e4 = Some mt" "unat (net_next_ipv4 nt) \<le> unat mt + 1"
      using wf_maps_network [OF wf nt] a(1) by (auto elim: wf_networkE)
    then have "v4_contains X e4 a4"
      using issued_v4_in_overlay [OF laws _ _ a(3,4)] by blast
    moreover have "\<not> ipv4_nets_overlap X e4 n4" "\<not> ipv6_nets_overlap X e6 n6"
      using disj a(1,5) n(1,2) by (simp_all add: nets_disjoint_def)
    ultimately show ?thesis
      using a(2,6,7) n(6,7) new4(2) new6(2)
      by (auto simp: ipv4_nets_overlap_iff [OF laws] ipv6_nets_overlap_iff [OF laws])
  qed
qed

text \<open>Storing a node with freshly allocated addresses, under any identifier.\<close>

lemma wf_put_allocated:
  assumes laws: "ipnet_laws X" and wf: "wf_maps X nets nodes toks"
    and net: "hm_get nets k = Some net" and alloc: "allocate_node_ips X net = (Inr (s4, s6), net')"
    and node: "nd_network_id node = net_id net'" "nd_ipv4 node = s4" "nd_ipv6 node = s6"
      "nd_approved node \<Longrightarrow> nd_auth_secret node = None"
  shows "wf_maps X (hm_insert k net' nets) (hm_insert (nd_id node) node nodes) toks"
proof -
  let ?nets = "hm_insert k net' nets"
  have wf': "wf_maps X ?nets nodes toks"
    by (rule wf_allocate_failed [OF wf net alloc])
  note wfn = wf_maps_network [OF wf net] and D = wf_mapsD [OF wf']
  have id: "net_id net' = k"
    using wf_network_allocated(4) [OF wfn alloc] wfn by (simp add: wf_network_def)
  have "addr_issued X net' node"
    using alloc
  proof (rule allocate_node_ips_Inr)
    fix n4 n6 m
    assume n: "v4_parse X (net_overlay_v4 net) = Some n4" "v6_parse X (net_overlay_v6 net) = Some n6"
      "max_ipv4_offset X n4 = Some m" "net_next_ipv4 net \<le> m" "net_next_ipv6 net \<le> max_ipv6_offset X n6"
      "s4 = show_ipv4 (v4_network X n4 + net_next_ipv4 net)"
      "s6 = show_ipv6 (v6_network X n6 + net_next_ipv6 net)"
      "net' = net\<lparr>net_next_ipv4 := net_next_ipv4 net + 1, net_next_ipv6 := net_next_ipv6 net + 1\<rparr>"
    have "0 < unat (net_next_ipv4 net)" "unat (net_next_ipv6 net + 1) = unat (net_next_ipv6 net) + 1"
      using wfn by (auto elim!: wf_networkE simp: word_le_nat_alt next_ipv6_exact)
    then show "addr_issued X net' node"
      using n node v4_offset_in_net [OF laws n(3,4)] v6_offset_in_net [OF laws n(5)]
        next_ipv4_exact [OF n(3,4)]
      by (simp add: addr_issued_def)
  qed
  then have "hm_each (wf_node X ?nets) (hm_insert (nd_id node) node nodes)"
    using node(1,4) id by (intro hm.each_put [OF D(2,6)]) (simp add: wf_node_def hm_simps)
  moreover have "hm_pairwise distinct_addrs (hm_insert (nd_id node) node nodes)"
    using allocated_fresh [OF laws wf net alloc] node(2,3)
    by (intro hm.pairs_put [OF D(2,7)]) (metis distinct_addrs_def)
  ultimately show ?thesis
    using D by (simp add: wf_maps_def)
qed

section \<open>The closures keep the invariant\<close>

lemma wf_create_network_maps:
  assumes wf: "wf_maps X nets nodes toks" and new: "\<not> hm_contains_key nets (net_id ns)"
    and ns: "create_network_state X E req = Inr (n4, n6, ns)"
    and free: "overlay_conflict X n4 n6 (hm_values nets) = None"
  shows "wf_maps X (hm_insert (net_id ns) ns nets) nodes toks"
proof -
  note D = wf_mapsD [OF wf] and N = create_network_state_Inr [OF ns]
  have "wf_network X (net_id ns) ns"
  proof (rule initial_ipv4_offset_Some [OF N(3)])
    fix m
    assume m: "max_ipv4_offset X n4 = Some m" "1 \<le> net_next_ipv4 ns" "net_next_ipv4 ns \<le> m"
      "net_next_ipv4 ns \<le> 10"
    moreover have "net_next_ipv6 ns \<le> 10"
      using initial_ipv6_offset_le [of X n6] N(4) by simp
    ultimately show "wf_network X (net_id ns) ns"
      using N(1,2) by (simp add: wf_network_def word_le_nat_alt)
  qed
  moreover have "nets_disjoint X ns e \<and> nets_disjoint X e ns" if "hm_get nets i = Some e" for i e
  proof -
    have "e \<in> set (hm_values nets)"
      using that D(1) by (auto simp: hm.vals_iff)
    with free N(1,2) show ?thesis
      unfolding overlay_conflict_None_iff nets_disjoint_def
      by (fastforce simp: ipv4_nets_overlap_def ipv6_nets_overlap_def)
  qed
  moreover have "hm_each (wf_node X (hm_insert (net_id ns) ns nets)) nodes"
    using new by (intro hm.each_mono [OF D(2,6)])
      (auto simp: wf_node_def hm_simps split: option.splits)
  moreover have "hm_each (wf_token (hm_insert (net_id ns) ns nets)) toks"
    by (rule hm.each_mono [OF D(3,8)]) (auto simp: wf_token_def hm_simps)
  ultimately show ?thesis
    using D by (auto simp: wf_maps_def intro: hm.each_put hm.pairs_put)
qed

lemma wf_create_network_tx:
  assumes "wf_state X st" and "create_network_state X E req = Inr (n4, n6, ns)"
  shows "wf_state X (snd (create_network_tx X E req n4 n6 ns st))"
proof -
  have "wf_token (hm_insert (net_id ns) ns (st_networks st)) (tk_token t) t"
    if "build_token sec now (net_id ns) ttl uses tags ou oe adm = Inr t" for sec now ttl uses tags ou oe adm t
    using build_token_Inr [OF that] by (simp add: wf_token_def hm_simps)
  then show ?thesis
    using assms wf_create_network_maps [of X "st_networks st" "st_nodes st" "st_tokens st" ns E req n4 n6]
    by (auto simp: wf_state_def create_network_tx_def Let_def intro!: wf_put_token
        split: option.split sum.split)
qed

lemma wf_create_token_tx:
  assumes "wf_state X st"
  shows "wf_state X (snd (create_token_tx X E nid req st))"
proof (cases "hm_get (st_networks st) nid")
  case (Some network)
  have "net_id network = nid"
    using wf_maps_network [OF assms [unfolded wf_state_def] Some] by (simp add: wf_network_def)
  then have "wf_token (st_networks st) (tk_token t) t"
    if "build_token sec now (net_id network) ttl uses tags ou oe adm = Inr t" for sec now ttl uses tags ou oe adm t
    using build_token_Inr [OF that] Some by (simp add: wf_token_def hm_simps)
  with Some assms show ?thesis
    by (auto simp: wf_state_def create_token_tx_def Let_def intro!: wf_put_token split: sum.split)
qed (use assms in \<open>simp add: create_token_tx_def\<close>)

lemma wf_revoke_token_tx:
  assumes "wf_state X st"
  shows "wf_state X (snd (revoke_token_tx X E tid st))"
proof (cases "hm_get (st_tokens st) tid")
  case (Some tok)
  then show ?thesis
    using assms wf_maps_token [OF assms [unfolded wf_state_def] Some]
    by (auto simp: wf_state_def revoke_token_tx_def Let_def wf_token_def intro!: wf_put_token)
qed (use assms in \<open>simp add: revoke_token_tx_def\<close>)

lemma wf_update_acl_tx: "wf_state X st \<Longrightarrow> wf_state X (snd (update_acl_tx X E nid pol st))"
  by (auto simp: wf_state_def update_acl_tx_def Let_def split: option.split
      intro!: wf_replace_network elim: wf_network_unchanged [OF wf_maps_network])

lemma wf_update_key_policy_tx: "wf_state X st \<Longrightarrow> wf_state X (snd (update_key_policy_tx X E nid pol st))"
  by (auto simp: wf_state_def update_key_policy_tx_def Let_def split: option.split
      intro!: wf_replace_network elim: wf_network_unchanged [OF wf_maps_network])

lemma wf_delete_network_maps:
  assumes wf: "wf_maps X nets nodes toks"
    and none: "\<And>i node. hm_get nodes i = Some node \<Longrightarrow> nd_network_id node \<noteq> nid"
  shows "wf_maps X (hm_remove nid nets) nodes (hm_retain (\<lambda>_ t. tk_network_id t \<noteq> nid) toks)"
proof -
  note D = wf_mapsD [OF wf]
  have "hm_each (wf_node X (hm_remove nid nets)) nodes"
    using none by (intro hm.each_mono [OF D(2,6)]) (auto simp: wf_node_def hm_simps split: option.splits)
  moreover have "hm_each (wf_token (hm_remove nid nets)) (hm_retain (\<lambda>_ t. tk_network_id t \<noteq> nid) toks)"
    using D(3,8) by (auto simp: hm.each_iff hm.get_keep wf_token_def hm_simps)
  ultimately show ?thesis
    using D by (simp add: wf_maps_def hm.each_del hm.pairs_del)
qed

lemma wf_delete_network_tx:
  assumes "wf_state X st"
  shows "wf_state X (snd (delete_network_tx X E nid st))"
proof (cases "hm_contains_key (st_networks st) nid \<and>
    filter (\<lambda>node. nd_network_id node = nid) (hm_values (st_nodes st)) = []")
  case True
  note wf = assms [unfolded wf_state_def]
  have "nd_network_id node \<noteq> nid" if "hm_get (st_nodes st) i = Some node" for i node
    using True that wf_mapsD(2) [OF wf] by (auto simp: filter_empty_conv hm.vals_iff)
  then show ?thesis
    using True wf_delete_network_maps [OF wf, of nid] by (simp add: wf_state_def delete_network_tx_def)
qed (use assms in \<open>auto simp: delete_network_tx_def Let_def\<close>)

lemma wf_spend_token:
  assumes "wf_state X st"
  shows "wf_state X (snd (spend_token tid st))"
proof (cases "hm_get (st_tokens st) tid")
  case (Some tok)
  then show ?thesis
    using assms wf_maps_token [OF assms [unfolded wf_state_def] Some]
    by (auto simp: wf_state_def spend_token_def Let_def wf_token_def intro!: wf_put_token wf_drop_token)
qed (use assms in \<open>simp add: spend_token_def\<close>)

lemma snd_case_result:
  "snd (case r of (Inl e, st) \<Rightarrow> (Inl e, st) | (Inr _, st) \<Rightarrow> (Inr x, st)) = snd r"
  by (simp split: prod.split sum.split)

lemma wf_register_tx:
  assumes laws: "ipnet_laws X" and wf: "wf_state X st"
  shows "wf_state X (snd (register_tx X E req name st))"
proof -
  note wfm = wf [unfolded wf_state_def]
  have err: "wf_state X (put_network nid net' st)"
    if "hm_get (st_networks st) nid = Some net" "allocate_node_ips X net = (Inl e, net')" for nid net e net'
    using wf_allocate_failed [OF wfm that] by (simp add: wf_state_def)
  have ok: "wf_state X (audit X E iu it a nw nd j (put_node (uuid_to_string X (new_uuid E 0))
      (register_node X E req name tok net' s4 s6) (put_network nid net' st)))"
    if "hm_get (st_networks st) nid = Some net" "allocate_node_ips X net = (Inr (s4, s6), net')"
    for nid net net' s4 s6 tok a nw nd j iu it
    using wf_put_allocated [OF laws wfm that, of "register_node X E req name tok net' s4 s6"]
    by (simp add: wf_state_def)
  show ?thesis
    using wf err wf_spend_token [OF ok]
    by (simp add: register_tx_def Let_def snd_case_result split: option.split sum.split prod.split)
qed

lemma wf_register_url_tx:
  assumes laws: "ipnet_laws X" and wf: "wf_state X st"
  shows "wf_state X (snd (register_url_tx X E req name ex st))"
proof -
  note wfm = wf [unfolded wf_state_def]
  have err: "wf_state X (put_network nid net' st)"
    if "hm_get (st_networks st) nid = Some net" "allocate_node_ips X net = (Inl e, net')" for nid net e net'
    using wf_allocate_failed [OF wfm that] by (simp add: wf_state_def)
  have ok: "wf_state X (audit X E iu it a nw nd j (put_node (uuid_to_string X (new_uuid E 0))
      (register_url_node X E req name ex net' s4 s6) (put_network nid net' st)))"
    if "hm_get (st_networks st) nid = Some net" "allocate_node_ips X net = (Inr (s4, s6), net')"
    for nid net net' s4 s6 a nw nd j iu it
    using wf_put_allocated [OF laws wfm that, of "register_url_node X E req name ex net' s4 s6"]
    by (simp add: wf_state_def)
  show ?thesis
    using wf err ok
    by (simp add: register_url_tx_def Let_def split: option.split sum.split prod.split)
qed

text \<open>Closures that rewrite a node without touching its place in the network.\<close>

definition same_place :: "NodeState \<Rightarrow> NodeState \<Rightarrow> bool" where
  "same_place old new \<longleftrightarrow>
     nd_id new = nd_id old \<and> nd_network_id new = nd_network_id old \<and>
     nd_ipv4 new = nd_ipv4 old \<and> nd_ipv6 new = nd_ipv6 old \<and>
     (nd_approved new \<longrightarrow> nd_auth_secret new = None \<or>
        nd_approved old \<and> nd_auth_secret new = nd_auth_secret old)"

lemma wf_put_node:
  assumes "wf_state X st" and "hm_get (st_nodes st) k = Some old" and "same_place old new"
  shows "wf_state X (put_node k new st)"
proof -
  note wf = assms(1) [unfolded wf_state_def]
  have "wf_node X (st_networks st) k old"
    by (rule wf_maps_node [OF wf assms(2)])
  then show ?thesis
    using wf_replace_node [OF wf assms(2), of new] assms(3)
    by (auto simp: wf_state_def same_place_def wf_node_def)
qed

lemma wf_state_audit [simp]: "wf_state X (audit Y E iu it a n d j st) = wf_state X st"
  by (simp add: wf_state_def)

lemma wf_state_approve_audit [simp]: "wf_state X (approve_audit Y E v n st) = wf_state X st"
  by (simp add: wf_state_def)

lemma wf_approve_node_secret_tx:
  "wf_state X st \<Longrightarrow> wf_state X (snd (approve_node_secret_tx X E nid sec st))"
  by (auto simp: approve_node_secret_tx_def Let_def same_place_def intro: wf_put_node split: option.split)

lemma wf_approve_node_tx: "wf_state X st \<Longrightarrow> wf_state X (snd (approve_node_tx X E nid st))"
  by (auto simp: approve_node_tx_def Let_def same_place_def intro: wf_put_node split: option.split)

lemma wf_update_node_tx:
  assumes "wf_state X st"
  shows "wf_state X (snd (update_node_tx X E nid req st))"
proof (cases "hm_get (st_nodes st) nid")
  case (Some old)
  have "wf_state X (put_node nid new st)" if "same_place old new" for new
    by (rule wf_put_node [OF assms Some that])
  then show ?thesis
    using assms Some
    by (simp add: update_node_tx_def Let_def case_prod_unfold same_place_def
        split: option.split sum.split)
qed (use assms in \<open>simp add: update_node_tx_def\<close>)

lemma wf_rotate_keys_tx:
  assumes "wf_state X st"
  shows "wf_state X (snd (rotate_keys_tx X E adm h nid req st))"
proof (cases "hm_get (st_nodes st) nid")
  case (Some old)
  have "wf_state X (put_node nid new st)" if "same_place old new" for new
    by (rule wf_put_node [OF assms Some that])
  then show ?thesis
    using assms Some
    by (simp add: rotate_keys_tx_def Let_def same_place_def split: option.split sum.split)
qed (use assms in \<open>simp add: rotate_keys_tx_def\<close>)

lemma wf_revoke_node_tx: "wf_state X st \<Longrightarrow> wf_state X (snd (revoke_node_tx X E nid st))"
  by (auto simp: revoke_node_tx_def Let_def same_place_def intro: wf_put_node split: option.split)

lemma wf_delete_node_tx: "wf_state X st \<Longrightarrow> wf_state X (snd (delete_node_tx X E nid st))"
  by (auto simp: delete_node_tx_def Let_def wf_state_def intro: wf_remove_node split: option.split)

lemma wf_heartbeat_tx: "wf_state X st \<Longrightarrow> wf_state X (snd (heartbeat_tx E adm h req eps st))"
  by (auto simp: heartbeat_tx_def Let_def same_place_def intro: wf_put_node split: option.split sum.split)

lemma wf_bump_revision: "wf_state X st \<Longrightarrow> wf_state X (bump_revision st)"
  by (simp add: wf_state_def bump_revision_def)

lemma wf_state_default: "wf_state X state_default"
  by (simp add: wf_state_def state_default_def wf_maps_def hm.each_empty hm.pairs_empty)

end
