(* ===== verification/Router.thy ===== *)
theory Router
  imports Invariants
begin

text \<open>
  The HTTP interface as a whole: the routes of \<open>main.rs\<close>, a request dispatched to its
  handler, and the states of the store that requests, failed writes and restarts can
  reach from an empty one.
\<close>

section \<open>Requests\<close>

text \<open>
  A request as its handler sees it, with the path parameters, the query and the body
  extracted. The long poll only reads, over many turns: it is \<^const>\<open>netmap_longpoll\<close>.
\<close>

datatype request =
    Healthz
  | CreateNetwork CreateNetworkRequest
  | DeleteNetwork string
  | ListTokens string
  | CreateToken string CreateTokenRequest
  | GetAcl string
  | UpdateAcl string AclPolicy
  | GetKeyPolicy string
  | UpdateKeyPolicy string KeyRotationPolicy
  | RevokeToken string
  | Register RegisterRequest
  | RegisterUrl RegisterUrlRequest
  | ApproveNodeSecret string string
  | ApproveNode string
  | RotateKeys string KeyRotationRequest
  | RevokeNode string
  | DeleteNode string
  | NodeKeys string
  | AdminNodes string
  | AdminTopology
  | UpdateNode string UpdateNodeRequest
  | AuditLog AuditQuery
  | Heartbeat IpAddr HeartbeatRequest
  | GetNetmap string

datatype response =
    RText string
  | RNetwork CreateNetworkResponse
  | RNoContent
  | RTokens "EnrollmentToken list"
  | RToken EnrollmentToken
  | RAcl AclPolicy
  | RKeyPolicy KeyRotationPolicy
  | RRegistered RegisterResponse
  | RRegisterUrl RegisterUrlResponse
  | RJson json
  | RRotated KeyRotationResponse
  | RDeleted string
  | RKeys KeyHistoryResponse
  | RNodes "NodeInfo list"
  | RTopology ControlPlaneTopologyResponse
  | RNode NodeInfo
  | RAudit "AuditEntry list"
  | RNetMap NetMap

definition healthz :: string where
  "healthz = ''ok''"

definition respond :: "('a \<Rightarrow> response) \<Rightarrow> (ApiError + 'a) \<times> 's \<Rightarrow> (ApiError + response) \<times> 's" where
  "respond f r = apfst (map_sum id f) r"

definition reply :: "('a \<Rightarrow> response) \<Rightarrow> ApiError + 'a \<Rightarrow> 's \<Rightarrow> (ApiError + response) \<times> 's" where
  "reply f r store = (map_sum id f r, store)"

text \<open>
  The router. \<open>between\<close> and \<open>io'\<close> are the interference and the outcomes before and at
  the second store access of \<open>register\<close> and \<open>heartbeat\<close>.
\<close>

fun dispatch ::
  "'c serde \<Rightarrow> 'c io_env \<Rightarrow> ('c StoreBackend \<Rightarrow> 'c StoreBackend) \<Rightarrow> 'c io_env \<Rightarrow> ('n4, 'n6) externals
   \<Rightarrow> env \<Rightarrow> AppState \<Rightarrow> headers \<Rightarrow> request \<Rightarrow> 'c StoreBackend
   \<Rightarrow> (ApiError + response) \<times> 'c StoreBackend"
where
  "dispatch S io between io' X E app h Healthz s = (Inr (RText healthz), s)"
| "dispatch S io between io' X E app h (CreateNetwork req) s =
     respond RNetwork (create_network S io X E app h req s)"
| "dispatch S io between io' X E app h (DeleteNetwork nid) s =
     respond (\<lambda>_. RNoContent) (delete_network S io X E app h nid s)"
| "dispatch S io between io' X E app h (ListTokens nid) s =
     reply RTokens (list_tokens io app h nid s) s"
| "dispatch S io between io' X E app h (CreateToken nid req) s =
     respond RToken (create_token S io X E app h nid req s)"
| "dispatch S io between io' X E app h (GetAcl nid) s = reply RAcl (get_acl io app h nid s) s"
| "dispatch S io between io' X E app h (UpdateAcl nid pol) s =
     respond RAcl (update_acl S io X E app h nid pol s)"
| "dispatch S io between io' X E app h (GetKeyPolicy nid) s =
     reply RKeyPolicy (get_key_policy io app h nid s) s"
| "dispatch S io between io' X E app h (UpdateKeyPolicy nid pol) s =
     respond RKeyPolicy (update_key_policy S io X E app h nid pol s)"
| "dispatch S io between io' X E app h (RevokeToken tid) s =
     respond RToken (revoke_token S io X E app h tid s)"
| "dispatch S io between io' X E app h (Register req) s =
     respond RRegistered (register S io between io' X E app req s)"
| "dispatch S io between io' X E app h (RegisterUrl req) s =
     respond RRegisterUrl (register_url S io X E req s)"
| "dispatch S io between io' X E app h (ApproveNodeSecret nid sec) s =
     respond RJson (approve_node_secret S io X E nid sec s)"
| "dispatch S io between io' X E app h (ApproveNode nid) s =
     respond RJson (approve_node S io X E app h nid s)"
| "dispatch S io between io' X E app h (RotateKeys nid req) s =
     respond RRotated (rotate_keys S io X E app h nid req s)"
| "dispatch S io between io' X E app h (RevokeNode nid) s =
     respond RJson (revoke_node S io X E app h nid s)"
| "dispatch S io between io' X E app h (DeleteNode nid) s =
     respond RDeleted (delete_node S io X E app h nid s)"
| "dispatch S io between io' X E app h (NodeKeys nid) s = reply RKeys (node_keys io app h nid s) s"
| "dispatch S io between io' X E app h (AdminNodes nid) s =
     reply RNodes (admin_nodes io E app h nid s) s"
| "dispatch S io between io' X E app h AdminTopology s = reply RTopology (admin_topology E app h) s"
| "dispatch S io between io' X E app h (UpdateNode nid req) s =
     respond RNode (update_node S io X E app h nid req s)"
| "dispatch S io between io' X E app h (AuditLog params) s =
     reply RAudit (audit_log io app h params s) s"
| "dispatch S io between io' X E app h (Heartbeat ip req) s =
     respond RNetMap (heartbeat S io between io' E app h ip req s)"
| "dispatch S io between io' X E app h (GetNetmap nid) s = reply RNetMap (netmap io E app h nid s) s"

text \<open>The requests only an administrator may make, and those a node makes with its own token.\<close>

fun admin_request :: "request \<Rightarrow> bool" where
  "admin_request Healthz = False"
| "admin_request (Register _) = False"
| "admin_request (RegisterUrl _) = False"
| "admin_request (ApproveNodeSecret _ _) = False"
| "admin_request (RotateKeys _ _) = False"
| "admin_request (NodeKeys _) = False"
| "admin_request (Heartbeat _ _) = False"
| "admin_request (GetNetmap _) = False"
| "admin_request _ = True"

fun node_request :: "request \<Rightarrow> string option" where
  "node_request (RotateKeys nid _) = Some nid"
| "node_request (NodeKeys nid) = Some nid"
| "node_request (Heartbeat _ req) = Some (hb_node_id req)"
| "node_request (GetNetmap nid) = Some nid"
| "node_request _ = None"

section \<open>Authorisation\<close>

lemma dispatch_admin_refused:
  assumes "admin_request req" and "require_admin h (app_admin_token app) = Inl e"
  shows "dispatch S io between io' X E app h req s = (Inl e, s)"
  using assms
  by (cases req)
    (simp_all add: respond_def reply_def create_network_def delete_network_def list_tokens_def
      create_token_def get_acl_def update_acl_def get_key_policy_def update_key_policy_def
      revoke_token_def approve_node_def revoke_node_def delete_node_def admin_nodes_def
      admin_topology_def update_node_def audit_log_def)

text \<open>A closure that refuses every state it can be lent, and leaves it alone.\<close>

lemma run_write_refused:
  assumes "current s = Some st" and "f st = (Inl e, st)" and "run_write S io f s = (res, s')"
  shows "current s' = Some st" and "res = Inl e \<or> res = Inl Internal"
proof -
  obtain r0 where r0: "store_write S io f s = (r0, s')" "res = map_sum map_store_err id r0"
    using assms(3) by (cases "store_write S io f s") (auto simp: run_write_def)
  then show "current s' = Some st"
    using backend.wr_cases [OF r0(1) assms(1)] assms(2) by auto
  show "res = Inl e \<or> res = Inl Internal"
  proof (cases r0)
    case (Inl err)
    then show ?thesis
      using r0 assms(1,2) backend.wr_closure [of S io f s _ s']
      by (cases err) (auto simp: map_store_err_def)
  next
    case (Inr r)
    then show ?thesis
      using r0 assms(1,2) backend.wr_ok [of S io f s r s'] by auto
  qed
qed

lemma run_read_refused:
  assumes "current s = Some st" and "f st = Inl e"
  shows "run_read io f s = Inl e \<or> run_read io f s = Inl Internal"
  using assms by (cases s) (auto simp: run_read_def store_read_def load_state_db_def map_store_err_def)

lemma dispatch_node_refused:
  assumes st: "current s = Some st" and req: "node_request req = Some nid"
    and node: "hm_get (st_nodes st) nid = Some node"
    and refuse: "require_node h (app_admin_token app) node = Inl e"
    and d: "dispatch S io between io' X E app h req s = (res, s')"
  shows "current s' = Some st" and "\<exists>err. res = Inl err"
proof -
  have rd: "run_read io f s = Inl e \<or> run_read io f s = Inl Internal" if "f st = Inl e"
    for f :: "State \<Rightarrow> ApiError + 'x"
    using run_read_refused [of s st f e] st that by blast
  have nm: "netmap_query a b app h nid st = Inl e" for a b
    using node refuse by (simp add: netmap_query_def)
  have "current s' = Some st \<and> (\<exists>err. res = Inl err)"
  proof (cases req)
    case (RotateKeys n q)
    obtain r1 s1 where w: "run_write S io (rotate_keys_tx X E (app_admin_token app) h nid q) s = (r1, s1)"
      by fastforce
    have "rotate_keys_tx X E (app_admin_token app) h nid q st = (Inl e, st)"
      using node refuse by (simp add: rotate_keys_tx_def)
    from run_write_refused [OF st this w] show ?thesis
      using d req RotateKeys w st by (auto simp: respond_def rotate_keys_def split: if_splits)
  next
    case (NodeKeys n)
    then show ?thesis
      using d req st node refuse
        rd [of "\<lambda>st. case hm_get (st_nodes st) nid of None \<Rightarrow> Inl (NotFound ''node'')
          | Some node \<Rightarrow> (case require_node h (app_admin_token app) node of
               Inl e \<Rightarrow> Inl e | Inr _ \<Rightarrow> Inr (nd_key_history node))"]
      by (auto simp: reply_def node_keys_def)
  next
    case (Heartbeat ip q)
    let ?eps = "merge_endpoints (hb_endpoints q) (map_option (show_socket_addr ip) (hb_listen_port q))"
    obtain r1 s1 where w: "run_write S io (heartbeat_tx E (app_admin_token app) h q ?eps) s = (r1, s1)"
      by fastforce
    have "heartbeat_tx E (app_admin_token app) h q ?eps st = (Inl e, st)"
      using node refuse req Heartbeat by (simp add: heartbeat_tx_def)
    from run_write_refused [OF st this w] show ?thesis
      using d req Heartbeat w by (auto simp: respond_def heartbeat_def Let_def)
  next
    case (GetNetmap n)
    then show ?thesis
      using d req st nm rd [of "netmap_query (now_unix E 0) (now_unix E 1) app h nid"]
      by (cases s) (auto simp: reply_def netmap_def run_read_def store_read_def load_state_db_def)
  qed (use req in auto)
  then show "current s' = Some st" and "\<exists>err. res = Inl err"
    by blast+
qed

end
