(* ===== verification/Reachable.thy ===== *)
theory Reachable
  imports Router "HOL-Library.Multiset"
begin

text \<open>
  What every history of the server keeps. The closures the handlers pass to the store are
  collected in one inductive predicate, and every request is shown to run one of them at most. A
  store is reachable from an empty one by requests, with any outcome of their input and
  output, and by restarts, which load what is on disk. The file backend releases its lock
  before it writes the file, so the writes of requests that overlap reach the disk in any order.
\<close>

section \<open>The closures of the handlers\<close>

text \<open>A closure with its results forgotten: what matters to the store.\<close>

definition forget :: "('e, 'r) tx \<Rightarrow> (unit, unit) tx" where
  "forget f st = (map_sum (\<lambda>_. ()) (\<lambda>_. ()) (fst (f st)), snd (f st))"

inductive server_closure :: "('n4, 'n6) externals \<Rightarrow> (unit, unit) tx \<Rightarrow> bool"
  for X :: "('n4, 'n6) externals"
where
  create_network: "create_network_state X E req = Inr (n4, n6, ns) \<Longrightarrow>
    server_closure X (forget (create_network_tx X E req n4 n6 ns))"
| create_token: "server_closure X (forget (create_token_tx X E nid ctreq))"
| revoke_token: "server_closure X (forget (revoke_token_tx X E tid))"
| update_acl: "server_closure X (forget (update_acl_tx X E nid pol))"
| update_key_policy: "server_closure X (forget (update_key_policy_tx X E nid kpol))"
| delete_network: "server_closure X (forget (delete_network_tx X E nid))"
| register: "normalize_node_name (rg_node_name rreq) = Inr name \<Longrightarrow>
    server_closure X (forget (register_tx X E rreq name))"
| register_url: "normalize_node_name (ru_node_name ureq) = Inr name \<Longrightarrow>
    server_closure X (forget (register_url_tx X E ureq name ex))"
| approve_node_secret: "server_closure X (forget (approve_node_secret_tx X E nid sec))"
| approve_node: "server_closure X (forget (approve_node_tx X E nid))"
| update_node: "server_closure X (forget (update_node_tx X E nid unreq))"
| rotate_keys: "server_closure X (forget (rotate_keys_tx X E adm h nid kreq))"
| revoke_node: "server_closure X (forget (revoke_node_tx X E nid))"
| delete_node: "server_closure X (forget (delete_node_tx X E nid))"
| heartbeat: "server_closure X (forget (heartbeat_tx E adm h hreq eps))"

lemma forget_snd [simp]: "snd (forget f st) = snd (f st)"
  by (simp add: forget_def)

lemma store_write_forget: "snd (store_write S io (forget f) s) = snd (store_write S io f s)"
proof (cases s)
  case (File inner path disk)
  then show ?thesis
    by (cases "f inner")
      (auto simp: store_write_def file_write_cases forget_def split: sum.split prod.split
        simp: persist_file_def split: option.split write_outcome.split)
next
  case (Db row)
  then show ?thesis
    by (cases row; cases "f (the row)")
      (auto simp: store_write_def write_state_db_def forget_def split: sum.split commit_outcome.split)
qed

lemma run_write_forget: "snd (run_write S io f s) = snd (store_write S io (forget f) s)"
  by (simp add: run_write_def store_write_forget)

lemma snd_of_run_write: "run_write S io f s = (r, s') \<Longrightarrow> s' = snd (store_write S io (forget f) s)"
  by (metis run_write_forget snd_conv)

text \<open>
  The closure a request runs: none when it only reads, or when its handler refuses it before the
  store is touched.
\<close>

definition authorised :: "headers \<Rightarrow> AppState \<Rightarrow> 'f option \<Rightarrow> 'f option" where
  "authorised h app f = (case require_admin h (app_admin_token app) of Inl _ \<Rightarrow> None | Inr _ \<Rightarrow> f)"

fun request_tx ::
  "('n4, 'n6) externals \<Rightarrow> env \<Rightarrow> AppState \<Rightarrow> headers \<Rightarrow> request \<Rightarrow> (unit, unit) tx option"
where
  "request_tx X E app h (CreateNetwork req) = authorised h app
     (case create_network_state X E req of
        Inl _ \<Rightarrow> None
      | Inr (n4, n6, ns) \<Rightarrow> Some (forget (create_network_tx X E req n4 n6 ns)))"
| "request_tx X E app h (DeleteNetwork nid) = authorised h app (Some (forget (delete_network_tx X E nid)))"
| "request_tx X E app h (CreateToken nid req) = authorised h app (Some (forget (create_token_tx X E nid req)))"
| "request_tx X E app h (UpdateAcl nid pol) = authorised h app (Some (forget (update_acl_tx X E nid pol)))"
| "request_tx X E app h (UpdateKeyPolicy nid pol) =
     authorised h app (Some (forget (update_key_policy_tx X E nid pol)))"
| "request_tx X E app h (RevokeToken tid) = authorised h app (Some (forget (revoke_token_tx X E tid)))"
| "request_tx X E app h (Register req) =
     (case normalize_node_name (rg_node_name req) of
        Inl _ \<Rightarrow> None
      | Inr name \<Rightarrow> Some (forget (register_tx X E req name)))"
| "request_tx X E app h (RegisterUrl req) =
     (let ttl = (case ru_ttl_seconds req of Some t \<Rightarrow> t | None \<Rightarrow> 600) in
      if ttl = 0 then None
      else case normalize_node_name (ru_node_name req) of
             Inl _ \<Rightarrow> None
           | Inr name \<Rightarrow>
               Some (forget (register_url_tx X E req name (i64_add (now_unix E 0) (as_i64 ttl)))))"
| "request_tx X E app h (ApproveNodeSecret nid sec) = Some (forget (approve_node_secret_tx X E nid sec))"
| "request_tx X E app h (ApproveNode nid) = authorised h app (Some (forget (approve_node_tx X E nid)))"
| "request_tx X E app h (RotateKeys nid req) =
     (if kq_machine_public_key req = None \<and> kq_wg_public_key req = None then None
      else Some (forget (rotate_keys_tx X E (app_admin_token app) h nid req)))"
| "request_tx X E app h (RevokeNode nid) = authorised h app (Some (forget (revoke_node_tx X E nid)))"
| "request_tx X E app h (DeleteNode nid) = authorised h app (Some (forget (delete_node_tx X E nid)))"
| "request_tx X E app h (UpdateNode nid req) = authorised h app
     (if un_name req = None \<and> un_tags req = None then None
      else Some (forget (update_node_tx X E nid req)))"
| "request_tx X E app h (Heartbeat ip req) =
     Some (forget (heartbeat_tx E (app_admin_token app) h req
       (merge_endpoints (hb_endpoints req) (map_option (show_socket_addr ip) (hb_listen_port req)))))"
| "request_tx X E app h _ = None"

lemma authorised_Some:
  "authorised h app f = Some g \<longleftrightarrow> require_admin h (app_admin_token app) = Inr () \<and> f = Some g"
  by (auto simp: authorised_def split: sum.split)

lemma request_tx_closure: "request_tx X E app h req = Some f \<Longrightarrow> server_closure X f"
  by (cases req)
    (auto simp: authorised_Some Let_def split: sum.splits prod.splits if_split_asm intro: server_closure.intros)

text \<open>A request changes the store through that closure and in no other way.\<close>

lemma dispatch_store:
  "snd (dispatch S io id io' X E app h req s) =
     (case request_tx X E app h req of None \<Rightarrow> s | Some f \<Rightarrow> snd (store_write S io f s))"
proof (cases req)
  case (CreateNetwork q)
  then show ?thesis
    by (auto simp: respond_def create_network_def authorised_def dest!: snd_of_run_write
        split: sum.splits prod.splits)
next
  case (Register q)
  then show ?thesis
    by (auto simp: respond_def register_def Let_def dest!: snd_of_run_write split: sum.splits prod.splits)
next
  case (RegisterUrl q)
  then show ?thesis
    by (auto simp: respond_def register_url_def Let_def dest!: snd_of_run_write
        split: sum.splits prod.splits)
next
  case (Heartbeat ip q)
  then show ?thesis
    by (auto simp: respond_def heartbeat_def Let_def dest!: snd_of_run_write split: sum.splits prod.splits)
qed (auto simp: respond_def reply_def delete_network_def create_token_def
    update_acl_def update_key_policy_def revoke_token_def approve_node_secret_def approve_node_def
    rotate_keys_def revoke_node_def delete_node_def update_node_def run_write_forget apfst_def
    map_prod_def case_prod_unfold authorised_def split: sum.split)

section \<open>Reachable stores\<close>

text \<open>
  What is relied on of a failed write: the contents it leaves behind, a proper prefix of
  the text of an object, do not parse.
\<close>

definition torn_write :: "'c serde \<Rightarrow> 'c io_env \<Rightarrow> bool" where
  "torn_write S io \<longleftrightarrow>
     (case io_write io of WriteErr (Some c) \<Rightarrow> from_json S c = None | _ \<Rightarrow> True)"

text \<open>
  The second argument holds the snapshots that requests have taken and not yet written.
  A request runs as a whole, or it has run its closure in memory and its snapshot is in flight
  while other requests run; the configuration may differ between requests, since servers that
  share a database have their own. A file that is being written can be found with contents that do
  not parse: a part of the text, or the texts of two writers over each other.
\<close>

inductive store_step ::
  "'c serde \<Rightarrow> ('n4, 'n6) externals \<Rightarrow> 'c StoreBackend \<Rightarrow> State multiset \<Rightarrow> 'c StoreBackend \<Rightarrow> State multiset \<Rightarrow> bool"
  for S :: "'c serde" and X :: "('n4, 'n6) externals"
where
  request: "torn_write S io \<Longrightarrow> dispatch S io id io' X E app h req s = (res, s') \<Longrightarrow> store_step S X s P s' P"
| started: "request_tx X E app h req = Some f \<Longrightarrow> file_mutate f inner = (Inr (r, snapshot), inner') \<Longrightarrow>
    store_step S X (File inner path disk) P (File inner' path disk) (add_mset snapshot P)"
| persisted: "torn_write S io \<Longrightarrow>
    persist_file S io path snapshot disk = (res :: unit store_error + unit, disk') \<Longrightarrow>
    store_step S X (File inner path disk) (add_mset snapshot P) (File inner path disk') P"
| torn: "from_json S c = None \<Longrightarrow>
    store_step S X (File inner (Some p) disk) (add_mset snapshot P)
      (File inner (Some p) (disk(p \<mapsto> c))) (add_mset snapshot P)"

inductive reachable ::
  "'c serde \<Rightarrow> ('n4, 'n6) externals \<Rightarrow> 'c StoreBackend \<Rightarrow> State multiset \<Rightarrow> bool"
  for S :: "'c serde" and X :: "('n4, 'n6) externals"
where
  fresh_file: "disk p = None \<Longrightarrow>
    reachable S X (File (store_load S disk (Some p)) (Some p) disk) {#}"
| fresh_db: "init_db cr (io :: 'c io_env) None = (Inr (), row) \<Longrightarrow> reachable S X (Db row) {#}"
| further: "reachable S X s P \<Longrightarrow> store_step S X s P s' P' \<Longrightarrow> reachable S X s' P'"
| restart_file: "reachable S X (File inner path disk) P \<Longrightarrow>
    reachable S X (File (store_load S disk path) path disk) {#}"
| restart_db: "reachable S X (Db row) P \<Longrightarrow> init_db cr (io :: 'c io_env) row = (res, row') \<Longrightarrow>
    reachable S X (Db row') {#}"

section \<open>Invariants of all states\<close>

text \<open>A property of the state in use, of the state a restart would load and of the snapshots in flight.\<close>

definition store_all :: "(State \<Rightarrow> bool) \<Rightarrow> 'c serde \<Rightarrow> 'c StoreBackend \<Rightarrow> State multiset \<Rightarrow> bool" where
  "store_all I S s P \<longleftrightarrow>
     (case s of
        File inner path disk \<Rightarrow> I inner \<and> I (store_load S disk path)
      | Db row \<Rightarrow> (\<exists>st. row = Some st \<and> I st)) \<and>
     (\<forall>st\<in>#P. I st)"

lemma persist_file_load:
  assumes "serde_ok S" and "torn_write S io" and "persist_file S io path st disk = (res, disk')"
  shows "store_load S disk' path \<in> {store_load S disk path, st, state_default}"
  using assms
  by (auto simp: persist_file_def store_load_def load_state_def serde_ok_def torn_write_def
      split: option.splits if_split_asm write_outcome.splits)

lemma file_mutate_ok:
  assumes "file_mutate f inner = (Inr (r, snapshot), inner')"
  shows "snapshot = bump_revision (snd (f inner)) \<and> inner' = snapshot"
  using assms by (auto simp: file_mutate_def Let_def split: prod.splits sum.splits)

text \<open>A write leaves the state in use, and on disk, as it was or as the closure left it.\<close>

lemma store_write_states:
  assumes "serde_ok S" and "torn_write S io"
  shows "(case s of
      File inner path disk \<Rightarrow> \<exists>inner' disk'. snd (store_write S io f s) = File inner' path disk' \<and>
        inner' \<in> {snd (f inner), bump_revision (snd (f inner))} \<and>
        store_load S disk' path \<in> {store_load S disk path, inner', state_default}
    | Db None \<Rightarrow> snd (store_write S io f s) = Db None
    | Db (Some st) \<Rightarrow> snd (store_write S io f s) \<in> {Db (Some st), Db (Some (bump_revision (snd (f st))))})"
proof (cases s)
  case (File inner path disk)
  obtain r st' where fi: "f inner = (r, st')" by fastforce
  obtain res disk' where p: "persist_file S io path (bump_revision st') disk = (res :: 'b store_error + unit, disk')"
    by fastforce
  show ?thesis
    using File fi p persist_file_load [OF assms p]
    by (auto simp: store_write_def file_write_cases split: sum.split)
next
  case (Db row)
  then show ?thesis
    by (auto simp: store_write_def write_state_db_def split: option.split sum.split prod.split commit_outcome.split)
qed

lemma store_write_all:
  assumes "serde_ok S" and "torn_write S io" and "store_all I S s P" and "I state_default"
    and "\<And>st. I st \<Longrightarrow> I (snd (f st)) \<and> I (bump_revision (snd (f st)))"
  shows "store_all I S (snd (store_write S io f s)) P"
  using store_write_states [OF assms(1,2), where s = s and f = f] assms(3-5)
  by (auto simp: store_all_def split: StoreBackend.splits option.splits)

lemma dispatch_store_cases:
  assumes "dispatch S io id io' X E app h req s = (res, s')"
  obtains (untouched) "s' = s" | (written) f where "request_tx X E app h req = Some f" "s' = snd (store_write S io f s)"
  using dispatch_store [of S io io' X E app h req s] assms by (cases "request_tx X E app h req") auto

lemma reachable_all:
  assumes "serde_ok S" and "reachable S X s P" and default: "I state_default"
    and closure: "\<And>st E app h req f. I st \<Longrightarrow> request_tx X E app h req = Some f \<Longrightarrow>
      I (snd (f st)) \<and> I (bump_revision (snd (f st)))"
  shows "store_all I S s P"
  using assms(2)
proof induction
  case (further s P s' P')
  from further.hyps(2) further.IH show ?case
  proof cases
    case (request io io' E app h req res)
    from request(3) further.IH show ?thesis
      by (cases rule: dispatch_store_cases)
        (use request(1) store_write_all [OF assms(1) request(2) further.IH default closure] in auto)
  next
    case (started E app h req f inner r snapshot inner' path disk)
    then show ?thesis
      using further.IH closure [OF _ started(4)] file_mutate_ok [OF started(5)] by (simp add: store_all_def)
  next
    case (persisted io path snapshot disk res disk' inner)
    then show ?thesis
      using further.IH persist_file_load [OF assms(1) persisted(4,5)] default by (auto simp: store_all_def)
  qed (auto simp: store_all_def store_load_def load_state_def default init_db_def Let_def
    split: option.splits if_split_asm commit_outcome.splits)
qed (auto simp: store_all_def store_load_def load_state_def default init_db_def Let_def
    split: option.splits if_split_asm commit_outcome.splits)

lemma store_all_current: "store_all I S s P \<Longrightarrow> \<exists>st. current s = Some st \<and> I st"
  by (cases s) (auto simp: store_all_def)

lemma server_closure_wf:
  assumes "ipnet_laws X" and "server_closure X f" and "wf_state X st"
  shows "wf_state X (snd (f st))"
  using assms(2)
  by cases
    (simp_all add: assms wf_create_network_tx wf_create_token_tx wf_revoke_token_tx wf_update_acl_tx
      wf_update_key_policy_tx wf_delete_network_tx wf_register_tx wf_register_url_tx
      wf_approve_node_secret_tx wf_approve_node_tx wf_update_node_tx wf_rotate_keys_tx
      wf_revoke_node_tx wf_delete_node_tx wf_heartbeat_tx)

lemma reachable_wf:
  assumes "ipnet_laws X" and "serde_ok S" and "reachable S X s P"
  shows "store_all (wf_state X) S s P"
  by (rule reachable_all [OF assms(2,3), where I = "wf_state X", OF wf_state_default])
    (simp add: server_closure_wf [OF assms(1) request_tx_closure] wf_bump_revision)

lemma reachable_current:
  assumes "ipnet_laws X" and "serde_ok S" and "reachable S X s P"
  obtains st where "current s = Some st" "wf_state X st"
  using store_all_current [OF reachable_wf [OF assms]] by blast

section \<open>The audit log and the revision only grow\<close>

definition log_grows :: "State \<Rightarrow> State \<Rightarrow> bool" where
  "log_grows st st' \<longleftrightarrow> prefix (st_audit_log st) (st_audit_log st') \<and> st_revision st' = st_revision st"

lemma log_grows_refl [simp]: "log_grows st st"
  by (simp add: log_grows_def)

lemma log_grows_edits [simp]:
  "log_grows st (put_network k n st') = log_grows st st'"
  "log_grows st (put_node k nd st') = log_grows st st'"
  "log_grows st (put_token k t st') = log_grows st st'"
  "log_grows st (st'\<lparr>st_tokens := ts\<rparr>) = log_grows st st'"
  "log_grows st (st'\<lparr>st_nodes := ns\<rparr>) = log_grows st st'"
  "log_grows st (st'\<lparr>st_networks := nets\<rparr>) = log_grows st st'"
  by (simp_all add: log_grows_def)

lemma log_grows_audit [simp]: "log_grows st st' \<Longrightarrow> log_grows st (audit X E iu it a n d j st')"
  by (simp add: log_grows_def)

lemma log_grows_approve_audit [simp]: "log_grows st st' \<Longrightarrow> log_grows st (approve_audit X E v n st')"
  by (simp add: approve_audit_def)

lemma log_grows_spend_token: "log_grows st st' \<Longrightarrow> log_grows st (snd (spend_token tid st'))"
  by (simp add: spend_token_def Let_def split: option.split)

lemma server_closure_log:
  assumes "server_closure X f"
  shows "log_grows st (snd (f st))"
  using assms
  by cases
    (simp_all add: op_defs Let_def snd_case_result log_grows_spend_token case_prod_unfold
      split: option.split sum.split)

lemma store_write_log:
  assumes "server_closure X f" and "current s = Some st"
  obtains st' where "current (snd (store_write S io f s)) = Some st'"
    "prefix (st_audit_log st) (st_audit_log st')" "st_revision st \<le> st_revision st'"
proof -
  have "log_grows st (snd (f st))"
    by (rule server_closure_log [OF assms(1)])
  moreover have "current (snd (store_write S io f s)) \<in>
      Some ` {st, snd (f st), bump_revision (snd (f st))}"
    using backend.wr_cases [OF _ assms(2), of S io f] by (metis image_eqI insertCI prod.collapse)
  ultimately show ?thesis
    using that by (auto simp: log_grows_def bump_revision_def saturating_add_mono)
qed

lemma dispatch_log:
  assumes "dispatch S io id io' X E app h req s = (res, s')" and "current s = Some st"
  obtains st' where "current s' = Some st'" "prefix (st_audit_log st) (st_audit_log st')"
    "st_revision st \<le> st_revision st'"
  using assms(1)
proof (cases rule: dispatch_store_cases)
  case untouched
  with assms(2) that show ?thesis by simp
next
  case (written f)
  then show ?thesis
    using store_write_log [OF request_tx_closure [OF written(1)] assms(2)] that by metis
qed

section \<open>What is on disk lags behind\<close>

text \<open>A state of which the other is a continuation, as far as the log and the revision tell.\<close>

definition behind :: "State \<Rightarrow> State \<Rightarrow> bool" where
  "behind st st' \<longleftrightarrow> prefix (st_audit_log st) (st_audit_log st') \<and> st_revision st \<le> st_revision st'"

lemma behind_refl [simp]: "behind st st"
  by (simp add: behind_def)

lemma behind_trans: "behind a b \<Longrightarrow> behind b c \<Longrightarrow> behind a c"
  by (auto simp: behind_def intro: prefix_order.trans)

lemma behind_default [simp]: "behind state_default st"
  by (simp add: behind_def state_default_def)

lemma closure_behind:
  assumes "server_closure X f"
  shows "behind st (snd (f st))" "behind st (bump_revision (snd (f st)))"
  using server_closure_log [OF assms, of st]
  by (simp_all add: behind_def log_grows_def bump_revision_def saturating_add_mono)

definition lagging :: "'c serde \<Rightarrow> 'c StoreBackend \<Rightarrow> State multiset \<Rightarrow> bool" where
  "lagging S s P \<longleftrightarrow>
     (case s of
        File inner path disk \<Rightarrow> behind (store_load S disk path) inner \<and> (\<forall>st\<in>#P. behind st inner)
      | Db _ \<Rightarrow> P = {#})"

lemma lagging_write:
  assumes "serde_ok S" and "torn_write S io" and "server_closure X f" and "lagging S s P"
  shows "lagging S (snd (store_write S io f s)) P"
  using store_write_states [OF assms(1,2), where s = s and f = f] assms(4) closure_behind [OF assms(3)]
  by (auto simp: lagging_def intro: behind_trans split: StoreBackend.splits option.splits)

lemma reachable_lagging:
  assumes "serde_ok S" and "reachable S X s P"
  shows "lagging S s P"
  using assms(2)
proof induction
  case (further s P s' P')
  from further.hyps(2) further.IH show ?case
  proof cases
    case (request io io' E app h req res)
    from request(3) further.IH show ?thesis
      by (cases rule: dispatch_store_cases)
        (use request(1) lagging_write [OF assms(1) request(2) request_tx_closure further.IH] in auto)
  next
    case (started E app h req f inner r snapshot inner' path disk)
    note snapshot = file_mutate_ok [OF started(5)]
    have "behind inner snapshot"
      using closure_behind(2) [OF request_tx_closure [OF started(4)], of inner] snapshot by simp
    with started snapshot further.IH show ?thesis by (auto simp: lagging_def intro: behind_trans)
  next
    case (persisted io path snapshot disk res disk' inner)
    then show ?thesis
      using further.IH persist_file_load [OF assms(1) persisted(4,5)] by (auto simp: lagging_def)
  qed (auto simp: lagging_def store_load_def load_state_def)
qed (auto simp: lagging_def store_load_def load_state_def)

end
