(* ===== verification/Example_Env.thy ===== *)
theory Example_Env
  imports Reachable
begin

text \<open>
  A concrete environment for the witnesses: prefixes as pairs of a length and an address,
  read from a table of texts, states stored as they are, and the requests of a small
  session with two networks.
\<close>

section \<open>Prefixes\<close>

type_synonym net4 = "nat \<times> ipv4"
type_synonym net6 = "nat \<times> ipv6"

definition ex_parse4 :: "string \<Rightarrow> net4 option" where
  "ex_parse4 s = map_of [(''10.0.0.0/24'', (24, 0x0A000000)), (''10.0.0.128/25'', (25, 0x0A000080)),
     (''10.1.0.0/30'', (30, 0x0A010000)), (''10.2.0.0/31'', (31, 0x0A020000))] s"

definition ex_parse6 :: "string \<Rightarrow> net6 option" where
  "ex_parse6 s = map_of [(''fd00::/64'', (64, 0xfd000000000000000000000000000000)),
     (''fd01::/127'', (127, 0xfd010000000000000000000000000000))] s"

definition ex_ext :: "(net4, net6) externals" where
  "ex_ext = \<lparr>v4_parse = ex_parse4, v4_prefix_len = (\<lambda>n. min 32 (fst n)),
     v4_network = (\<lambda>n. push_bit (32 - min 32 (fst n)) (drop_bit (32 - min 32 (fst n)) (snd n))),
     v4_contains = (\<lambda>n a. drop_bit (32 - min 32 (fst n)) a = drop_bit (32 - min 32 (fst n)) (snd n)),
     v6_parse = ex_parse6, v6_prefix_len = (\<lambda>n. min 128 (fst n)),
     v6_network = (\<lambda>n. push_bit (128 - min 128 (fst n)) (drop_bit (128 - min 128 (fst n)) (snd n))),
     v6_contains = (\<lambda>n a. drop_bit (128 - min 128 (fst n)) a = drop_bit (128 - min 128 (fst n)) (snd n)),
     blake3_hash = (\<lambda>u. take 32 (u @ replicate 32 (CHR 0x00))),
     uuid_to_string = (\<lambda>u. u)\<rparr>"

lemma push_drop_bits: "drop_bit h (push_bit h (drop_bit h w)) = drop_bit h (w :: 'a::len word)"
  by (rule bit_word_eqI) (auto simp: bit_simps dest: bit_imp_le_length)

lemma take_push_bits: "take_bit h (push_bit h w) = (0 :: 'a::len word)"
  by (rule bit_word_eqI) (auto simp: bit_simps)

lemma ex_ext_laws: "ipnet_laws ex_ext"
  unfolding ipnet_laws_def ex_ext_def by (simp add: push_drop_bits take_push_bits)

lemma all_ok_torn: "torn_write plain_serde all_ok"
  by (simp add: torn_write_def all_ok_def)

section \<open>A session\<close>

definition ex_env :: "i64 \<Rightarrow> string \<Rightarrow> env" where
  "ex_env t u = \<lparr>now_unix = (\<lambda>_. t), new_uuid = (\<lambda>k. if k = 0 then u else u @ ''-x''),
     random_secret = (\<lambda>k. if k = 0 then u @ ''-secret'' else u @ ''-link'')\<rparr>"

definition ex_app :: AppState where
  "ex_app = \<lparr>app_relay = \<lparr>rc_stun_servers = [], rc_turn_servers = [], rc_stream_relay_servers = [],
       rc_udp_relay_servers = [], rc_dns_servers = []\<rparr>,
     app_admin_token = Some ''root'', app_control_urls = [], app_mesh_server_id = None,
     app_mesh_peers = []\<rparr>"

definition no_headers :: headers where
  "no_headers = (\<lambda>_. None)"

definition bearer :: "string \<Rightarrow> headers" where
  "bearer token = (\<lambda>name. if name = ''authorization'' then Some (Some (''Bearer '' @ token)) else None)"

definition ex_create :: "string \<Rightarrow> string \<Rightarrow> request" where
  "ex_create v4 v6 = CreateNetwork
     \<lparr>cn_name = ''n'', cn_overlay_v4 = Some v4, cn_overlay_v6 = Some v6, cn_dns_domain = None,
      cn_requires_approval = None, cn_key_rotation_max_age_seconds = None,
      cn_bootstrap_token_ttl_seconds = Some 60, cn_bootstrap_token_uses = Some 2,
      cn_bootstrap_token_tags = None\<rparr>"

definition ex_register :: "string \<Rightarrow> string \<Rightarrow> request" where
  "ex_register tok name = Register
     \<lparr>rg_token = tok, rg_node_name = name, rg_machine_public_key = ''m'', rg_wg_public_key = ''w''\<rparr>"

definition ex_run :: "env \<Rightarrow> headers \<Rightarrow> request \<Rightarrow> State StoreBackend \<Rightarrow> State StoreBackend" where
  "ex_run E h req s = snd (dispatch plain_serde all_ok id all_ok ex_ext E ex_app h req s)"

definition ex_store0 :: "State StoreBackend" where
  "ex_store0 = Db (Some state_default)"

definition ex_store1 :: "State StoreBackend" where
  "ex_store1 = ex_run (ex_env 1000 ''net-a'') (bearer ''root'') (ex_create ''10.0.0.0/24'' ''fd00::/64'') ex_store0"

definition ex_store2 :: "State StoreBackend" where
  "ex_store2 = ex_run (ex_env 1010 ''nd1'') no_headers (ex_register ''net-a-secret'' ''alpha'') ex_store1"

definition ex_store3 :: "State StoreBackend" where
  "ex_store3 = ex_run (ex_env 1020 ''nd2'') no_headers (ex_register ''net-a-secret'' ''beta'') ex_store2"

lemma ex_run_reachable: "reachable plain_serde ex_ext s P \<Longrightarrow> reachable plain_serde ex_ext (ex_run E h req s) P"
  unfolding ex_run_def using all_ok_torn by (metis reachable.further store_step.request prod.collapse)

lemma ex_store0_reachable: "reachable plain_serde ex_ext ex_store0 {#}"
  unfolding ex_store0_def
  by (rule reachable.fresh_db [where io = all_ok]) (simp add: init_db_def all_ok_def)

lemma ex_store1_reachable: "reachable plain_serde ex_ext ex_store1 {#}"
  by (simp add: ex_store1_def ex_run_reachable ex_store0_reachable)

lemma ex_store2_reachable: "reachable plain_serde ex_ext ex_store2 {#}"
  by (simp add: ex_store2_def ex_store1_def ex_run_reachable ex_store0_reachable)

lemma ex_store3_reachable: "reachable plain_serde ex_ext ex_store3 {#}"
  by (simp add: ex_store3_def ex_store2_def ex_store1_def ex_run_reachable ex_store0_reachable)

section \<open>The states of the session\<close>

lemma ex_ext_eval [simp]:
  "v4_parse ex_ext ''10.0.0.0/24'' = Some (24, 0x0A000000)"
  "v6_parse ex_ext ''fd00::/64'' = Some (64, 0xfd000000000000000000000000000000)"
  "uuid_to_string ex_ext u = u"
  "max_ipv4_offset ex_ext (24, 0x0A000000) = Some 254"
  "v4_network ex_ext (24, 0x0A000000) = 0x0A000000"
  "max_ipv6_offset ex_ext (64, 0xfd000000000000000000000000000000) = 0xffffffffffffffff"
  "v6_network ex_ext (64, 0xfd000000000000000000000000000000) = 0xfd000000000000000000000000000000"
  by (simp_all add: ex_ext_def ex_parse4_def ex_parse6_def max_ipv4_offset_def max_ipv6_offset_def
      saturating_sub_def Let_def)

lemma ex_env_eval [simp]:
  "now_unix (ex_env t u) k = t" "new_uuid (ex_env t u) 0 = u" "new_uuid (ex_env t u) (Suc k) = u @ ''-x''"
  "new_uuid (ex_env t u) 1 = u @ ''-x''"
  "random_secret (ex_env t u) 0 = u @ ''-secret''" "random_secret (ex_env t u) (Suc k) = u @ ''-link''"
  by (simp_all add: ex_env_def)

lemma bearer_token_bearer_root: "bearer_token (bearer ''root'') = Some ''root''"
  by (simp add: bearer_token_def bearer_def strip_prefix_def trim_visible visible_def)

lemma ex_app_admin: "require_admin (bearer ''root'') (app_admin_token ex_app) = Inr ()"
  by (simp add: require_admin_iff bearer_token_bearer_root ex_app_def)

lemma ex_names: "normalize_node_name ''alpha'' = Inr ''alpha''" "normalize_node_name ''beta'' = Inr ''beta''"
  by (simp_all add: normalize_node_name_def trim_visible visible_def)

definition ex_net :: "u32 \<Rightarrow> u128 \<Rightarrow> NetworkState" where
  "ex_net n4 n6 = \<lparr>net_id = ''net-a'', net_name = ''n'', net_overlay_v4 = ''10.0.0.0/24'',
     net_overlay_v6 = ''fd00::/64'', net_dns_domain = ''net-net.lightscale'',
     net_requires_approval = False, net_acl = acl_policy_default,
     net_key_policy = \<lparr>kp_max_age_seconds = None\<rparr>, net_created_at = 1000,
     net_next_ipv4 = n4, net_next_ipv6 = n6\<rparr>"

definition ex_tok :: "u32 \<Rightarrow> TokenState" where
  "ex_tok uses = \<lparr>tk_token = ''net-a-secret'', tk_network_id = ''net-a'', tk_expires_at = 1060,
     tk_uses_left = uses, tk_tags = [], tk_owner_user_id = None, tk_owner_email = None,
     tk_owner_is_admin = True, tk_revoked_at = None\<rparr>"

definition ex_node :: "string \<Rightarrow> string \<Rightarrow> i64 \<Rightarrow> ipv4 \<Rightarrow> ipv6 \<Rightarrow> NodeState" where
  "ex_node k name t a4 a6 = \<lparr>nd_id = k, nd_network_id = ''net-a'', nd_name = name,
     nd_machine_public_key = ''m'', nd_wg_public_key = ''w'', nd_ipv4 = show_ipv4 a4,
     nd_ipv6 = show_ipv6 a6, nd_endpoints = [], nd_tags = [], nd_owner_user_id = None,
     nd_owner_email = None, nd_owner_is_admin = True, nd_routes = [], nd_created_at = t,
     nd_last_seen = t, nd_probe_requested_at = None, nd_approved = True, nd_approved_at = Some t,
     nd_auth_secret = None, nd_auth_expires_at = None, nd_node_token = Some (k @ ''-secret''),
     nd_revoked_at = None, nd_key_history = initial_key_history ''m'' ''w'' t\<rparr>"

definition ex_node1 :: NodeState where
  "ex_node1 = ex_node ''nd1'' ''alpha'' 1010 0x0A00000A 0xfd00000000000000000000000000000a"

definition ex_node2 :: NodeState where
  "ex_node2 = ex_node ''nd2'' ''beta'' 1020 0x0A00000B 0xfd00000000000000000000000000000b"

definition ex_log1 :: AuditEntry where
  "ex_log1 = \<lparr>ae_id = ''net-a-x'', ae_timestamp = 1000, ae_network_id = Some ''net-a'',
     ae_node_id = None, ae_action = ''network.create'',
     ae_detail = Some (JObj [(''name'', JStr ''n''), (''requires_approval'', JBool False),
       (''key_rotation_max_age_seconds'', JNull)])\<rparr>"

definition ex_log2 :: "string \<Rightarrow> i64 \<Rightarrow> AuditEntry" where
  "ex_log2 k t = \<lparr>ae_id = k @ ''-x'', ae_timestamp = t, ae_network_id = Some ''net-a'',
     ae_node_id = Some k, ae_action = ''node.register'',
     ae_detail = Some (JObj [(''approved'', JBool True), (''owner_user_id'', JNull),
       (''owner_email'', JNull), (''owner_is_admin'', JBool True)])\<rparr>"

definition ex_st1 :: State where
  "ex_st1 = \<lparr>st_version = 1, st_revision = 1, st_networks = [(''net-a'', ex_net 10 10)],
     st_nodes = [], st_tokens = [(''net-a-secret'', ex_tok 2)], st_audit_log = [ex_log1]\<rparr>"

definition ex_st2 :: State where
  "ex_st2 = \<lparr>st_version = 1, st_revision = 2, st_networks = [(''net-a'', ex_net 11 11)],
     st_nodes = [(''nd1'', ex_node1)], st_tokens = [(''net-a-secret'', ex_tok 1)],
     st_audit_log = [ex_log1, ex_log2 ''nd1'' 1010]\<rparr>"

definition ex_st3 :: State where
  "ex_st3 = \<lparr>st_version = 1, st_revision = 3, st_networks = [(''net-a'', ex_net 12 12)],
     st_nodes = [(''nd1'', ex_node1), (''nd2'', ex_node2)], st_tokens = [],
     st_audit_log = [ex_log1, ex_log2 ''nd1'' 1010, ex_log2 ''nd2'' 1020]\<rparr>"

lemmas ex_write_eval = ex_run_def respond_def run_write_def store_write_def write_state_db_def
  all_ok_def bump_revision_def saturating_add_def Let_def hm_contains_key_def hm_get_def hm_insert_def
  hm_remove_def put_network_def put_node_def put_token_def audit_def push_audit_def
  build_audit_entry_def json_opt_def

lemma ex_store1_eval: "ex_store1 = Db (Some ex_st1)"
  by (simp add: ex_store1_def ex_store0_def ex_write_eval ex_create_def create_network_def ex_app_admin
      create_network_state_def derive_overlay_prefixes_def initial_ipv4_offset_def
      initial_ipv6_offset_def create_network_tx_def state_default_def hm_values_def hm_empty_def
      build_token_def i64_add_def as_i64_def nonempty_trimmed_def short_id_def ex_st1_def ex_net_def
      ex_tok_def ex_log1_def)

lemma ex_store2_eval: "ex_store2 = Db (Some ex_st2)"
  by (simp add: ex_store2_def ex_store1_eval ex_write_eval ex_register_def register_def ex_names
      register_tx_def ex_st1_def ex_net_def ex_tok_def ensure_unique_node_name_def hm_values_def
      allocate_node_ips_def register_node_def spend_token_def saturating_sub_def
      ex_st2_def ex_node1_def ex_node_def ex_log2_def split: sum.split)

lemma ex_store3_eval: "ex_store3 = Db (Some ex_st3)"
  by (simp add: ex_store3_def ex_store2_eval ex_write_eval ex_register_def register_def ex_names
      register_tx_def ex_st2_def ex_net_def ex_tok_def ensure_unique_node_name_def hm_values_def
      allocate_node_ips_def register_node_def spend_token_def saturating_sub_def
      name_conflicts_def eq_ignore_ascii_case_def ascii_lower_def
      ex_st3_def ex_node1_def ex_node2_def ex_node_def ex_log2_def split: sum.split)

text \<open>A second network next to the first.\<close>

definition ex_two_networks :: "State StoreBackend" where
  "ex_two_networks = ex_run (ex_env 1030 ''net-b'') (bearer ''root'') (ex_create ''10.1.0.0/30'' ''fd01::/127'') ex_store1"

definition ex_net_b :: NetworkState where
  "ex_net_b = \<lparr>net_id = ''net-b'', net_name = ''n'', net_overlay_v4 = ''10.1.0.0/30'',
     net_overlay_v6 = ''fd01::/127'', net_dns_domain = ''net-net.lightscale'',
     net_requires_approval = False, net_acl = acl_policy_default,
     net_key_policy = \<lparr>kp_max_age_seconds = None\<rparr>, net_created_at = 1030,
     net_next_ipv4 = 1, net_next_ipv6 = 1\<rparr>"

definition ex_two_st :: State where
  "ex_two_st = ex_st1\<lparr>st_revision := 2, st_networks := [(''net-a'', ex_net 10 10), (''net-b'', ex_net_b)],
     st_tokens := [(''net-a-secret'', ex_tok 2),
       (''net-b-secret'', (ex_tok 2)\<lparr>tk_token := ''net-b-secret'', tk_network_id := ''net-b'', tk_expires_at := 1090\<rparr>)],
     st_audit_log := [ex_log1, ex_log1\<lparr>ae_id := ''net-b-x'', ae_timestamp := 1030, ae_network_id := Some ''net-b''\<rparr>]\<rparr>"

lemma ex_ext_eval_b [simp]:
  "v4_parse ex_ext ''10.1.0.0/30'' = Some (30, 0x0A010000)"
  "v6_parse ex_ext ''fd01::/127'' = Some (127, 0xfd010000000000000000000000000000)"
  "max_ipv4_offset ex_ext (30, 0x0A010000) = Some 2"
  "max_ipv6_offset ex_ext (127, 0xfd010000000000000000000000000000) = 1"
  "ipv4_nets_overlap ex_ext (30, 0x0A010000) (24, 0x0A000000) = False"
  "ipv6_nets_overlap ex_ext (127, 0xfd010000000000000000000000000000)
     (64, 0xfd000000000000000000000000000000) = False"
  by (simp_all add: ex_ext_def ex_parse4_def ex_parse6_def max_ipv4_offset_def max_ipv6_offset_def
      saturating_sub_def Let_def ipv4_nets_overlap_def ipv6_nets_overlap_def)

lemma ex_initial_b: "initial_ipv6_offset ex_ext (127, 0xfd010000000000000000000000000000) = 1"
  by (simp add: initial_ipv6_offset_def word_le_nat_alt)

lemma ex_two_networks_eval: "ex_two_networks = Db (Some ex_two_st)"
  by (simp add: ex_two_networks_def ex_store1_eval ex_write_eval ex_create_def create_network_def ex_app_admin
      create_network_state_def derive_overlay_prefixes_def initial_ipv4_offset_def
      ex_initial_b create_network_tx_def ex_st1_def hm_values_def
      build_token_def i64_add_def as_i64_def nonempty_trimmed_def short_id_def ex_two_st_def ex_net_def
      ex_net_b_def ex_tok_def ex_log1_def)

lemma ex_two_networks_reachable: "reachable plain_serde ex_ext ex_two_networks {#}"
  by (simp add: ex_two_networks_def ex_store1_def ex_run_reachable ex_store0_reachable)

section \<open>Two requests that overlap\<close>

text \<open>The first two requests of the session on the file backend; the second snapshot is written first.\<close>

definition ex_file :: "State \<Rightarrow> State option \<Rightarrow> State StoreBackend" where
  "ex_file inner contents = File inner (Some ''s'') (\<lambda>p. if p = ''s'' then contents else None)"

lemma ex_started1:
  obtains f where "request_tx ex_ext (ex_env 1000 ''net-a'') ex_app (bearer ''root'')
      (ex_create ''10.0.0.0/24'' ''fd00::/64'') = Some f"
    "file_mutate f state_default = (Inr ((), ex_st1), ex_st1)"
proof
  show "file_mutate (forget (create_network_tx ex_ext (ex_env 1000 ''net-a'')
      \<lparr>cn_name = ''n'', cn_overlay_v4 = Some ''10.0.0.0/24'', cn_overlay_v6 = Some ''fd00::/64'', cn_dns_domain = None,
      cn_requires_approval = None, cn_key_rotation_max_age_seconds = None,
      cn_bootstrap_token_ttl_seconds = Some 60, cn_bootstrap_token_uses = Some 2,
      cn_bootstrap_token_tags = None\<rparr> (24, 0x0A000000) (64, 0xfd000000000000000000000000000000) (ex_net 10 10)))
      state_default = (Inr ((), ex_st1), ex_st1)"
    by (simp add: ex_write_eval file_mutate_def forget_def create_network_tx_def state_default_def hm_values_def
        hm_empty_def build_token_def i64_add_def as_i64_def nonempty_trimmed_def ex_st1_def ex_net_def ex_tok_def ex_log1_def)
qed (simp add: ex_create_def authorised_def ex_app_admin create_network_state_def derive_overlay_prefixes_def
    initial_ipv4_offset_def initial_ipv6_offset_def short_id_def ex_net_def Let_def)

lemma ex_started2:
  obtains f where "request_tx ex_ext (ex_env 1010 ''nd1'') ex_app no_headers (ex_register ''net-a-secret'' ''alpha'') = Some f"
    "file_mutate f ex_st1 = (Inr ((), ex_st2), ex_st2)"
proof
  show "file_mutate (forget (register_tx ex_ext (ex_env 1010 ''nd1'') \<lparr>rg_token = ''net-a-secret'', rg_node_name = ''alpha'',
      rg_machine_public_key = ''m'', rg_wg_public_key = ''w''\<rparr> ''alpha'')) ex_st1 = (Inr ((), ex_st2), ex_st2)"
    by (simp add: ex_write_eval file_mutate_def forget_def register_tx_def ex_st1_def ex_net_def ex_tok_def
        ensure_unique_node_name_def hm_values_def allocate_node_ips_def register_node_def spend_token_def
        saturating_sub_def ex_st2_def ex_node1_def ex_node_def ex_log2_def)
qed (simp add: ex_register_def ex_names)

lemma ex_persist:
  "persist_file plain_serde all_ok (Some ''s'') st (\<lambda>p. if p = ''s'' then c else None) =
     (Inr () :: unit store_error + unit, \<lambda>p. if p = ''s'' then Some st else None)"
  by (auto simp: persist_file_def all_ok_def plain_serde_def)

lemma ex_overlap_reachable: "reachable plain_serde ex_ext (ex_file ex_st2 (Some ex_st1)) {#}"
proof -
  have "reachable plain_serde ex_ext (ex_file state_default None) {#}"
    using reachable.fresh_file [of "\<lambda>p. if p = ''s'' then None else None" "''s''" plain_serde ex_ext]
    by (simp add: ex_file_def store_load_def load_state_def)
  then have "reachable plain_serde ex_ext (ex_file ex_st1 None) {#ex_st1#}"
    unfolding ex_file_def by - (rule ex_started1, rule reachable.further [OF _ store_step.started])
  then have "reachable plain_serde ex_ext (ex_file ex_st2 None) {#ex_st2, ex_st1#}"
    unfolding ex_file_def by - (rule ex_started2, rule reachable.further [OF _ store_step.started])
  then have "reachable plain_serde ex_ext (ex_file ex_st2 (Some ex_st2)) {#ex_st1#}"
    unfolding ex_file_def by (rule reachable.further [OF _ store_step.persisted [OF all_ok_torn ex_persist]])
  then show ?thesis
    unfolding ex_file_def by (rule reachable.further [OF _ store_step.persisted [OF all_ok_torn ex_persist]])
qed

end
