(* ===== verification/Enrollment_Spec.thy ===== *)
theory Enrollment_Spec
  imports Example_Env
begin

text \<open>
  What enrollment promises: the address ranges that overlap, the addresses an allocation
  hands out, what a registration needs and does, how often a token can be used, and who
  may approve a node.
\<close>

section \<open>Addresses\<close>

text \<open>
  The overlap test on IPv4 prefixes, which only compares network addresses, is true exactly
  when the two prefixes have an address in common; the same holds for IPv6.
\<close>

theorem nets_overlap_iff:
  assumes "ipnet_laws X"
  shows "(ipv4_nets_overlap X a b \<longleftrightarrow> (\<exists>addr. v4_contains X a addr \<and> v4_contains X b addr)) \<and>
    (ipv6_nets_overlap X c d \<longleftrightarrow> (\<exists>addr. v6_contains X c addr \<and> v6_contains X d addr))"
  using ipv4_nets_overlap_iff [OF assms] ipv6_nets_overlap_iff [OF assms] by blast

theorem nets_overlap_iff_witness:
  "ipv4_nets_overlap ex_ext (24, 0x0A000000) (25, 0x0A000080) \<and>
   (\<exists>addr. v4_contains ex_ext (24, 0x0A000000) addr \<and> v4_contains ex_ext (25, 0x0A000080) addr)"
proof -
  have "ipv4_nets_overlap ex_ext (24, 0x0A000000) (25, 0x0A000080)"
    by (simp add: ipv4_nets_overlap_def ex_ext_def)
  then show ?thesis
    using nets_overlap_iff [OF ex_ext_laws] by blast
qed

text \<open>
  C34: a successful allocation prints the addresses at the two counters of the network, inside its
  prefixes and without arithmetic overflow, with an IPv4 address that is not the last one
  of the prefix, and advances both counters by one.
\<close>

theorem allocate_in_range:
  assumes "ipnet_laws X" and "allocate_node_ips X network = (Inr (s4, s6), network')"
  shows "\<exists>n4 n6 a4 a6. v4_parse X (net_overlay_v4 network) = Some n4 \<and>
    v6_parse X (net_overlay_v6 network) = Some n6 \<and>
    parse_ipv4 s4 = Some a4 \<and> unat a4 = unat (v4_network X n4) + unat (net_next_ipv4 network) \<and>
    v4_contains X n4 a4 \<and> unat a4 + 1 < unat (v4_network X n4) + 2 ^ (32 - v4_prefix_len X n4) \<and>
    parse_ipv6 s6 = Some a6 \<and> unat a6 = unat (v6_network X n6) + unat (net_next_ipv6 network) \<and>
    v6_contains X n6 a6 \<and>
    network' = network\<lparr>net_next_ipv4 := net_next_ipv4 network + 1,
      net_next_ipv6 := net_next_ipv6 network + 1\<rparr>"
  using assms(2)
proof (rule allocate_node_ips_Inr)
  fix n4 n6 m
  assume n: "v4_parse X (net_overlay_v4 network) = Some n4" "v6_parse X (net_overlay_v6 network) = Some n6"
    "max_ipv4_offset X n4 = Some m" "net_next_ipv4 network \<le> m"
    "net_next_ipv6 network \<le> max_ipv6_offset X n6"
    "s4 = show_ipv4 (v4_network X n4 + net_next_ipv4 network)"
    "s6 = show_ipv6 (v6_network X n6 + net_next_ipv6 network)"
    "network' = network\<lparr>net_next_ipv4 := net_next_ipv4 network + 1,
      net_next_ipv6 := net_next_ipv6 network + 1\<rparr>"
  show ?thesis
    using n v4_offset_in_net [OF assms(1) n(3,4)] v6_offset_in_net [OF assms(1) n(5)]
      v4_offset_not_broadcast [OF n(3,4)]
    by (intro exI [of _ n4] exI [of _ n6] exI [of _ "v4_network X n4 + net_next_ipv4 network"]
        exI [of _ "v6_network X n6 + net_next_ipv6 network"]) auto
qed

theorem allocate_in_range_witness:
  "allocate_node_ips ex_ext (ex_net 10 10) = (Inr (show_ipv4 0x0A00000A,
     show_ipv6 0xfd00000000000000000000000000000a), ex_net 11 11) \<and>
   (\<exists>a4. parse_ipv4 (show_ipv4 0x0A00000A) = Some a4 \<and> v4_contains ex_ext (24, 0x0A000000) a4)"
proof -
  have *: "allocate_node_ips ex_ext (ex_net 10 10) = (Inr (show_ipv4 0x0A00000A,
     show_ipv6 0xfd00000000000000000000000000000a), ex_net 11 11)"
    by (simp add: allocate_node_ips_def ex_net_def)
  moreover have "v4_parse ex_ext (net_overlay_v4 (ex_net 10 10)) = Some (24, 0x0A000000)"
    by (simp add: ex_net_def)
  ultimately show ?thesis
    using allocate_in_range [OF ex_ext_laws *] by (metis option.inject)
qed

section \<open>Registration\<close>

text \<open>
  C15: a registration succeeds only with a stored token that has not expired, has not been revoked
  and has a use left, under a name no active node of the network has, in an existing
  network with free addresses.
\<close>

theorem register_needs_token:
  assumes "register_tx X E req name st = (Inr node_id, st')"
  shows "\<exists>tok net a4 a6 net'. hm_get (st_tokens st) (rg_token req) = Some tok \<and>
    now_unix E 0 < tk_expires_at tok \<and> tk_revoked_at tok = None \<and> tk_uses_left tok \<noteq> 0 \<and>
    (\<forall>node\<in>set (hm_values (st_nodes st)). \<not> name_conflicts (tk_network_id tok) name None node) \<and>
    hm_get (st_networks st) (tk_network_id tok) = Some net \<and>
    allocate_node_ips X net = (Inr (a4, a6), net')"
  using register_tx_needs [OF assms]
  by (auto simp: ensure_unique_node_name_def list_ex_iff split: if_splits)

text \<open>The example session's first registration, as a closure.\<close>

definition ex_req :: "string \<Rightarrow> RegisterRequest" where
  "ex_req name = \<lparr>rg_token = ''net-a-secret'', rg_node_name = name, rg_machine_public_key = ''m'',
     rg_wg_public_key = ''w''\<rparr>"

lemma ex_register_tx:
  "register_tx ex_ext (ex_env 1010 ''nd1'') (ex_req ''alpha'') ''alpha'' ex_st1 =
     (Inr ''nd1'', ex_st2\<lparr>st_revision := 1\<rparr>)"
  by (simp add: register_tx_def ex_req_def ex_st1_def ex_net_def ex_tok_def ensure_unique_node_name_def
      hm_values_def allocate_node_ips_def register_node_def spend_token_def saturating_sub_def
      ex_st2_def ex_node1_def ex_node_def ex_log2_def Let_def hm_get_def hm_insert_def put_network_def
      put_node_def put_token_def audit_def push_audit_def build_audit_entry_def json_opt_def)

theorem register_needs_token_witness:
  "\<exists>tok. hm_get (st_tokens ex_st1) ''net-a-secret'' = Some tok \<and> 1010 < tk_expires_at tok \<and>
     tk_uses_left tok \<noteq> 0"
  using register_needs_token [OF ex_register_tx] by (auto simp: ex_req_def)



section \<open>Uses of a token\<close>

text \<open>
  A sequence of registrations, each with its own environment and outcome, and how many of
  them succeeded with a given token. A registration that fails passes on the state its
  closure left behind.
\<close>

fun registrations ::
  "('n4, 'n6) externals \<Rightarrow> string \<Rightarrow> (env \<times> RegisterRequest \<times> string) list \<Rightarrow> State \<Rightarrow> nat"
where
  "registrations X t [] st = 0"
| "registrations X t ((E, req, name) # rest) st =
     (case register_tx X E req name st of
        (Inr _, st') \<Rightarrow> (if rg_token req = t then 1 else 0) + registrations X t rest st'
      | (Inl _, st') \<Rightarrow> registrations X t rest st')"

definition uses_of :: "string \<Rightarrow> State \<Rightarrow> nat" where
  "uses_of t st = (case hm_get (st_tokens st) t of None \<Rightarrow> 0 | Some tok \<Rightarrow> unat (tk_uses_left tok))"

lemma spend_token_uses:
  assumes "spend_token k st = (res, st')"
  shows "uses_of t st' + (if k = t \<and> (\<exists>r. res = Inr r) \<and> uses_of t st \<noteq> 0 then 1 else 0) = uses_of t st"
proof (cases "hm_get (st_tokens st) k")
  case (Some tok)
  have "saturating_sub (tk_uses_left tok) 1 = 0 \<Longrightarrow> unat (tk_uses_left tok) \<le> 1"
    by (auto simp: saturating_sub_def word_le_nat_alt split: if_splits)
  moreover have "unat (saturating_sub (tk_uses_left tok) 1) = unat (tk_uses_left tok) - 1"
    by (auto simp: saturating_sub_def unat_sub word_le_nat_alt)
  ultimately show ?thesis
    using assms Some
    by (auto simp: spend_token_def Let_def uses_of_def hm_simps split: if_splits)
qed (use assms in \<open>auto simp: spend_token_def\<close>)

lemma register_tx_uses:
  assumes "register_tx X E req name st = (res, st')"
  shows "uses_of t st' + (if rg_token req = t \<and> (\<exists>r. res = Inr r) then 1 else 0) \<le> uses_of t st"
proof (cases res)
  case (Inl e)
  then show ?thesis
    using register_tx_failed [of X E req name st e st'] assms by (simp add: uses_of_def)
next
  case (Inr r)
  obtain tok net a4 a6 net' where tok: "hm_get (st_tokens st) (rg_token req) = Some tok"
      "now_unix E 0 < tk_expires_at tok" "tk_revoked_at tok = None" "tk_uses_left tok \<noteq> 0"
      "ensure_unique_node_name st (tk_network_id tok) name None = Inr ()"
      "hm_get (st_networks st) (tk_network_id tok) = Some net"
      "allocate_node_ips X net = (Inr (a4, a6), net')"
    using register_tx_needs assms unfolding Inr by blast
  have "hm_get (st_tokens st') = (hm_get (st_tokens st))(rg_token req :=
      (if tk_uses_left tok = 1 then None else Some (tok\<lparr>tk_uses_left := tk_uses_left tok - 1\<rparr>)))"
    using register_tx_ok [OF tok] assms by auto
  moreover have "1 \<le> tk_uses_left tok"
    using tok(4) by (simp add: word_le_nat_alt Suc_le_eq unat_gt_0)
  ultimately show ?thesis
    using tok(1) by (auto simp: uses_of_def unat_sub word_le_nat_alt)
qed

text \<open>
  C14: an enrollment token admits at most as many nodes as it has uses left, in any sequence of
  registrations, with any clock and under any mixture of failures.
\<close>

theorem token_uses_bound: "registrations X t regs st \<le> uses_of t st"
proof (induction regs arbitrary: st)
  case (Cons r regs)
  obtain E req name where r: "r = (E, req, name)" by (cases r)
  obtain res st' where tx: "register_tx X E req name st = (res, st')" by fastforce
  show ?case
    using register_tx_uses [OF tx, of t] Cons.IH [of st'] r tx by (cases res) auto
qed simp

section \<open>Approval\<close>

text \<open>
  C38: a node that waits for approval becomes approved through its link exactly when the secret in
  the link is the one it was registered with and has not expired; the secret is erased
  with the approval, and any other secret leaves the node as it was.
\<close>

theorem approve_by_secret:
  assumes "hm_get (st_nodes st) nid = Some node" and "\<not> nd_approved node"
    and "nd_auth_secret node = Some sec" and "nd_auth_expires_at node = Some t"
  shows "if secret = sec \<and> now_unix E 0 < t
    then \<exists>st' node'. approve_node_secret_tx X E nid secret st = (Inr node', st') \<and>
      hm_get (st_nodes st') nid = Some node' \<and> nd_approved node' \<and> nd_approved_at node' = Some (now_unix E 0) \<and>
      nd_auth_secret node' = None \<and> (\<forall>k. k \<noteq> nid \<longrightarrow> hm_get (st_nodes st') k = hm_get (st_nodes st) k)
    else \<exists>msg. approve_node_secret_tx X E nid secret st = (Inl (Unauthorized msg), st)"
  using assms by (auto simp: approve_node_secret_tx_def Let_def hm_simps mark_approved_def)

definition ex_waiting :: State where
  "ex_waiting = state_default\<lparr>st_nodes := [(''nd1'', ex_node1\<lparr>nd_approved := False,
     nd_auth_secret := Some ''s3cret'', nd_auth_expires_at := Some 2000\<rparr>)]\<rparr>"

theorem approve_by_secret_witness:
  "(\<exists>st' node'. approve_node_secret_tx ex_ext (ex_env 1500 ''x'') ''nd1'' ''s3cret'' ex_waiting = (Inr node', st') \<and>
      nd_approved node') \<and>
   (\<exists>msg. approve_node_secret_tx ex_ext (ex_env 1500 ''x'') ''nd1'' ''guess'' ex_waiting = (Inl (Unauthorized msg), ex_waiting))"
proof -
  let ?n = "ex_node1\<lparr>nd_approved := False, nd_auth_secret := Some ''s3cret'', nd_auth_expires_at := Some 2000\<rparr>"
  have *: "hm_get (st_nodes ex_waiting) ''nd1'' = Some ?n" "\<not> nd_approved ?n"
    "nd_auth_secret ?n = Some ''s3cret''" "nd_auth_expires_at ?n = Some 2000"
    by (simp_all add: ex_waiting_def hm_get_def)
  show ?thesis
    using approve_by_secret [OF *, of "''s3cret''" "ex_env 1500 ''x''" ex_ext]
      approve_by_secret [OF *, of "''guess''" "ex_env 1500 ''x''" ex_ext]
    by auto
qed

section \<open>Names\<close>

text \<open>
  After a registration no other node of the network that is not revoked has the new node's
  name, up to the case of ASCII letters.
\<close>

theorem register_name_unique:
  assumes "wf_state X st" and "register_tx X E req name st = (Inr node_id, st')"
    and "hm_get (st_nodes st') node_id = Some node" and "hm_get (st_nodes st') k = Some other"
    and "k \<noteq> node_id" and "nd_network_id other = nd_network_id node" and "nd_revoked_at other = None"
  shows "\<not> eq_ignore_ascii_case (nd_name other) (nd_name node)"
proof -
  note wf = assms(1) [unfolded wf_state_def]
  obtain tok net a4 a6 net' where tok: "hm_get (st_tokens st) (rg_token req) = Some tok"
      "now_unix E 0 < tk_expires_at tok" "tk_revoked_at tok = None" "tk_uses_left tok \<noteq> 0"
      "ensure_unique_node_name st (tk_network_id tok) name None = Inr ()"
      "hm_get (st_networks st) (tk_network_id tok) = Some net"
      "allocate_node_ips X net = (Inr (a4, a6), net')"
    using register_tx_needs [OF assms(2)] by blast
  have "net_id net' = tk_network_id tok"
    using wf_network_allocated(4) [OF wf_maps_network [OF wf tok(6)] tok(7)]
      wf_maps_network [OF wf tok(6)] by (simp add: wf_network_def)
  then have node: "nd_name node = name" "nd_network_id node = tk_network_id tok"
    and other: "hm_get (st_nodes st) k = Some other"
    using register_tx_ok [OF tok] assms(2-5) by (auto simp: hm_simps)
  show ?thesis
    using ensure_unique_node_name_Inr [OF tok(5) wf_mapsD(2) [OF wf] other] assms(6,7) node
    by (simp add: name_conflicts_def)
qed

theorem register_name_unique_witness:
  "\<not> eq_ignore_ascii_case (nd_name ex_node1) (nd_name ex_node2)"
proof -
  obtain st where st: "current ex_store2 = Some st" "wf_state ex_ext st"
    using reachable_current [OF ex_ext_laws plain_serde_ok ex_store2_reachable] by blast
  then have wf: "wf_state ex_ext ex_st2"
    by (simp add: ex_store2_eval)
  have tx: "register_tx ex_ext (ex_env 1020 ''nd2'') (ex_req ''beta'') ''beta'' ex_st2 =
      (Inr ''nd2'', ex_st3\<lparr>st_revision := 2\<rparr>)"
    by (simp add: register_tx_def ex_req_def ex_st2_def ex_net_def ex_tok_def ensure_unique_node_name_def
        hm_values_def allocate_node_ips_def register_node_def spend_token_def saturating_sub_def
        name_conflicts_def eq_ignore_ascii_case_def ascii_lower_def ex_st3_def ex_node1_def ex_node2_def
        ex_node_def ex_log2_def Let_def hm_get_def hm_insert_def hm_remove_def put_network_def
        put_node_def put_token_def audit_def push_audit_def build_audit_entry_def json_opt_def)
  show ?thesis
    by (rule register_name_unique [OF wf tx, where k = "''nd1''"])
      (simp_all add: ex_st3_def hm_get_def ex_node1_def ex_node2_def ex_node_def)
qed

end
