(* ===== verification/Admin_Spec.thy ===== *)
theory Admin_Spec
  imports Example_Env "HOL-Library.Multiset"
begin

text \<open>
  What the administrative handlers and the key handlers promise, and the two places where
  the file backend keeps part of a request that was refused.
\<close>

section \<open>Networks\<close>


definition ex_bad_req :: CreateNetworkRequest where
  "ex_bad_req = \<lparr>cn_name = ''n'', cn_overlay_v4 = Some ''10.0.0.0/24'', cn_overlay_v6 = Some ''fd00::/64'',
     cn_dns_domain = Some ''d'', cn_requires_approval = None, cn_key_rotation_max_age_seconds = None,
     cn_bootstrap_token_ttl_seconds = Some 0, cn_bootstrap_token_uses = None,
     cn_bootstrap_token_tags = None\<rparr>"


text \<open>
  A network is deleted exactly when it exists and no node belongs to it; then its enrollment
  tokens go with it, the tokens of other networks and all nodes stay.
\<close>

theorem delete_network_effect:
  assumes "wf_state X st" and "delete_network_tx X E nid st = (res, st')"
  shows "if hm_contains_key (st_networks st) nid \<and>
      (\<forall>k node. hm_get (st_nodes st) k = Some node \<longrightarrow> nd_network_id node \<noteq> nid)
    then res = Inr () \<and> hm_get (st_networks st') = (hm_get (st_networks st))(nid := None) \<and>
      st_nodes st' = st_nodes st \<and>
      (\<forall>k tok. hm_get (st_tokens st') k = Some tok \<longleftrightarrow>
         hm_get (st_tokens st) k = Some tok \<and> tk_network_id tok \<noteq> nid)
    else (\<exists>e. res = Inl e) \<and> st' = st"
proof -
  note D = wf_mapsD [OF assms(1) [unfolded wf_state_def]]
  have "filter (\<lambda>node. nd_network_id node = nid) (hm_values (st_nodes st)) = [] \<longleftrightarrow>
      (\<forall>k node. hm_get (st_nodes st) k = Some node \<longrightarrow> nd_network_id node \<noteq> nid)"
    unfolding filter_empty_conv Ball_def hm.vals_iff [OF D(2)] by blast
  with assms(2) D(3) show ?thesis
    by (auto simp: delete_network_tx_def Let_def hm_simps hm.get_keep split: if_splits)
qed

theorem delete_network_effect_witness:
  "(\<exists>e. fst (delete_network_tx ex_ext (ex_env 5 ''x'') ''net-a'' ex_st2) = Inl e) \<and>
   fst (delete_network_tx ex_ext (ex_env 5 ''x'') ''net-a'' ex_st1) = Inr ()"
proof -
  have wf: "wf_state ex_ext ex_st1" "wf_state ex_ext ex_st2"
    using reachable_current [OF ex_ext_laws plain_serde_ok ex_store1_reachable]
      reachable_current [OF ex_ext_laws plain_serde_ok ex_store2_reachable]
    by (metis current_simps(2) ex_store1_eval option.inject, metis current_simps(2) ex_store2_eval option.inject)
  have "hm_get (st_nodes ex_st2) ''nd1'' = Some ex_node1" "nd_network_id ex_node1 = ''net-a''"
    "hm_contains_key (st_networks ex_st1) ''net-a''" "hm_get (st_nodes ex_st1) k = None" for k
    by (simp_all add: ex_st1_def ex_st2_def hm_get_def hm_contains_key_def ex_node1_def ex_node_def)
  then show ?thesis
    using delete_network_effect [OF wf(1), of "ex_env 5 ''x''" "''net-a''"]
      delete_network_effect [OF wf(2), of "ex_env 5 ''x''" "''net-a''"]
    by (metis option.distinct(1) prod.collapse)
qed

section \<open>Keys\<close>

text \<open>
  Revoking a node takes it out of service: it stops counting as approved under every policy and
  at every time, and no record of its key history is current any more.
\<close>

theorem revoke_node_effect:
  assumes "revoke_node_tx X E nid st = (Inr node, st')"
  shows "hm_get (st_nodes st') nid = Some node \<and> nd_revoked_at node = Some (now_unix E 0) \<and>
    \<not> fst (effective_node_status node kp t) \<and> current_key_created_at node kt = None"
  using assms
  by (auto simp: revoke_node_tx_def Let_def hm_simps effective_approved_iff revoke_node_keys_not_current
      split: option.splits)

theorem revoke_node_effect_witness:
  "\<exists>node st'. revoke_node_tx ex_ext (ex_env 1100 ''x'') ''nd1'' ex_st3 = (Inr node, st') \<and>
     \<not> fst (effective_node_status node \<lparr>kp_max_age_seconds = None\<rparr> 1200)"
proof -
  obtain node st' where tx: "revoke_node_tx ex_ext (ex_env 1100 ''x'') ''nd1'' ex_st3 = (Inr node, st')"
    by (simp add: revoke_node_tx_def ex_st3_def hm_get_def Let_def)
  then show ?thesis
    using revoke_node_effect [OF tx] by blast
qed





text \<open>
  A rotation that is refused because of its second key has already replaced the first one. With
  the file backend the request is answered with \<open>BadRequest\<close> and the node has the new
  machine key; with the database backend nothing has changed.
\<close>

theorem rotate_keys_refused_but_kept:
  assumes "hm_get (st_nodes st) nid = Some old" and "require_node h (app_admin_token app) old = Inr ()"
    and "kq_machine_public_key req = Some m" and "m \<noteq> nd_machine_public_key old"
    and "kq_wg_public_key req = Some (nd_wg_public_key old)"
    and "rotate_keys S io X E app h nid req (File st path disk) = (res, s1)"
    and "rotate_keys S io X E app h nid req (Db (Some st)) = (res', s2)"
  shows "res = Inl (BadRequest ''wg_public_key unchanged'') \<and>
    (\<exists>st' node. current s1 = Some st' \<and> hm_get (st_nodes st') nid = Some node \<and>
       nd_machine_public_key node = m) \<and> current s2 = Some st"
proof -
  obtain st' where "rotate_keys_tx X E (app_admin_token app) h nid req st =
      (Inl (BadRequest ''wg_public_key unchanged''), st')"
    "\<exists>node. hm_get (st_nodes st') nid = Some node \<and> nd_machine_public_key node = m"
    using assms(1-5) by (simp add: rotate_keys_tx_def Let_def hm_simps)
  then show ?thesis
    using assms(3,6,7)
    by (auto simp: rotate_keys_def run_write_def store_write_def file_write_cases write_state_db_def
        map_store_err_def split: if_splits)
qed

theorem rotate_keys_refused_but_kept_witness:
  "\<exists>s1 st' node. rotate_keys plain_serde all_ok ex_ext (ex_env 1200 ''y'') ex_app (bearer ''root'') ''nd1''
     \<lparr>kq_machine_public_key = Some ''m2'', kq_wg_public_key = Some ''w''\<rparr> (File ex_st3 None (\<lambda>_. None)) =
       (Inl (BadRequest ''wg_public_key unchanged''), s1) \<and>
     current s1 = Some st' \<and> hm_get (st_nodes st') ''nd1'' = Some node \<and> nd_machine_public_key node = ''m2''"
proof -
  let ?req = "\<lparr>kq_machine_public_key = Some ''m2'', kq_wg_public_key = Some ''w''\<rparr>"
  let ?run = "rotate_keys plain_serde all_ok ex_ext (ex_env 1200 ''y'') ex_app (bearer ''root'') ''nd1'' ?req"
  have *: "hm_get (st_nodes ex_st3) ''nd1'' = Some ex_node1"
    "require_node (bearer ''root'') (app_admin_token ex_app) ex_node1 = Inr ()"
    "kq_machine_public_key ?req = Some ''m2''" "''m2'' \<noteq> nd_machine_public_key ex_node1"
    "kq_wg_public_key ?req = Some (nd_wg_public_key ex_node1)"
    by (simp_all add: ex_st3_def hm_get_def require_node_iff bearer_token_bearer_root ex_app_def
        ex_node1_def ex_node_def)
  obtain res s1 where 1: "?run (File ex_st3 None (\<lambda>_. None)) = (res, s1)" by fastforce
  obtain res' s2 where 2: "?run (Db (Some ex_st3)) = (res', s2)" by fastforce
  show ?thesis
    using rotate_keys_refused_but_kept [OF * 1 2] 1 by blast
qed

section \<open>The audit log and the token list\<close>

text \<open>
  The audit query returns, in the order of the log, the entries that match every filter given,
  and with a limit the last ones of them, as many as there are up to the limit.
\<close>

theorem audit_query_spec:
  "\<exists>es. audit_log_query q st = Inr es \<and>
     suffix es (filter (\<lambda>e. (\<forall>n. aq_network_id q = Some n \<longrightarrow> ae_network_id e = Some n) \<and>
        (\<forall>n. aq_node_id q = Some n \<longrightarrow> ae_node_id e = Some n)) (st_audit_log st)) \<and>
     length es = (let all = length (filter (audit_matches q) (st_audit_log st)) in
       case aq_limit q of None \<Rightarrow> all | Some l \<Rightarrow> min l all)"
proof -
  have "audit_matches q = (\<lambda>e. (\<forall>n. aq_network_id q = Some n \<longrightarrow> ae_network_id e = Some n) \<and>
      (\<forall>n. aq_node_id q = Some n \<longrightarrow> ae_node_id e = Some n))"
    by (rule ext) (auto simp: audit_matches_def split: option.splits)
  then show ?thesis
    by (auto simp: audit_log_query_def Let_def suffix_drop min_def split: option.splits)
qed

theorem audit_query_spec_witness:
  "\<exists>es. audit_log_query \<lparr>aq_network_id = Some ''net-a'', aq_node_id = None, aq_limit = Some 2\<rparr> ex_st3 = Inr es \<and>
     length es = 2"
proof -
  let ?q = "\<lparr>aq_network_id = Some ''net-a'', aq_node_id = None, aq_limit = Some 2\<rparr>"
  have "length (filter (audit_matches ?q) (st_audit_log ex_st3)) = 3"
    by (simp add: ex_st3_def audit_matches_def ex_log1_def ex_log2_def)
  then show ?thesis
    using audit_query_spec [of ?q ex_st3] by (auto simp: Let_def)
qed

text \<open>
  The token list of an existing network holds exactly the views of that network's tokens, those
  that expire last first.
\<close>

theorem list_tokens_spec:
  assumes "hm_contains_key (st_networks st) nid"
  shows "\<exists>ts. list_tokens_query nid st = Inr ts \<and> sorted (rev (map et_expires_at ts)) \<and>
    mset ts = image_mset enrollment_token_from
      (filter_mset (\<lambda>t. tk_network_id t = nid) (mset (hm_values (st_tokens st))))"
  using assms by (simp add: list_tokens_query_def rev_map [symmetric] mset_filter)

theorem list_tokens_spec_witness:
  "\<exists>ts. list_tokens_query ''net-b'' ex_two_st = Inr ts \<and> length ts = 1"
proof -
  have "hm_contains_key (st_networks ex_two_st) ''net-b''"
    by (simp add: ex_two_st_def hm_contains_key_def hm_get_def)
  then obtain ts where ts: "list_tokens_query ''net-b'' ex_two_st = Inr ts"
    "mset ts = image_mset enrollment_token_from
      (filter_mset (\<lambda>t. tk_network_id t = ''net-b'') (mset (hm_values (st_tokens ex_two_st))))"
    using list_tokens_spec [of ex_two_st "''net-b''"] by blast
  have "size (mset ts) = 1"
    unfolding ts(2) by (simp add: ex_two_st_def hm_values_def ex_tok_def)
  with ts(1) show ?thesis by simp
qed

end
