(* ===== verification/Netmap_Spec.thy ===== *)
theory Netmap_Spec
  imports Example_Env
begin

text \<open>
  What a node is shown: how the access rules and the key policy decide, which peers and
  probes a netmap lists, and that the long poll returns.
\<close>

section \<open>Decisions\<close>

text \<open>
  The first access rule whose two selectors match decides; rules after it do not matter, and
  without a matching rule the default action does.
\<close>

theorem acl_first_match_decides:
  "(\<forall>before r after. acl_rules p = before @ r # after \<and> rule_applies src dst r \<and>
      (\<forall>q\<in>set before. \<not> rule_applies src dst q) \<longrightarrow>
      (acl_allows p src dst \<longleftrightarrow> rule_action r = Allow)) \<and>
   ((\<forall>q\<in>set (acl_rules p). \<not> rule_applies src dst q) \<longrightarrow>
      (acl_allows p src dst \<longleftrightarrow> acl_default_action p = Allow))"
  using acl_allows_decided acl_allows_default by blast

definition ex_deny :: AclPolicy where
  "ex_deny = \<lparr>acl_default_action = Allow, acl_rules =
     [\<lparr>rule_action = Deny, rule_src = \<lparr>sel_any = True, sel_tags = [], sel_node_ids = [], sel_names = []\<rparr>,
       rule_dst = \<lparr>sel_any = False, sel_tags = [], sel_node_ids = [''nd2''], sel_names = []\<rparr>\<rparr>]\<rparr>"

theorem acl_first_match_decides_witness: "\<not> acl_allows ex_deny ex_node1 ex_node2"
proof -
  have "rule_applies ex_node1 ex_node2 (hd (acl_rules ex_deny))" "rule_action (hd (acl_rules ex_deny)) = Deny"
    "acl_rules ex_deny = [] @ hd (acl_rules ex_deny) # []"
    by (simp_all add: rule_applies_def selector_matches_iff ex_deny_def ex_node2_def ex_node_def)
  then show ?thesis
    using acl_first_match_decides [of ex_deny ex_node1 ex_node2]
    by (metis AclAction.distinct(1) empty_iff list.set(1))
qed


lemma ex_node1_machine_key: "current_key_created_at ex_node1 Machine = Some 1010"
  by (simp add: current_key_created_at_def record_is_current_def ex_node1_def ex_node_def
      initial_key_history_def)


text \<open>
  A maximal key age of $2^{63}$ seconds or more turns negative when it is cast to a signed number:
  instead of never expiring, every key created up to now has expired.
\<close>

theorem huge_max_age_locks_out:
  assumes "kp_max_age_seconds kp = Some w" and "2 ^ 63 \<le> uint w"
    and "current_key_created_at node kt = Some t" and "t \<le> now"
  shows "effective_node_status node kp now = (False, True)"
proof -
  have "\<not> fst (effective_node_status node kp now)"
    by (rule huge_max_age_expires [OF assms])
  moreover have "snd (effective_node_status node kp now)"
    using assms as_i64_negative [OF assms(2)]
    by (auto simp: key_rotation_required_iff i64_saturating_sub_def intro!: exI [of _ kt])
  ultimately show ?thesis
    by (cases "effective_node_status node kp now") simp
qed

theorem huge_max_age_locks_out_witness:
  "effective_node_status ex_node1 \<lparr>kp_max_age_seconds = Some 0x8000000000000000\<rparr> 1010 = (False, True)"
proof -
  have "(2 :: int) ^ 63 \<le> uint (0x8000000000000000 :: u64)"
    by code_simp
  note * = huge_max_age_locks_out [OF _ this ex_node1_machine_key]
  show ?thesis
    by (rule *) simp_all
qed

section \<open>The netmap\<close>

text \<open>
  C17: the peers in a node's netmap are exactly the other nodes of its network that count as approved
  and that the access rules let it see; a node that does not itself count as approved sees none.
\<close>

theorem netmap_peers_spec:
  assumes "wf_state X st" and "build_netmap now gen st self relay = Inr nm"
    and "hm_get (st_nodes st) self = Some me" and "hm_get (st_networks st) (nd_network_id me) = Some net"
  shows "pi \<in> set (nm_peers nm) \<longleftrightarrow>
    fst (effective_node_status me (net_key_policy net) now) \<and>
    (\<exists>k peer. hm_get (st_nodes st) k = Some peer \<and> k \<noteq> self \<and> nd_network_id peer = nd_network_id me \<and>
       fst (effective_node_status peer (net_key_policy net) now) \<and>
       acl_allows (net_acl net) me peer \<and> pi = peer_info_from peer (net_dns_domain net))"
  using assms(2)
proof (rule build_netmap_Inr)
  fix node network
  assume "hm_get (st_nodes st) self = Some node"
    "hm_get (st_networks st) (nd_network_id node) = Some network"
    and nm: "nm_peers nm = (if fst (effective_node_status node (net_key_policy network) now)
       then map (\<lambda>n. peer_info_from n (net_dns_domain network))
              (filter (visible_peer network self now node) (hm_values (st_nodes st))) else [])"
  then have eq: "node = me" "network = net"
    using assms(3,4) by auto
  note wf = assms(1) [unfolded wf_state_def]
  have "net_id net = nd_network_id me"
    using wf_maps_network [OF wf assms(4)] by (simp add: wf_network_def)
  moreover have "nd_id peer = k" if "hm_get (st_nodes st) k = Some peer" for k peer
    using wf_maps_node [OF wf that] by (simp add: wf_node_def)
  ultimately show ?thesis
    unfolding nm eq using wf_mapsD(2) [OF wf]
    by (auto simp: visible_peer_def hm.vals_iff image_iff)
qed

lemma ex_st3_wf: "wf_state ex_ext ex_st3"
  using reachable_current [OF ex_ext_laws plain_serde_ok ex_store3_reachable]
  by (metis current_simps(2) ex_store3_eval option.inject)

theorem netmap_peers_spec_witness:
  "\<exists>nm. build_netmap 1500 1500 ex_st3 ''nd1'' None = Inr nm \<and>
     peer_info_from ex_node2 ''net-net.lightscale'' \<in> set (nm_peers nm)"
proof -
  let ?net = "ex_net 12 12"
  have *: "hm_get (st_nodes ex_st3) ''nd1'' = Some ex_node1" "hm_get (st_nodes ex_st3) ''nd2'' = Some ex_node2"
    "hm_get (st_networks ex_st3) (nd_network_id ex_node1) = Some ?net"
    "nd_network_id ex_node2 = nd_network_id ex_node1"
    "net_dns_domain ?net = ''net-net.lightscale''" "''nd2'' \<noteq> ''nd1''"
    "fst (effective_node_status ex_node1 (net_key_policy ?net) 1500)"
    "fst (effective_node_status ex_node2 (net_key_policy ?net) 1500)"
    "acl_allows (net_acl ?net) ex_node1 ex_node2"
    by (simp_all add: ex_st3_def hm_get_def ex_node1_def ex_node2_def ex_node_def ex_net_def
        effective_node_status_def acl_allows_def acl_policy_default_def)
  obtain nm where nm: "build_netmap 1500 1500 ex_st3 ''nd1'' None = Inr nm"
    using build_netmap_total [OF *(1,3)] by blast
  have "peer_info_from ex_node2 ''net-net.lightscale'' \<in> set (nm_peers nm)"
    unfolding netmap_peers_spec [OF ex_st3_wf nm *(1,3)] using * by metis
  with nm show ?thesis by blast
qed

text \<open>
  The probes in a netmap come from peers it lists, that asked for one at most thirty seconds ago
  (or in the future), and carry the peer's own endpoints and addresses.
\<close>

theorem netmap_probes_spec:
  assumes "build_netmap now gen st self relay = Inr nm" and "pr \<in> set (nm_probe_requests nm)"
  shows "\<exists>peer\<in>set (nm_peers nm). pr_peer_id pr = pi_id peer \<and> pr_endpoints pr = pi_endpoints peer \<and>
    pr_ipv4 pr = pi_ipv4 peer \<and> pr_ipv6 pr = pi_ipv6 peer \<and>
    (\<exists>node. hm_get (st_nodes st) (pi_id peer) = Some node \<and>
       nd_probe_requested_at node = Some (pr_requested_at pr)) \<and> now - pr_requested_at pr \<le> 30"
proof -
  have "nm_probe_requests nm = collect_probe_requests st (nm_peers nm) now"
    using assms(1) by (rule build_netmap_Inr)
  with assms(2) obtain peer where "peer \<in> set (nm_peers nm)" "probe_request st now peer = Some pr"
    by (auto simp: collect_probe_requests_set)
  then show ?thesis
    using probe_request_Some [of st now peer pr] by blast
qed

definition ex_probing :: State where
  "ex_probing = ex_st3\<lparr>st_nodes := [(''nd1'', ex_node1), (''nd2'', ex_node2\<lparr>nd_probe_requested_at := Some 1490\<rparr>)]\<rparr>"

theorem netmap_probes_spec_witness:
  "\<exists>nm pr. build_netmap 1500 1500 ex_probing ''nd1'' None = Inr nm \<and> pr \<in> set (nm_probe_requests nm) \<and>
     1500 - pr_requested_at pr \<le> 30"
proof -
  let ?pr = "\<lparr>pr_peer_id = ''nd2'', pr_endpoints = [], pr_ipv4 = nd_ipv4 ex_node2, pr_ipv6 = nd_ipv6 ex_node2,
    pr_requested_at = 1490\<rparr>"
  obtain nm where nm: "build_netmap 1500 1500 ex_probing ''nd1'' None = Inr nm"
    and pr: "?pr \<in> set (nm_probe_requests nm)"
    by (simp add: build_netmap_def ex_probing_def ex_st3_def hm_get_def ex_node1_def ex_node2_def ex_node_def
        ex_net_def effective_node_status_def acl_allows_def acl_policy_default_def collect_peers_def
        hm_values_def Let_def peer_info_from_def collect_probe_requests_def List.map_filter_def
        probe_request_def i64_saturating_sub_def PROBE_TTL_SECONDS_def)
  show ?thesis
    using netmap_probes_spec [OF nm pr] nm pr by blast
qed

section \<open>The long poll\<close>

text \<open>
  C20: the long poll returns, after at most two turns for each second of its timeout and never more
  than 601 turns, since a turn sleeps at least half a second. What it returns is the result
  of a turn: the error of the store, or a netmap that is newer than the client's revision
  or was built after the deadline; every earlier turn saw no newer revision.
\<close>

theorem longpoll_returns:
  assumes "sleeps_between start turns"
  shows "\<exists>k since deadline res. k \<le> 600 \<and> k \<le> 2 * unat (longpoll_timeout params) \<and>
    since = (case lp_since params of Some s \<Rightarrow> s | None \<Rightarrow> 0) \<and>
    deadline = start + unat (longpoll_timeout params) * 1000 \<and>
    netmap_longpoll app h nid params start turns = Some res \<and>
    longpoll_turn app h nid since deadline (turns k) = Some res \<and>
    (\<forall>nm. res = Inr nm \<longrightarrow> nm_revision nm > since \<or> deadline \<le> pt_instant (turns k)) \<and>
    (\<forall>i<k. longpoll_turn app h nid since deadline (turns i) = None)"
  using assms
proof (rule netmap_longpoll_turn [where params = params and app = app and h = h and nid = nid])
  fix k since deadline res
  assume k: "k \<le> 2 * unat (longpoll_timeout params)"
    and s: "since = (case lp_since params of Some s \<Rightarrow> s | None \<Rightarrow> 0)"
      "deadline = start + unat (longpoll_timeout params) * 1000"
    and t: "longpoll_turn app h nid since deadline (turns k) = Some res"
      "\<forall>i<k. longpoll_turn app h nid since deadline (turns i) = None"
      "netmap_longpoll app h nid params start turns = Some res"
  have "nm_revision nm > since \<or> deadline \<le> pt_instant (turns k)" if "res = Inr nm" for nm
    using t(1) that by (rule longpoll_turn_newer)
  then show ?thesis
    using k s t longpoll_timeout_le [of params]
    by (intro exI [of _ k] exI [of _ since] exI [of _ deadline] exI [of _ res]) simp
qed

definition ex_turns :: "nat \<Rightarrow> State poll_turn" where
  "ex_turns k = \<lparr>pt_store = ex_store3, pt_io = all_ok, pt_env = ex_env 1500 ''x'', pt_instant = 500 * k\<rparr>"

theorem longpoll_returns_witness:
  "\<exists>res. netmap_longpoll ex_app (bearer ''root'') ''nd1'' \<lparr>lp_since = Some 3, lp_timeout_seconds = Some 2\<rparr> 0 ex_turns =
     Some res"
proof -
  have "sleeps_between 0 ex_turns"
    by (simp add: sleeps_between_def ex_turns_def)
  then show ?thesis
    using longpoll_returns by blast
qed

section \<open>Endpoints and control URLs\<close>

text \<open>
  The endpoints stored by a heartbeat are the observed one, when there is one, followed by the
  reported ones in their order; none occurs twice and none is lost.
\<close>

theorem merge_endpoints_spec:
  "distinct (merge_endpoints provided observed) \<and>
   set (merge_endpoints provided observed) = set provided \<union> set_option observed \<and>
   (\<forall>e. observed = Some e \<longrightarrow> hd (merge_endpoints provided observed) = e) \<and>
   subseq (case observed of None \<Rightarrow> merge_endpoints provided observed
     | Some _ \<Rightarrow> tl (merge_endpoints provided observed)) provided"
  by (simp add: merge_endpoints_set merge_endpoints_distinct)
    (auto simp: merge_endpoints_def subseq_retain_fresh split: option.split)

theorem merge_endpoints_spec_witness:
  "hd (merge_endpoints [''a'', ''b''] (Some ''b'')) = ''b'' \<and> set (merge_endpoints [''a'', ''b''] (Some ''b'')) = {''a'', ''b''}"
  using merge_endpoints_spec [of "[''a'', ''b'']" "Some ''b''"] by auto

text \<open>
  The topology an administrator gets lists the configured control URLs without repetition, each
  of them, with the URL inferred from the request's headers first when it is not configured.
\<close>

theorem topology_urls_spec:
  assumes "admin_topology E app h = Inr t"
  shows "distinct (ctr_control_urls t) \<and>
    set (ctr_control_urls t) = set (app_control_urls app) \<union> set_option (infer_control_url_from_headers h) \<and>
    (\<forall>u. infer_control_url_from_headers h = Some u \<and> u \<notin> set (app_control_urls app) \<longrightarrow>
       hd (ctr_control_urls t) = u)"
proof -
  obtain urls where urls: "ctr_control_urls t = dedup_strings urls"
    and u: "urls = (case infer_control_url_from_headers h of
        Some inferred \<Rightarrow> if inferred \<notin> set (app_control_urls app) then inferred # app_control_urls app
          else app_control_urls app
      | None \<Rightarrow> app_control_urls app)"
    using assms by (auto simp: admin_topology_def split: sum.splits)
  show ?thesis
    unfolding urls dedup_strings_def u
    by (auto simp: distinct_retain_fresh set_retain_fresh split: option.splits)
qed

theorem topology_urls_spec_witness:
  "\<exists>t. admin_topology (ex_env 5 ''x'') ex_app (bearer ''root'') = Inr t \<and> distinct (ctr_control_urls t)"
proof -
  obtain t where t: "admin_topology (ex_env 5 ''x'') ex_app (bearer ''root'') = Inr t"
    by (simp add: admin_topology_def ex_app_admin)
  then show ?thesis
    using topology_urls_spec by blast
qed

end
