(* ===== verification/Dns.thy ===== *)
theory Dns
  imports Example_Env
begin

text \<open>
  \<open>dns.rs\<close>: the name server for the nodes. A snapshot of the state gives the records and
  the domains it answers for; a response holds the addresses of the queried names. The
  messages and names of the \<open>hickory_proto\<close> crate are records with the fields the code
  reads and sets; the encoding of messages and the ASCII form of a name are parameters.
\<close>

section \<open>Names\<close>

text \<open>
  \<open>str::to_lowercase\<close> is the ASCII mapping on ASCII text; on other text it follows the
  tables of the Unicode standard, which \<open>unicode_lower\<close> stands for.
\<close>

definition to_lowercase :: "(string \<Rightarrow> string) \<Rightarrow> string \<Rightarrow> string" where
  "to_lowercase unicode_lower s =
     (if list_all (\<lambda>c. of_char c < (128 :: nat)) s then map ascii_lower s else unicode_lower s)"

definition normalize_name :: "(string \<Rightarrow> string) \<Rightarrow> string \<Rightarrow> string" where
  "normalize_name unicode_lower name = to_lowercase unicode_lower (trim_end_matches CHR ''.'' (trim name))"

section \<open>The snapshot\<close>

record DnsSnapshot =
  sn_records :: "(string, IpAddr list) hmap"
  sn_domains :: "string set"

definition node_record :: "(string \<Rightarrow> string) \<Rightarrow> State \<Rightarrow> NodeState \<Rightarrow> (string \<times> IpAddr list) option" where
  "node_record L st node =
     (if nd_revoked_at node \<noteq> None \<or> \<not> nd_approved node then None
      else case hm_get (st_networks st) (nd_network_id node) of
             None \<Rightarrow> None
           | Some network \<Rightarrow>
               (let dns_name = normalize_name L (nd_name node @ ''.'' @ net_dns_domain network) in
                case parse_ip (nd_ipv4 node) of
                  None \<Rightarrow> None
                | Some ipv4 \<Rightarrow>
                    (case parse_ip (nd_ipv6 node) of
                       None \<Rightarrow> None
                     | Some ipv6 \<Rightarrow> Some (dns_name, [ipv4, ipv6]))))"

definition insert_record ::
  "(string \<Rightarrow> string) \<Rightarrow> State \<Rightarrow> NodeState \<Rightarrow> (string, IpAddr list) hmap \<Rightarrow> (string, IpAddr list) hmap"
where
  "insert_record L st node records =
     (case node_record L st node of
        None \<Rightarrow> records
      | Some (dns_name, addresses) \<Rightarrow> hm_insert dns_name addresses records)"

definition snapshot_of :: "(string \<Rightarrow> string) \<Rightarrow> State \<Rightarrow> DnsSnapshot" where
  "snapshot_of L st =
     \<lparr>sn_records = fold (insert_record L st) (hm_values (st_nodes st)) hm_empty,
      sn_domains = set (map (\<lambda>network. normalize_name L (net_dns_domain network)) (hm_values (st_networks st)))\<rparr>"

definition snapshot ::
  "'c io_env \<Rightarrow> (string \<Rightarrow> string) \<Rightarrow> 'c StoreBackend \<Rightarrow> unit store_error + DnsSnapshot"
where
  "snapshot io L store = store_read io (\<lambda>st. Inr (snapshot_of L st)) store"

section \<open>Messages\<close>

datatype RecordType = A | AAAA | ANY | OtherType nat
datatype ResponseCode = NoError | NXDomain | Refused
datatype RData = RData_A ipv4 | RData_AAAA ipv6

record 'name dns_query =
  q_name :: 'name
  q_type :: RecordType

record 'name dns_record =
  rr_name :: 'name
  rr_ttl :: u32
  rr_data :: RData

record 'name dns_request =
  rq_id :: u16
  rq_op_code :: nat
  rq_recursion_desired :: bool
  rq_queries :: "'name dns_query list"

record 'name dns_response =
  rs_id :: u16
  rs_is_response :: bool
  rs_op_code :: nat
  rs_recursion_desired :: bool
  rs_recursion_available :: bool
  rs_queries :: "'name dns_query list"
  rs_answers :: "'name dns_record list"
  rs_code :: ResponseCode
  rs_authoritative :: bool

definition DNS_TTL_SECONDS :: u32 where
  "DNS_TTL_SECONDS = 30"

definition is_within_domains :: "string \<Rightarrow> string set \<Rightarrow> bool" where
  "is_within_domains name domains \<longleftrightarrow> (\<exists>domain\<in>domains. name = domain \<or> ends_with name (''.'' @ domain))"

definition build_record :: "'name \<Rightarrow> IpAddr \<Rightarrow> 'name dns_record" where
  "build_record name addr =
     (let rdata = (case addr of V4 v4 \<Rightarrow> RData_A v4 | V6 v6 \<Rightarrow> RData_AAAA v6)
      in \<lparr>rr_name = name, rr_ttl = DNS_TTL_SECONDS, rr_data = rdata\<rparr>)"

definition type_answers :: "RecordType \<Rightarrow> IpAddr \<Rightarrow> bool" where
  "type_answers qtype addr =
     (case (qtype, addr) of
        (A, V4 _) \<Rightarrow> True | (ANY, V4 _) \<Rightarrow> True
      | (AAAA, V6 _) \<Rightarrow> True | (ANY, V6 _) \<Rightarrow> True
      | _ \<Rightarrow> False)"

definition query_answers ::
  "(string \<Rightarrow> string) \<Rightarrow> ('name \<Rightarrow> string) \<Rightarrow> DnsSnapshot \<Rightarrow> 'name dns_query \<Rightarrow> 'name dns_record list"
where
  "query_answers L to_ascii snap query =
     (case hm_get (sn_records snap) (normalize_name L (to_ascii (q_name query))) of
        None \<Rightarrow> []
      | Some addresses \<Rightarrow>
          map (build_record (q_name query)) (filter (type_answers (q_type query)) addresses))"

definition build_response ::
  "'c io_env \<Rightarrow> (string \<Rightarrow> string) \<Rightarrow> ('name \<Rightarrow> string) \<Rightarrow> 'name dns_request \<Rightarrow> 'c StoreBackend
   \<Rightarrow> unit store_error + 'name dns_response"
where
  "build_response io L to_ascii request store =
     (case snapshot io L store of
        Inl e \<Rightarrow> Inl e
      | Inr snap \<Rightarrow>
          (let answers = concat (map (query_answers L to_ascii snap) (rq_queries request));
               answered = (answers \<noteq> []);
               any_within_domain =
                 list_ex (\<lambda>query. is_within_domains (normalize_name L (to_ascii (q_name query))) (sn_domains snap))
                   (rq_queries request)
           in Inr \<lparr>rs_id = rq_id request, rs_is_response = True, rs_op_code = rq_op_code request,
                   rs_recursion_desired = rq_recursion_desired request, rs_recursion_available = False,
                   rs_queries = rq_queries request, rs_answers = answers,
                   rs_code = (if answered then NoError else if any_within_domain then NXDomain else Refused),
                   rs_authoritative = True\<rparr>))"

text \<open>
  One turn of the loop of \<open>run\<close>, whose buffer keeps the first 2048 bytes of a datagram: nothing is sent for a datagram that does not decode or
  when the store cannot be read; a response that cannot be encoded ends the loop (\<open>None\<close>).
\<close>

definition dns_turn ::
  "(bytes \<Rightarrow> 'name dns_request option) \<Rightarrow> ('name dns_response \<Rightarrow> bytes option) \<Rightarrow> 'c io_env
   \<Rightarrow> (string \<Rightarrow> string) \<Rightarrow> ('name \<Rightarrow> string) \<Rightarrow> 'c StoreBackend \<Rightarrow> bytes \<times> 'peer \<Rightarrow> (bytes \<times> 'peer) list option"
where
  "dns_turn from_vec to_vec io L to_ascii store datagram =
     (case datagram of (buf, peer) \<Rightarrow>
        case from_vec (take 2048 buf) of
          None \<Rightarrow> Some []
        | Some request \<Rightarrow>
            (case build_response io L to_ascii request store of
               Inl e \<Rightarrow> Some []
             | Inr response \<Rightarrow>
                 (case to_vec response of None \<Rightarrow> None | Some out \<Rightarrow> Some [(out, peer)])))"

section \<open>Records of a snapshot\<close>

lemma fold_insert_record_get:
  "hm_get (fold (insert_record L st) nodes records) name = Some addrs \<Longrightarrow>
     hm_get records name = Some addrs \<or> (\<exists>node\<in>set nodes. node_record L st node = Some (name, addrs))"
proof (induction nodes arbitrary: records)
  case (Cons node nodes)
  then consider "hm_get (insert_record L st node records) name = Some addrs"
    | "\<exists>node\<in>set nodes. node_record L st node = Some (name, addrs)"
    by fastforce
  then show ?case
  proof cases
    case 1
    then show ?thesis
      by (cases "node_record L st node") (auto simp: insert_record_def hm_simps split: if_splits)
  qed auto
qed simp

lemma fold_insert_record_keep:
  "\<forall>node\<in>set nodes. \<forall>a. node_record L st node \<noteq> Some (name, a) \<Longrightarrow>
     hm_get (fold (insert_record L st) nodes records) name = hm_get records name"
proof (induction nodes arbitrary: records)
  case (Cons node nodes)
  then show ?case
    by (auto simp: insert_record_def hm_simps split: option.splits)
qed simp

lemma fold_insert_record_unique:
  assumes "\<exists>node\<in>set nodes. node_record L st node = Some (name, addrs)"
    and "\<forall>node\<in>set nodes. \<forall>a. node_record L st node = Some (name, a) \<longrightarrow> a = addrs"
  shows "hm_get (fold (insert_record L st) nodes records) name = Some addrs"
  using assms
proof (induction nodes arbitrary: records)
  case (Cons x nodes)
  show ?case
  proof (cases "\<exists>node\<in>set nodes. node_record L st node = Some (name, addrs)")
    case True
    then show ?thesis
      using Cons.IH [of "insert_record L st x records"] Cons.prems(2) by simp
  next
    case False
    have "node_record L st x = Some (name, addrs)"
      using Cons.prems(1) False by simp
    then have "insert_record L st x records = hm_insert name addrs records"
      by (simp add: insert_record_def)
    moreover have "\<forall>node\<in>set nodes. \<forall>a. node_record L st node \<noteq> Some (name, a)"
      using Cons.prems(2) False by (metis list.set_intros(2))
    ultimately show ?thesis
      using fold_insert_record_keep [of nodes L st name] by (simp add: hm_simps)
  qed
qed simp

lemma snapshot_ok:
  assumes "snapshot io L store = Inr snap"
  obtains st where "current store = Some st" "snap = snapshot_of L st"
  using assms
  by (cases store) (auto simp: snapshot_def store_read_def load_state_db_def split: option.splits if_splits)

text \<open>The record of a node whose addresses were allocated by the server.\<close>

lemma node_record_issued:
  assumes "nd_approved node" and "nd_revoked_at node = None"
    and "hm_get (st_networks st) (nd_network_id node) = Some net"
    and "nd_ipv4 node = show_ipv4 a4" and "nd_ipv6 node = show_ipv6 a6"
  shows "node_record L st node =
    Some (normalize_name L (nd_name node @ ''.'' @ net_dns_domain net), [V4 a4, V6 a6])"
  using assms by (simp add: node_record_def Let_def)

lemma node_record_Some:
  assumes "node_record L st node = Some (name, addrs)"
  shows "nd_approved node \<and> nd_revoked_at node = None \<and>
    (\<exists>net. hm_get (st_networks st) (nd_network_id node) = Some net \<and>
       name = normalize_name L (nd_name node @ ''.'' @ net_dns_domain net)) \<and>
    (\<exists>i4 i6. addrs = [i4, i6] \<and> parse_ip (nd_ipv4 node) = Some i4 \<and> parse_ip (nd_ipv6 node) = Some i6)"
  using assms by (auto simp: node_record_def Let_def split: if_splits option.splits)

lemma query_answers_mem:
  assumes "rr \<in> set (query_answers L to_ascii snap q)"
  shows "\<exists>addrs addr. hm_get (sn_records snap) (normalize_name L (to_ascii (q_name q))) = Some addrs \<and>
    addr \<in> set addrs \<and> type_answers (q_type q) addr \<and> rr = build_record (q_name q) addr"
  using assms
  by (cases "hm_get (sn_records snap) (normalize_name L (to_ascii (q_name q)))")
    (auto simp: query_answers_def)

section \<open>Properties\<close>


lemma ex_dns_names:
  "normalize_name id ''ALPHA.net-net.lightscale.'' = ''alpha.net-net.lightscale''"
  "normalize_name id (''alpha'' @ ''.'' @ ''net-net.lightscale'') = ''alpha.net-net.lightscale''"
  "normalize_name id (''beta'' @ ''.'' @ ''net-net.lightscale'') = ''beta.net-net.lightscale''"
  by (simp_all add: normalize_name_def trim_visible visible_def trim_end_matches_def to_lowercase_def ascii_lower_def
      char_of_eq_iff take_bit_eq_mod)

lemma ex_st3_state: "wf_state ex_ext ex_st3" "current ex_store3 = Some ex_st3"
  using reachable_current [OF ex_ext_laws plain_serde_ok ex_store3_reachable]
  by (metis current_simps(2) ex_store3_eval option.inject) (simp add: ex_store3_eval)

lemma ex_st3_nodes:
  "hm_get (st_nodes ex_st3) k = Some node \<longleftrightarrow> k = ''nd1'' \<and> node = ex_node1 \<or> k = ''nd2'' \<and> node = ex_node2"
  "hm_get (st_networks ex_st3) ''net-a'' = Some (ex_net 12 12)"
  "net_dns_domain (ex_net 12 12) = ''net-net.lightscale''"
  "nd_name ex_node1 = ''alpha''" "nd_name ex_node2 = ''beta''" "nd_network_id ex_node1 = ''net-a''"
  "nd_network_id ex_node2 = ''net-a''" "nd_approved ex_node1" "nd_revoked_at ex_node1 = None"
  "nd_approved ex_node2" "nd_revoked_at ex_node2 = None"
  by (auto simp: ex_st3_def hm_get_def ex_net_def ex_node1_def ex_node2_def ex_node_def)

lemma ex_records:
  "node_record id ex_st3 ex_node1 =
     Some (''alpha.net-net.lightscale'', [V4 0x0A00000A, V6 0xfd00000000000000000000000000000a])"
  "node_record id ex_st3 ex_node2 =
     Some (''beta.net-net.lightscale'', [V4 0x0A00000B, V6 0xfd00000000000000000000000000000b])"
  using node_record_issued [OF ex_st3_nodes(8,9), of ex_st3 "ex_net 12 12" _ _ id]
    node_record_issued [OF ex_st3_nodes(10,11), of ex_st3 "ex_net 12 12" _ _ id] ex_dns_names(2,3)
  by (simp_all add: ex_st3_nodes) (simp_all add: ex_node1_def ex_node2_def ex_node_def)

lemma ex_st3_values: "hm_values (st_nodes ex_st3) = [ex_node1, ex_node2]"
  by (simp add: ex_st3_def hm_values_def)

definition ex_query :: "string dns_request" where
  "ex_query = \<lparr>rq_id = 7, rq_op_code = 0, rq_recursion_desired = True,
     rq_queries = [\<lparr>q_name = ''ALPHA.net-net.lightscale.'', q_type = A\<rparr>]\<rparr>"


text \<open>
  C27: nothing else is ever answered: every record of a response carries the queried name, the fixed
  time to live and an address of a stored node that is approved, not revoked, and whose
  full name is the queried one.
\<close>

theorem dns_answers_only_active:
  assumes "hm_wf (st_nodes st)" and "current store = Some st"
    and "build_response io L to_ascii rq store = Inr resp" and "rr \<in> set (rs_answers resp)"
  shows "\<exists>q\<in>set (rq_queries rq). \<exists>k node net addr. hm_get (st_nodes st) k = Some node \<and>
    nd_approved node \<and> nd_revoked_at node = None \<and>
    hm_get (st_networks st) (nd_network_id node) = Some net \<and>
    normalize_name L (to_ascii (q_name q)) = normalize_name L (nd_name node @ ''.'' @ net_dns_domain net) \<and>
    (parse_ip (nd_ipv4 node) = Some addr \<or> parse_ip (nd_ipv6 node) = Some addr) \<and>
    type_answers (q_type q) addr \<and> rr = build_record (q_name q) addr"
proof -
  obtain snap where "snapshot io L store = Inr snap"
    and ans: "rs_answers resp = concat (map (query_answers L to_ascii snap) (rq_queries rq))"
    using assms(3) by (auto simp: build_response_def Let_def split: sum.splits)
  then have snap: "snap = snapshot_of L st"
    using assms(2) by (auto elim!: snapshot_ok)
  obtain q where q: "q \<in> set (rq_queries rq)" and "rr \<in> set (query_answers L to_ascii snap q)"
    using assms(4) unfolding ans by auto
  then obtain addrs addr where rec: "hm_get (sn_records snap) (normalize_name L (to_ascii (q_name q))) = Some addrs"
    and addr: "addr \<in> set addrs" "type_answers (q_type q) addr" "rr = build_record (q_name q) addr"
    using query_answers_mem by blast
  obtain node where node: "node \<in> set (hm_values (st_nodes st))"
    "node_record L st node = Some (normalize_name L (to_ascii (q_name q)), addrs)"
    using fold_insert_record_get [of L st "hm_values (st_nodes st)" hm_empty] rec
    by (auto simp: snap snapshot_of_def hm.get_empty)
  moreover obtain k where "hm_get (st_nodes st) k = Some node"
    using node(1) hm.vals_iff [OF assms(1)] by blast
  moreover have "parse_ip (nd_ipv4 node) = Some addr \<or> parse_ip (nd_ipv6 node) = Some addr"
    using node_record_Some [OF node(2)] addr(1) by auto
  ultimately show ?thesis
    using q addr(2,3) node_record_Some [OF node(2)] by blast
qed

theorem dns_answers_only_active_witness:
  "\<exists>resp rr k node. build_response all_ok id id ex_query ex_store3 = Inr resp \<and> rr \<in> set (rs_answers resp) \<and>
     hm_get (st_nodes ex_st3) k = Some node \<and> nd_approved node \<and> nd_revoked_at node = None"
proof -
  have wf: "hm_wf (st_nodes ex_st3)"
    using ex_st3_state(1) wf_mapsD(2) by (auto simp: wf_state_def)
  have "hm_get (sn_records (snapshot_of id ex_st3)) ''alpha.net-net.lightscale'' =
      Some [V4 0x0A00000A, V6 0xfd00000000000000000000000000000a]"
    by (simp add: snapshot_of_def ex_st3_values insert_record_def ex_records hm_simps)
  then obtain resp rr where "build_response all_ok id id ex_query ex_store3 = Inr resp" "rr \<in> set (rs_answers resp)"
    by (auto simp: build_response_def snapshot_def store_read_def ex_store3_eval load_state_db_def all_ok_def
        Let_def ex_query_def query_answers_def ex_dns_names type_answers_def)
  then show ?thesis
    using dns_answers_only_active [OF wf ex_st3_state(2)] by blast
qed

end
