(* ===== verification/Membership.thy ===== *)
theory Membership
  imports Prelude
begin

text \<open>
  An abstract specification of what the HTTP interface does to the membership of networks: who is
  in which network under which name and addresses, who is approved, which enrollment tokens
  are in circulation, and on whose authority each of these changes. Keys, endpoints, tags,
  policies, times and the representation of the state are left out. That the handlers
  implement it is shown in \<open>Membership_Refine\<close>.
\<close>

section \<open>The specification\<close>

text \<open>A member of a network; \<open>mb_name\<close> is the name in lower case.\<close>

record member =
  mb_network :: string
  mb_name :: string
  mb_ipv4 :: string
  mb_ipv6 :: string
  mb_approved :: bool
  mb_revoked :: bool
  mb_secret :: "string option"
  mb_token :: "string option"

text \<open>An enrollment token, with the uses it has left.\<close>

record pass =
  ps_network :: string
  ps_uses :: nat
  ps_revoked :: bool

text \<open>The networks with whether they require approval, the tokens by their secret, and the members.\<close>

record membership =
  me_networks :: "string \<rightharpoonup> bool"
  me_tokens :: "string \<rightharpoonup> pass"
  me_members :: "string \<rightharpoonup> member"

definition no_membership :: membership where
  "no_membership = \<lparr>me_networks = Map.empty, me_tokens = Map.empty, me_members = Map.empty\<rparr>"

text \<open>On whose authority: an approval link names the node and its secret.\<close>

datatype authority = Administrator | Token string | NodeToken string | ApprovalLink string string | Anyone

text \<open>A name that no other member in service has in the network, and a member that clashes with no other.\<close>

definition name_free :: "membership \<Rightarrow> string \<Rightarrow> string \<Rightarrow> string \<Rightarrow> bool" where
  "name_free M n i name \<longleftrightarrow>
     (\<forall>j m. me_members M j = Some m \<longrightarrow> j \<noteq> i \<longrightarrow> mb_network m = n \<longrightarrow> mb_revoked m \<or> mb_name m \<noteq> name)"

definition newcomer :: "membership \<Rightarrow> string \<Rightarrow> member \<Rightarrow> bool" where
  "newcomer M i m \<longleftrightarrow> name_free M (mb_network m) i (mb_name m) \<and> \<not> mb_revoked m \<and>
     (\<forall>j m'. me_members M j = Some m' \<longrightarrow> j \<noteq> i \<longrightarrow> mb_ipv4 m' \<noteq> mb_ipv4 m \<and> mb_ipv6 m' \<noteq> mb_ipv6 m)"

definition may_approve :: "authority \<Rightarrow> string \<Rightarrow> member \<Rightarrow> bool" where
  "may_approve a i m \<longleftrightarrow> a = Administrator \<or> (\<exists>s. a = ApprovalLink i s \<and> mb_secret m = Some s)"

definition may_rotate :: "authority \<Rightarrow> member \<Rightarrow> bool" where
  "may_rotate a m \<longleftrightarrow> a = Administrator \<or> mb_token m = None \<or> (\<exists>k. a = NodeToken k \<and> mb_token m = Some k)"

inductive member_step :: "authority \<Rightarrow> membership \<Rightarrow> membership \<Rightarrow> bool" where
  found: "me_networks M n = None \<Longrightarrow>
    toks = me_tokens M \<or>
      (\<exists>t p. ps_network p = n \<and> 0 < ps_uses p \<and> \<not> ps_revoked p \<and> toks = (me_tokens M)(t \<mapsto> p)) \<Longrightarrow>
    member_step Administrator M (M\<lparr>me_networks := (me_networks M)(n \<mapsto> vetting), me_tokens := toks\<rparr>)"
| dissolve: "me_networks M n \<noteq> None \<Longrightarrow> (\<And>j m. me_members M j = Some m \<Longrightarrow> mb_network m \<noteq> n) \<Longrightarrow>
    (\<And>t p. toks t = Some p \<longleftrightarrow> me_tokens M t = Some p \<and> ps_network p \<noteq> n) \<Longrightarrow>
    member_step Administrator M (M\<lparr>me_networks := (me_networks M)(n := None), me_tokens := toks\<rparr>)"
| issue: "me_networks M (ps_network p) \<noteq> None \<Longrightarrow> 0 < ps_uses p \<Longrightarrow> \<not> ps_revoked p \<Longrightarrow>
    member_step Administrator M (M\<lparr>me_tokens := (me_tokens M)(t \<mapsto> p)\<rparr>)"
| withdraw: "me_tokens M t = Some p \<Longrightarrow>
    member_step Administrator M (M\<lparr>me_tokens := (me_tokens M)(t \<mapsto> p\<lparr>ps_revoked := True\<rparr>)\<rparr>)"
| enrol: "me_tokens M t = Some p \<Longrightarrow> ps_network p = mb_network m \<Longrightarrow> 0 < ps_uses p \<Longrightarrow> \<not> ps_revoked p \<Longrightarrow>
    me_networks M (mb_network m) = Some vetting \<Longrightarrow> mb_approved m = (\<not> vetting) \<Longrightarrow> newcomer M i m \<Longrightarrow>
    member_step (Token t) M (M\<lparr>me_members := (me_members M)(i \<mapsto> m),
      me_tokens := (me_tokens M)(t := (if ps_uses p = 1 then None else Some (p\<lparr>ps_uses := ps_uses p - 1\<rparr>)))\<rparr>)"
| ask: "me_networks M (mb_network m) \<noteq> None \<Longrightarrow> \<not> mb_approved m \<Longrightarrow> newcomer M i m \<Longrightarrow>
    member_step Anyone M (M\<lparr>me_members := (me_members M)(i \<mapsto> m)\<rparr>)"
| approve: "me_members M i = Some m \<Longrightarrow> may_approve a i m \<Longrightarrow>
    member_step a M (M\<lparr>me_members := (me_members M)(i \<mapsto> m\<lparr>mb_approved := True, mb_secret := None\<rparr>)\<rparr>)"
| reinstate: "me_members M i = Some m \<Longrightarrow> may_rotate a m \<Longrightarrow>
    member_step a M (M\<lparr>me_members := (me_members M)(i \<mapsto> m\<lparr>mb_revoked := False\<rparr>)\<rparr>)"
| rename: "me_members M i = Some m \<Longrightarrow> name_free M (mb_network m) i name \<Longrightarrow>
    member_step Administrator M (M\<lparr>me_members := (me_members M)(i \<mapsto> m\<lparr>mb_name := name\<rparr>)\<rparr>)"
| revoke: "me_members M i = Some m \<Longrightarrow>
    member_step Administrator M (M\<lparr>me_members := (me_members M)(i \<mapsto> m\<lparr>mb_revoked := True\<rparr>)\<rparr>)"
| remove: "me_members M i \<noteq> None \<Longrightarrow>
    member_step Administrator M (M\<lparr>me_members := (me_members M)(i := None)\<rparr>)"

text \<open>What the authorities short of an administrator can do.\<close>

inductive_cases anyone_step: "member_step Anyone M M'"
inductive_cases token_step: "member_step (Token t) M M'"
inductive_cases node_step: "member_step (NodeToken k) M M'"
inductive_cases link_step: "member_step (ApprovalLink i s) M M'"

section \<open>What every step keeps\<close>

text \<open>Members and tokens belong to existing networks, and no two members share an address.\<close>

definition members_housed :: "membership \<Rightarrow> bool" where
  "members_housed M \<longleftrightarrow> (\<forall>i m. me_members M i = Some m \<longrightarrow> me_networks M (mb_network m) \<noteq> None)"

definition tokens_housed :: "membership \<Rightarrow> bool" where
  "tokens_housed M \<longleftrightarrow> (\<forall>t p. me_tokens M t = Some p \<longrightarrow> me_networks M (ps_network p) \<noteq> None \<and> 0 < ps_uses p)"

definition addresses_unique :: "membership \<Rightarrow> bool" where
  "addresses_unique M \<longleftrightarrow>
     (\<forall>i j m m'. me_members M i = Some m \<longrightarrow> me_members M j = Some m' \<longrightarrow> i \<noteq> j \<longrightarrow>
        mb_ipv4 m \<noteq> mb_ipv4 m' \<and> mb_ipv6 m \<noteq> mb_ipv6 m')"

definition membership_ok :: "membership \<Rightarrow> bool" where
  "membership_ok M \<longleftrightarrow> members_housed M \<and> tokens_housed M \<and> addresses_unique M"

lemma no_membership_ok: "membership_ok no_membership"
  by (simp add: membership_ok_def members_housed_def tokens_housed_def addresses_unique_def no_membership_def)

lemma member_step_members:
  assumes "member_step a M M'" and "members_housed M"
  shows "members_housed M'"
  using assms(1)
proof cases
  case (enrol t p m vetting i)
  then show ?thesis using assms(2) by (simp add: members_housed_def)
qed (use assms(2) in \<open>auto simp: members_housed_def split: if_split_asm\<close>)

lemma member_step_tokens:
  assumes "member_step a M M'" and "tokens_housed M"
  shows "tokens_housed M'"
  using assms(1)
proof cases
  case (found n toks vetting)
  from found(4) show ?thesis
    using found(1-3) assms(2) by (elim disjE exE conjE) (simp_all add: tokens_housed_def)
next
  case (dissolve n toks)
  then show ?thesis using assms(2) by (auto simp: tokens_housed_def)
next
  case (enrol t p m vetting i)
  then have "ps_uses p = 1 \<or> 1 < ps_uses p" by linarith
  with enrol show ?thesis using assms(2) by (auto simp: tokens_housed_def)
qed (use assms(2) in \<open>simp_all add: tokens_housed_def\<close>)

lemma addresses_unique_put:
  assumes "addresses_unique M" and "me_members M' = (me_members M)(i \<mapsto> m)"
    and "\<And>j m'. me_members M j = Some m' \<Longrightarrow> j \<noteq> i \<Longrightarrow> mb_ipv4 m' \<noteq> mb_ipv4 m \<and> mb_ipv6 m' \<noteq> mb_ipv6 m"
  shows "addresses_unique M'"
proof -
  have "mb_ipv4 x \<noteq> mb_ipv4 y \<and> mb_ipv6 x \<noteq> mb_ipv6 y"
    if "me_members M' k = Some x" "me_members M' l = Some y" "k \<noteq> l" for k l x y
    using that assms(1,2) assms(3) [of k x] assms(3) [of l y]
    by (auto simp: addresses_unique_def split: if_split_asm)
  then show ?thesis by (auto simp: addresses_unique_def)
qed

lemma addresses_unique_same: "addresses_unique M \<Longrightarrow> me_members M' = me_members M \<Longrightarrow> addresses_unique M'"
  by (simp add: addresses_unique_def)

lemma addresses_unique_replace:
  assumes "addresses_unique M" and "me_members M i = Some m" and "me_members M' = (me_members M)(i \<mapsto> m')"
    and "mb_ipv4 m' = mb_ipv4 m" and "mb_ipv6 m' = mb_ipv6 m"
  shows "addresses_unique M'"
  using assms(1,2,4,5)
  by (intro addresses_unique_put [OF assms(1,3)]) (auto simp: addresses_unique_def)

lemma member_step_addresses:
  assumes "member_step a M M'" and "addresses_unique M"
  shows "addresses_unique M'"
  using assms(1)
proof cases
  case (enrol t p m vetting i)
  then show ?thesis by (intro addresses_unique_put [OF assms(2)]) (auto simp: newcomer_def)
next
  case (ask m i)
  then show ?thesis by (intro addresses_unique_put [OF assms(2)]) (auto simp: newcomer_def)
next
  case (remove i)
  then show ?thesis using assms(2) by (auto simp: addresses_unique_def split: if_split_asm)
qed (simp_all add: addresses_unique_replace [OF assms(2)] addresses_unique_same [OF assms(2)])

lemma member_step_ok: "member_step a M M' \<Longrightarrow> membership_ok M \<Longrightarrow> membership_ok M'"
  by (simp add: membership_ok_def member_step_members member_step_tokens member_step_addresses)

text \<open>No two members in service share a name, as long as none is put back into service.\<close>

definition names_unique :: "membership \<Rightarrow> bool" where
  "names_unique M \<longleftrightarrow>
     (\<forall>i m. me_members M i = Some m \<longrightarrow> \<not> mb_revoked m \<longrightarrow> name_free M (mb_network m) i (mb_name m))"

definition reinstates :: "membership \<Rightarrow> membership \<Rightarrow> bool" where
  "reinstates M M' \<longleftrightarrow> (\<exists>i m m'. me_members M i = Some m \<and> mb_revoked m \<and> me_members M' i = Some m' \<and> \<not> mb_revoked m')"

lemma names_unique_put:
  assumes "names_unique M" and "me_members M' = (me_members M)(i \<mapsto> m)"
    and "\<not> mb_revoked m \<Longrightarrow> name_free M (mb_network m) i (mb_name m)"
  shows "names_unique M'"
  using assms unfolding names_unique_def name_free_def fun_upd_apply by (metis option.inject)

lemma names_unique_same: "names_unique M \<Longrightarrow> me_members M' = me_members M \<Longrightarrow> names_unique M'"
  by (simp add: names_unique_def name_free_def)

lemma names_unique_replace:
  assumes "names_unique M" and "me_members M i = Some m" and "me_members M' = (me_members M)(i \<mapsto> m')"
    and "mb_network m' = mb_network m" and "mb_name m' = mb_name m" and "mb_revoked m \<Longrightarrow> mb_revoked m'"
  shows "names_unique M'"
  using assms(1,2,4-6)
  by (intro names_unique_put [OF assms(1,3)]) (auto simp: names_unique_def)

lemma member_step_names:
  assumes "member_step a M M'" and "names_unique M" and "\<not> reinstates M M'"
  shows "names_unique M'"
  using assms(1)
proof cases
  case (enrol t p m vetting i)
  then show ?thesis by (intro names_unique_put [OF assms(2)]) (auto simp: newcomer_def)
next
  case (ask m i)
  then show ?thesis by (intro names_unique_put [OF assms(2)]) (auto simp: newcomer_def)
next
  case (rename i m name)
  then show ?thesis by (intro names_unique_put [OF assms(2)]) auto
next
  case (reinstate i m)
  then have "\<not> mb_revoked m" using assms(3) by (force simp: reinstates_def)
  with reinstate show ?thesis by (intro names_unique_replace [OF assms(2), of i m]) auto
next
  case (remove i)
  then show ?thesis
    using assms(2) by (auto simp: names_unique_def name_free_def split: if_split_asm)
qed (simp_all add: names_unique_replace [OF assms(2)] names_unique_same [OF assms(2)])

section \<open>Who may do what\<close>

text \<open>A member that becomes approved, or is approved when it enters, has been let in.\<close>

definition approved_in :: "membership \<Rightarrow> string \<Rightarrow> bool" where
  "approved_in M i \<longleftrightarrow> (\<exists>m. me_members M i = Some m \<and> mb_approved m)"

lemma approval_authority:
  assumes "member_step a M M'" and "\<not> approved_in M i" and "approved_in M' i"
  shows "a = Administrator \<or>
    (\<exists>s m. a = ApprovalLink i s \<and> me_members M i = Some m \<and> mb_secret m = Some s) \<or>
    (\<exists>t p. a = Token t \<and> me_tokens M t = Some p \<and> 0 < ps_uses p \<and> \<not> ps_revoked p \<and>
       me_networks M (ps_network p) = Some False)"
  using assms
  by (cases rule: member_step.cases)
    (auto simp: approved_in_def may_approve_def split: if_split_asm)

text \<open>Without an administrator nothing leaves a network, and only its own members change.\<close>

lemma without_administrator:
  assumes "member_step a M M'" and "a \<noteq> Administrator"
  shows "me_networks M' = me_networks M \<and> dom (me_members M) \<subseteq> dom (me_members M') \<and>
    dom (me_tokens M') \<subseteq> dom (me_tokens M)"
  using assms by (cases rule: member_step.cases) (auto split: if_split_asm)

section \<open>Simulation\<close>

text \<open>
  A system whose steps are, under an abstraction, stutters or steps of another one: its runs
  are runs of the other, and keep what the other keeps.
\<close>

locale simulation =
  fixes step :: "'s \<Rightarrow> 's \<Rightarrow> bool"
    and inv :: "'s \<Rightarrow> bool"
    and abs :: "'s \<Rightarrow> 'a"
    and astep :: "'a \<Rightarrow> 'a \<Rightarrow> bool"
  assumes inv_step: "step s s' \<Longrightarrow> inv s \<Longrightarrow> inv s'"
    and sim_step: "step s s' \<Longrightarrow> inv s \<Longrightarrow> abs s' = abs s \<or> astep (abs s) (abs s')"
begin

lemma run_simulates: "step\<^sup>*\<^sup>* s s' \<Longrightarrow> inv s \<Longrightarrow> inv s' \<and> astep\<^sup>*\<^sup>* (abs s) (abs s')"
proof (induction rule: rtranclp_induct)
  case (step y z)
  then show ?case
    using inv_step sim_step [OF step.hyps(2)] by (metis rtranclp.rtrancl_into_rtrancl)
qed simp

lemma run_keeps:
  assumes "\<And>a a'. astep a a' \<Longrightarrow> J a \<Longrightarrow> J a'" and "step\<^sup>*\<^sup>* s s'" and "inv s" and "J (abs s)"
  shows "J (abs s')"
proof -
  have "astep\<^sup>*\<^sup>* (abs s) (abs s')"
    using run_simulates assms(2,3) by blast
  then show ?thesis
    using assms(4) by (induction rule: rtranclp_induct) (auto intro: assms(1))
qed

end

end
