(* ===== verification/Membership_Refine.thy ===== *)
theory Membership_Refine
  imports Example_Env Membership
begin

text \<open>
  The handlers of \<open>api.rs\<close> implement the specification of \<open>Membership\<close>: whatever a request does
  to the state is no change of the membership or one step of the specification, on an
  authority the request presents.
\<close>

section \<open>The membership of a state\<close>

definition member_of :: "NodeState \<Rightarrow> member" where
  "member_of node =
     \<lparr>mb_network = nd_network_id node, mb_name = map ascii_lower (nd_name node), mb_ipv4 = nd_ipv4 node,
      mb_ipv6 = nd_ipv6 node, mb_approved = nd_approved node, mb_revoked = (nd_revoked_at node \<noteq> None),
      mb_secret = nd_auth_secret node, mb_token = nd_node_token node\<rparr>"

definition pass_of :: "TokenState \<Rightarrow> pass" where
  "pass_of token = \<lparr>ps_network = tk_network_id token, ps_uses = unat (tk_uses_left token),
     ps_revoked = (tk_revoked_at token \<noteq> None)\<rparr>"

definition membership_of :: "State \<Rightarrow> membership" where
  "membership_of st =
     \<lparr>me_networks = map_option net_requires_approval \<circ> hm_get (st_networks st),
      me_tokens = map_option pass_of \<circ> hm_get (st_tokens st),
      me_members = map_option member_of \<circ> hm_get (st_nodes st)\<rparr>"

text \<open>The authorities a request presents: its bearer token, its enrollment token, the secret of its path.\<close>

fun presents :: "AppState \<Rightarrow> headers \<Rightarrow> request \<Rightarrow> authority \<Rightarrow> bool" where
  "presents app h req Administrator \<longleftrightarrow> require_admin h (app_admin_token app) = Inr ()"
| "presents app h req (Token t) \<longleftrightarrow> (case req of Register r \<Rightarrow> rg_token r = t | _ \<Rightarrow> False)"
| "presents app h req (NodeToken k) \<longleftrightarrow> bearer_token h = Some k"
| "presents app h req (ApprovalLink i s) \<longleftrightarrow> (case req of ApproveNodeSecret i' s' \<Rightarrow> i' = i \<and> s' = s | _ \<Rightarrow> False)"
| "presents app h req Anyone \<longleftrightarrow> True"

lemma presents_token: "presents app h req (Token t) \<longleftrightarrow> (\<exists>r. req = Register r \<and> rg_token r = t)"
  by (cases req) auto

lemma presents_link: "presents app h req (ApprovalLink i s) \<longleftrightarrow> req = ApproveNodeSecret i s"
  by (cases req) auto

lemma membership_of_sel [simp]:
  "me_networks (membership_of st) k = map_option net_requires_approval (hm_get (st_networks st) k)"
  "me_tokens (membership_of st) k = map_option pass_of (hm_get (st_tokens st) k)"
  "me_members (membership_of st) k = map_option member_of (hm_get (st_nodes st) k)"
  by (simp_all add: membership_of_def)

lemma member_of_sel [simp]:
  "mb_network (member_of n) = nd_network_id n" "mb_name (member_of n) = map ascii_lower (nd_name n)"
  "mb_ipv4 (member_of n) = nd_ipv4 n" "mb_ipv6 (member_of n) = nd_ipv6 n"
  "mb_approved (member_of n) = nd_approved n" "mb_revoked (member_of n) = (nd_revoked_at n \<noteq> None)"
  "mb_secret (member_of n) = nd_auth_secret n" "mb_token (member_of n) = nd_node_token n"
  by (simp_all add: member_of_def)

lemma pass_of_sel [simp]:
  "ps_network (pass_of t) = tk_network_id t" "ps_uses (pass_of t) = unat (tk_uses_left t)"
  "ps_revoked (pass_of t) = (tk_revoked_at t \<noteq> None)"
  by (simp_all add: pass_of_def)

text \<open>What the edits of the state are to the membership.\<close>

lemma membership_edits [simp]:
  "membership_of (put_network k n st) =
     (membership_of st)\<lparr>me_networks := (me_networks (membership_of st))(k \<mapsto> net_requires_approval n)\<rparr>"
  "membership_of (put_node k nd st) =
     (membership_of st)\<lparr>me_members := (me_members (membership_of st))(k \<mapsto> member_of nd)\<rparr>"
  "membership_of (put_token k t st) =
     (membership_of st)\<lparr>me_tokens := (me_tokens (membership_of st))(k \<mapsto> pass_of t)\<rparr>"
  "membership_of (st\<lparr>st_nodes := hm_remove k (st_nodes st)\<rparr>) =
     (membership_of st)\<lparr>me_members := (me_members (membership_of st))(k := None)\<rparr>"
  "membership_of (audit X E iu it a nw nid j st) = membership_of st"
  "membership_of (approve_audit X E v nd st) = membership_of st"
  "membership_of (bump_revision st) = membership_of st"
  by (auto simp: membership_of_def hm_simps bump_revision_def)

lemma map_option_drop: "map_option f \<circ> m(k := None) = (map_option f \<circ> m)(k := None)"
  by auto

lemma membership_default: "membership_of state_default = no_membership"
  by (auto simp: membership_of_def state_default_def no_membership_def hm_simps)

text \<open>An entry replaced by one the membership does not tell from it.\<close>

lemma same_network:
  "hm_get (st_networks st) k = Some net \<Longrightarrow> net_requires_approval net' = net_requires_approval net \<Longrightarrow>
     membership_of (put_network k net' st) = membership_of st"
  by (auto simp: fun_upd_idem)

lemma same_member:
  "hm_get (st_nodes st) k = Some nd \<Longrightarrow> member_of nd' = member_of nd \<Longrightarrow>
     membership_of (put_node k nd' st) = membership_of st"
  by (auto simp: fun_upd_idem)

section \<open>The closures\<close>

definition refines :: "authority set \<Rightarrow> State \<Rightarrow> State \<Rightarrow> bool" where
  "refines A st st' \<longleftrightarrow> membership_of st' = membership_of st \<or>
     (\<exists>a\<in>A. member_step a (membership_of st) (membership_of st'))"

lemma refines_refl [simp]: "refines A st st"
  by (simp add: refines_def)

lemma refines_same: "membership_of st' = membership_of st \<Longrightarrow> refines A st st'"
  by (simp add: refines_def)

lemma refinesI: "a \<in> A \<Longrightarrow> member_step a (membership_of st) M' \<Longrightarrow> membership_of st' = M' \<Longrightarrow> refines A st st'"
  by (auto simp: refines_def)

lemma allocate_keeps_approval:
  "allocate_node_ips X net = (res, net') \<Longrightarrow> net_requires_approval net' = net_requires_approval net"
  by (auto simp: allocate_node_ips_def Let_def split: option.splits if_split_asm)

lemma ensure_unique_name_free:
  assumes "ensure_unique_node_name st n name ex = Inr ()" and "wf_state X st" and "ex = None \<or> ex = Some i"
  shows "name_free (membership_of st) n i (map ascii_lower name)"
  unfolding name_free_def
proof (intro allI impI)
  fix j m
  assume m: "me_members (membership_of st) j = Some m" "j \<noteq> i" "mb_network m = n"
  then obtain node where node: "hm_get (st_nodes st) j = Some node" "m = member_of node" by auto
  have "nd_id node = j"
    using wf_maps_node [OF assms(2) [unfolded wf_state_def] node(1)] by (simp add: wf_node_def)
  with ensure_unique_node_name_Inr [OF assms(1) _ node(1)] wf_mapsD(2) [OF assms(2) [unfolded wf_state_def]]
  show "mb_revoked m \<or> mb_name m \<noteq> map ascii_lower name"
    using m node(2) assms(3) by (auto simp: name_conflicts_def eq_ignore_ascii_case_def)
qed

subsection \<open>Networks and tokens\<close>

lemma refines_create_network_tx:
  assumes "wf_state X st"
  shows "refines {Administrator} st (snd (create_network_tx X E req n4 n6 ns st))"
proof (cases "hm_get (st_networks st) (net_id ns) = None \<and> overlay_conflict X n4 n6 (hm_values (st_networks st)) = None")
  case True
  have plain: "member_step Administrator (membership_of st) ((membership_of st)
      \<lparr>me_networks := (me_networks (membership_of st))(net_id ns \<mapsto> net_requires_approval ns)\<rparr>)"
    using member_step.found [of "membership_of st" "net_id ns" "me_tokens (membership_of st)"] True
    by (simp add: membership_of_def)
  have token: "member_step Administrator (membership_of st) ((membership_of st)
      \<lparr>me_networks := (me_networks (membership_of st))(net_id ns \<mapsto> net_requires_approval ns),
       me_tokens := (me_tokens (membership_of st))(t \<mapsto> pass_of tok)\<rparr>)"
    if "build_token sec now (net_id ns) ttl uses tags ou oe adm = Inr tok" for t tok sec now ttl uses tags ou oe adm
    using build_token_Inr [OF that] True
    by (intro member_step.found disjI2 exI [of _ t] exI [of _ "pass_of tok"]) (auto simp: unat_gt_0)
  show ?thesis
    using True plain token
    by (auto simp: create_network_tx_def hm_contains_key_def Let_def refines_def split: option.splits sum.splits)
qed (auto simp: create_network_tx_def hm_contains_key_def split: option.splits)

lemma refines_create_token_tx:
  assumes "wf_state X st"
  shows "refines {Administrator} st (snd (create_token_tx X E nid req st))"
proof -
  have "member_step Administrator (membership_of st)
      ((membership_of st)\<lparr>me_tokens := (me_tokens (membership_of st))(t \<mapsto> pass_of tok)\<rparr>)"
    if "hm_get (st_networks st) nid = Some net"
      "build_token sec now (net_id net) ttl uses tags ou oe adm = Inr tok" for t net tok sec now ttl uses tags ou oe adm
    using build_token_Inr [OF that(2)] that(1) wf_maps_network [OF assms [unfolded wf_state_def] that(1)]
    by (intro member_step.issue) (auto simp: unat_gt_0 wf_network_def)
  then show ?thesis
    by (auto simp: create_token_tx_def Let_def refines_def split: option.splits sum.splits)
qed

lemma refines_revoke_token_tx: "refines {Administrator} st (snd (revoke_token_tx X E tid st))"
proof (cases "hm_get (st_tokens st) tid")
  case (Some tok)
  then show ?thesis
    using member_step.withdraw [of "membership_of st" tid "pass_of tok"]
    by (simp add: revoke_token_tx_def Let_def refines_def pass_of_def)
qed (simp add: revoke_token_tx_def)

lemma refines_policies:
  "refines A st (snd (update_acl_tx X E nid pol st))"
  "refines A st (snd (update_key_policy_tx X E nid kpol st))"
  by (auto simp: update_acl_tx_def update_key_policy_tx_def Let_def simp del: membership_edits(1)
      intro!: refines_same same_network split: option.split)

lemma refines_delete_network_tx:
  assumes "wf_state X st"
  shows "refines {Administrator} st (snd (delete_network_tx X E nid st))"
proof (cases "hm_get (st_networks st) nid = None \<or>
    filter (\<lambda>node. nd_network_id node = nid) (hm_values (st_nodes st)) \<noteq> []")
  case False
  note wf = assms [unfolded wf_state_def]
  let ?toks = "hm_retain (\<lambda>_ token. tk_network_id token \<noteq> nid) (st_tokens st)"
  let ?st = "st\<lparr>st_tokens := ?toks, st_networks := hm_remove nid (st_networks st)\<rparr>"
  have "member_step Administrator (membership_of st) ((membership_of st)
      \<lparr>me_networks := (me_networks (membership_of st))(nid := None), me_tokens := map_option pass_of \<circ> hm_get ?toks\<rparr>)"
  proof (rule member_step.dissolve)
    fix j m
    assume "me_members (membership_of st) j = Some m"
    then show "mb_network m \<noteq> nid"
      using False wf_mapsD(2) [OF wf] by (auto simp: filter_empty_conv hm.vals_iff)
  qed (use False in \<open>auto simp: hm.get_keep [OF wf_mapsD(3) [OF wf]]\<close>)
  moreover have "membership_of ?st = (membership_of st)
      \<lparr>me_networks := (me_networks (membership_of st))(nid := None), me_tokens := map_option pass_of \<circ> hm_get ?toks\<rparr>"
    by (auto simp: membership_of_def hm_simps)
  ultimately show ?thesis
    using False by (simp add: delete_network_tx_def hm_contains_key_def refines_def)
qed (auto simp: delete_network_tx_def hm_contains_key_def Let_def)

subsection \<open>Nodes\<close>

lemma refines_approve_node_tx: "refines {Administrator} st (snd (approve_node_tx X E nid st))"
proof (cases "hm_get (st_nodes st) nid")
  case (Some node)
  then show ?thesis
    using member_step.approve [of "membership_of st" nid "member_of node" Administrator]
    by (auto simp: approve_node_tx_def Let_def refines_def may_approve_def member_of_def mark_approved_def)
qed (simp add: approve_node_tx_def)

lemma refines_approve_node_secret_tx:
  "refines {ApprovalLink nid sec} st (snd (approve_node_secret_tx X E nid sec st))"
proof (cases "hm_get (st_nodes st) nid")
  case (Some node)
  then show ?thesis
    using member_step.approve [of "membership_of st" nid "member_of node" "ApprovalLink nid sec"]
    by (auto simp: approve_node_secret_tx_def Let_def refines_def may_approve_def member_of_def mark_approved_def
        split: option.split)
qed (simp add: approve_node_secret_tx_def)

lemma refines_revoke_node_tx: "refines {Administrator} st (snd (revoke_node_tx X E nid st))"
proof (cases "hm_get (st_nodes st) nid")
  case (Some node)
  then show ?thesis
    using member_step.revoke [of "membership_of st" nid "member_of node"]
    by (auto simp: revoke_node_tx_def Let_def refines_def member_of_def revoke_node_keys_def)
qed (simp add: revoke_node_tx_def)

lemma refines_delete_node_tx: "refines {Administrator} st (snd (delete_node_tx X E nid st))"
  using member_step.remove [of "membership_of st" nid]
  by (auto simp: delete_node_tx_def Let_def refines_def split: option.split)

lemma refines_heartbeat_tx: "refines A st (snd (heartbeat_tx E adm h req eps st))"
  by (auto simp: heartbeat_tx_def Let_def member_of_def simp del: membership_edits(2)
      intro!: refines_same same_member split: option.split sum.split)

lemma refines_update_node_tx:
  assumes "wf_state X st"
  shows "refines {Administrator} st (snd (update_node_tx X E nid req st))"
proof (cases "hm_get (st_nodes st) nid")
  case (Some node)
  have key: "nd_id node = nid"
    using wf_maps_node [OF assms [unfolded wf_state_def] Some] by (simp add: wf_node_def)
  have "refines {Administrator} st (put_node nid (node\<lparr>nd_name := name\<rparr>) st)"
    if "next_name st node req = Inr (Some name)" for name
  proof -
    have "ensure_unique_node_name st (nd_network_id node) name (Some nid) = Inr ()"
      using that key by (auto simp: next_name_def split: option.splits sum.splits if_split_asm)
    then have "name_free (membership_of st) (nd_network_id node) nid (map ascii_lower name)"
      by (rule ensure_unique_name_free [OF _ assms]) simp
    then show ?thesis
      using member_step.rename [of "membership_of st" nid "member_of node"] Some
      by (simp add: refines_def member_of_def)
  qed
  moreover have "membership_of (put_node nid (nd\<lparr>nd_tags := ts\<rparr>) st) = membership_of (put_node nid nd st)" for nd ts
    by (simp add: member_of_def)
  moreover have "membership_of (put_node nid node st) = membership_of st"
    by (rule same_member [OF Some refl])
  ultimately show ?thesis
    using Some
    by (auto simp: update_node_tx_def Let_def refines_def simp del: membership_edits(2)
        split: sum.split option.split prod.split)
qed (simp add: update_node_tx_def)

lemma refines_rotate_keys_tx:
  assumes "wf_state X st"
  shows "refines {a. presents app h (RotateKeys nid req) a} st
    (snd (rotate_keys_tx X E (app_admin_token app) h nid req st))"
proof (cases "hm_get (st_nodes st) nid")
  case (Some node)
  have keys: "member_of (rotate_machine_key now k nd) = member_of nd" "member_of (rotate_wg_key now k nd) = member_of nd"
    "member_of (nd\<lparr>nd_revoked_at := None\<rparr>) = (member_of nd)\<lparr>mb_revoked := False\<rparr>" for now k nd
    by (simp_all add: member_of_def rotate_machine_key_def rotate_wg_key_def)
  show ?thesis
  proof (cases "require_node h (app_admin_token app) node")
    case (Inr _)
    then have "may_rotate Anyone (member_of node) \<or>
        (\<exists>k. bearer_token h = Some k \<and> may_rotate (NodeToken k) (member_of node)) \<or>
        require_admin h (app_admin_token app) = Inr ()"
      by (auto simp: require_node_iff may_rotate_def require_admin_iff)
    then obtain a where a: "presents app h (RotateKeys nid req) a" "may_rotate a (member_of node)"
      by (metis may_rotate_def presents.simps(1,3,5))
    show ?thesis
      using Some Inr a member_step.reinstate [of "membership_of st" nid "member_of node" a]
      by (auto simp: rotate_keys_tx_def Let_def refines_def keys fun_upd_idem split: option.split)
  qed (simp add: rotate_keys_tx_def Some)
qed (simp add: rotate_keys_tx_def)

subsection \<open>Registration\<close>

text \<open>A node put in with fresh addresses under a free name is a newcomer.\<close>

lemma newcomer_allocated:
  assumes "ipnet_laws X" and "wf_state X st" and "hm_get (st_networks st) n = Some net"
    and "allocate_node_ips X net = (Inr (a4, a6), net')"
    and "ensure_unique_node_name st n (nd_name node) None = Inr ()"
    and "nd_network_id node = n" "nd_ipv4 node = a4" "nd_ipv6 node = a6" "nd_revoked_at node = None"
  shows "newcomer (membership_of st) i (member_of node)"
  using ensure_unique_name_free [OF assms(5,2), of i] assms(6-9)
    allocated_fresh [OF assms(1) assms(2) [unfolded wf_state_def] assms(3,4)]
  by (auto simp: newcomer_def)

lemma refines_register_url_tx:
  assumes "ipnet_laws X" and "wf_state X st"
  shows "refines {Anyone} st (snd (register_url_tx X E req name ex st))"
proof (cases "ensure_unique_node_name st (ru_network_id req) name None")
  case (Inr u)
  show ?thesis
  proof (cases "hm_get (st_networks st) (ru_network_id req)")
    case (Some net)
    obtain res net' where alloc: "allocate_node_ips X net = (res, net')" by fastforce
    have id: "net_id net' = ru_network_id req"
      using wf_network_allocated(4) [OF wf_maps_network [OF assms(2) [unfolded wf_state_def] Some] alloc]
        wf_maps_network [OF assms(2) [unfolded wf_state_def] Some] by (simp add: wf_network_def)
    note same = same_network [OF Some allocate_keeps_approval [OF alloc]]
    show ?thesis
    proof (cases res)
      case (Inl e)
      then show ?thesis
        using Inr Some alloc same by (simp add: register_url_tx_def refines_def)
    next
      case (Inr p)
      obtain a4 a6 where p: "p = (a4, a6)" by fastforce
      let ?node = "register_url_node X E req name ex net' a4 a6"
      have "newcomer (membership_of st) (nd_id ?node) (member_of ?node)"
        using newcomer_allocated [OF assms Some, of a4 a6 net' ?node] alloc Inr p id
          \<open>ensure_unique_node_name st _ name None = _\<close> by simp
      then have "member_step Anyone (membership_of st) (membership_of (put_node (nd_id ?node) ?node st))"
        using member_step.ask [of "membership_of st" "member_of ?node"] Some id by simp
      then show ?thesis
        using \<open>ensure_unique_node_name st _ name None = _\<close> Some alloc Inr p same
        by (simp add: register_url_tx_def refines_def Let_def)
    qed
  qed (simp add: register_url_tx_def Inr)
qed (simp add: register_url_tx_def)

lemma refines_register_tx:
  assumes "ipnet_laws X" and "wf_state X st"
  shows "refines {Token (rg_token req)} st (snd (register_tx X E req name st))"
proof (cases "fst (register_tx X E req name st)")
  case (Inr node_id)
  then obtain st' where reg: "register_tx X E req name st = (Inr node_id, st')" by (metis prod.collapse)
  obtain tok net a4 a6 net' where tok: "hm_get (st_tokens st) (rg_token req) = Some tok"
      "now_unix E 0 < tk_expires_at tok" "tk_revoked_at tok = None" "tk_uses_left tok \<noteq> 0"
      "ensure_unique_node_name st (tk_network_id tok) name None = Inr ()"
      "hm_get (st_networks st) (tk_network_id tok) = Some net"
      "allocate_node_ips X net = (Inr (a4, a6), net')"
    using register_tx_needs [OF reg] by blast
  define node where "node = register_node X E req name tok net' a4 a6"
  have st': "st_nodes st' = hm_insert (nd_id node) node (st_nodes st)"
    "st_networks st' = hm_insert (tk_network_id tok) net' (st_networks st)"
    "hm_get (st_tokens st') = (hm_get (st_tokens st))(rg_token req :=
      (if tk_uses_left tok = 1 then None else Some (tok\<lparr>tk_uses_left := tk_uses_left tok - 1\<rparr>)))"
    using register_tx_ok [OF tok] reg by (auto simp: node_def)
  have id: "net_id net' = tk_network_id tok"
    using wf_network_allocated(4) [OF wf_maps_network [OF assms(2) [unfolded wf_state_def] tok(6)] tok(7)]
      wf_maps_network [OF assms(2) [unfolded wf_state_def] tok(6)] by (simp add: wf_network_def)
  have uses: "unat (tk_uses_left tok - 1) = unat (tk_uses_left tok) - 1"
    using tok(4) by (rule unat_minus_one)
  have one: "unat (tk_uses_left tok) = Suc 0 \<longleftrightarrow> tk_uses_left tok = 1"
    by (metis One_nat_def unat_1 word_unat_eq_iff)
  have "newcomer (membership_of st) (nd_id node) (member_of node)"
    using newcomer_allocated [OF assms tok(6,7), of node] tok(5) id by (simp add: node_def)
  then have step: "member_step (Token (rg_token req)) (membership_of st)
      ((membership_of st)\<lparr>me_members := (me_members (membership_of st))(nd_id node \<mapsto> member_of node),
         me_tokens := (me_tokens (membership_of st))(rg_token req :=
           (if ps_uses (pass_of tok) = 1 then None else Some ((pass_of tok)\<lparr>ps_uses := ps_uses (pass_of tok) - 1\<rparr>)))\<rparr>)"
    using tok id allocate_keeps_approval [OF tok(7)]
    by (intro member_step.enrol [where vetting = "net_requires_approval net"]) (auto simp: node_def unat_gt_0)
  have "membership_of st' = (membership_of st)\<lparr>me_members := (me_members (membership_of st))(nd_id node \<mapsto> member_of node),
      me_tokens := (me_tokens (membership_of st))(rg_token req :=
        (if ps_uses (pass_of tok) = 1 then None else Some ((pass_of tok)\<lparr>ps_uses := ps_uses (pass_of tok) - 1\<rparr>)))\<rparr>"
    using tok(6) allocate_keeps_approval [OF tok(7)] uses
    by (simp add: membership_of_def st' hm_simps pass_of_def one map_option_drop fun_upd_idem)
  with step reg show ?thesis by (simp add: refines_def)
next
  case (Inl e)
  then obtain st' where "register_tx X E req name st = (Inl e, st')" by (metis prod.collapse)
  with register_tx_failed_cases [OF this] show ?thesis
    by (metis allocate_keeps_approval refines_refl refines_same same_network snd_conv)
qed

section \<open>Requests\<close>

lemmas closure_refines = refines_create_network_tx refines_create_token_tx refines_revoke_token_tx
  refines_policies [of "{}"] refines_delete_network_tx refines_approve_node_tx refines_approve_node_secret_tx
  refines_revoke_node_tx refines_delete_node_tx refines_heartbeat_tx [of "{}"] refines_update_node_tx
  refines_rotate_keys_tx refines_register_url_tx refines_register_tx

lemma refines_mono: "refines A st st' \<Longrightarrow> A \<subseteq> B \<Longrightarrow> refines B st st'"
  by (auto simp: refines_def)

lemma request_tx_refines:
  assumes "ipnet_laws X" and "wf_state X st" and "request_tx X E app h req = Some f"
  shows "refines {a. presents app h req a} st (snd (f st))"
  using assms(3)
  by (cases req)
    (auto simp: authorised_Some Let_def assms(1,2) split: sum.splits prod.splits if_split_asm
      intro!: closure_refines [THEN refines_mono])

text \<open>The state a later request finds, whatever the outcome of the store.\<close>

lemma dispatch_refines:
  assumes "ipnet_laws X" and "wf_state X st" and "current s = Some st" and "current s' = Some st'"
    and "dispatch S io id io' X E app h req s = (res, s')"
  shows "refines {a. presents app h req a} st st'"
  using assms(5)
proof (cases rule: dispatch_store_cases)
  case untouched
  with assms(3,4) show ?thesis by simp
next
  case (written f)
  then have "st' \<in> {st, snd (f st), bump_revision (snd (f st))}"
    using backend.wr_cases [OF _ assms(3), of S io f] assms(4) by (metis insertCI option.inject prod.collapse)
  then show ?thesis
    using request_tx_refines [OF assms(1,2) written(1)] by (auto simp: refines_def)
qed

section \<open>Histories\<close>

inductive state_step :: "('n4, 'n6) externals \<Rightarrow> State \<Rightarrow> State \<Rightarrow> bool"
  for X :: "('n4, 'n6) externals"
where
  "request_tx X E app h req = Some f \<Longrightarrow> state_step X st (snd (f st))"
| "request_tx X E app h req = Some f \<Longrightarrow> state_step X st (bump_revision (snd (f st)))"

interpretation server: simulation "state_step X" "\<lambda>st. ipnet_laws X \<and> wf_state X st" membership_of
  "\<lambda>M M'. \<exists>a. member_step a M M'" for X
proof (unfold_locales, goal_cases)
  case (1 st st')
  then show ?case
    by (auto elim!: state_step.cases dest!: request_tx_closure intro: server_closure_wf wf_bump_revision)
next
  case (2 st st')
  then show ?case
    using request_tx_refines [of X st] by (fastforce elim!: state_step.cases simp: refines_def)
qed

lemma reachable_runs:
  assumes "serde_ok S" and "reachable S X s P"
  shows "store_all (\<lambda>st. (state_step X)\<^sup>*\<^sup>* state_default st) S s P"
proof (rule reachable_all [OF assms])
  fix st E app h req f
  assume "(state_step X)\<^sup>*\<^sup>* state_default st" and "request_tx X E app h req = Some f"
  then show "(state_step X)\<^sup>*\<^sup>* state_default (snd (f st)) \<and>
      (state_step X)\<^sup>*\<^sup>* state_default (bump_revision (snd (f st)))"
    using state_step.intros [of X E app h req f st] by (meson rtranclp.rtrancl_into_rtrancl)
qed simp

lemma reachable_membership:
  assumes "ipnet_laws X" and "serde_ok S" and "reachable S X s P" and "current s = Some st"
  shows "(\<lambda>M M'. \<exists>a. member_step a M M')\<^sup>*\<^sup>* no_membership (membership_of st)"
proof -
  have "(state_step X)\<^sup>*\<^sup>* state_default st"
    using store_all_current [OF reachable_runs [OF assms(2,3)]] assms(4) by simp
  then show ?thesis
    using server.run_simulates [of X state_default st] assms(1) by (simp add: wf_state_default membership_default)
qed

lemma reachable_membership_ok:
  assumes "ipnet_laws X" and "serde_ok S" and "reachable S X s P" and "current s = Some st"
  shows "membership_ok (membership_of st)"
proof -
  have "(state_step X)\<^sup>*\<^sup>* state_default st"
    using store_all_current [OF reachable_runs [OF assms(2,3)]] assms(4) by simp
  then show ?thesis
    using server.run_keeps [of membership_ok X state_default st] assms(1) member_step_ok
    by (auto simp: wf_state_default membership_default no_membership_ok)
qed

section \<open>Properties\<close>

text \<open>The registration of the session, as a request of its own.\<close>

lemma ex_register_run:
  obtains res where "dispatch plain_serde all_ok id all_ok ex_ext (ex_env 1010 ''nd1'') ex_app no_headers
    (ex_register ''net-a-secret'' ''alpha'') ex_store1 = (res, ex_store2)"
  using that by (metis ex_run_def ex_store2_def prod.collapse)

lemma ex_states: "current ex_store1 = Some ex_st1" "current ex_store2 = Some ex_st2"
  "hm_get (st_nodes ex_st1) i = None" "hm_get (st_nodes ex_st2) ''nd1'' = Some ex_node1"
  "nd_approved ex_node1"
  by (simp_all add: ex_store1_eval ex_store2_eval ex_st1_def ex_st2_def hm_get_def ex_node1_def ex_node_def)

text \<open>
  C5: the server implements the specification of its membership. Every state it can reach
  is the result of steps of the specification from nothing, and every request, whatever its
  outcome, is no change of the membership or one step of the specification on an authority
  that the request presents.
\<close>

theorem server_refines_membership:
  assumes "ipnet_laws X" and "serde_ok S" and "reachable S X s P" and "current s = Some st"
    and "dispatch S io id io' X E app h req s = (res, s')"
  shows "(\<lambda>M M'. \<exists>a. member_step a M M')\<^sup>*\<^sup>* no_membership (membership_of st) \<and>
    (\<exists>st'. current s' = Some st' \<and>
       (membership_of st' = membership_of st \<or>
        (\<exists>a. presents app h req a \<and> member_step a (membership_of st) (membership_of st'))))"
proof -
  obtain st' where st': "current s' = Some st'"
    using dispatch_log [OF assms(5,4)] by blast
  have "wf_state X st"
    using reachable_current [OF assms(1-3)] assms(4) by (metis option.inject)
  from dispatch_refines [OF assms(1) this assms(4) st' assms(5)] show ?thesis
    using reachable_membership [OF assms(1-4)] st' by (auto simp: refines_def)
qed

theorem server_refines_membership_witness:
  "\<exists>a. presents ex_app no_headers (ex_register ''net-a-secret'' ''alpha'') a \<and>
     member_step a (membership_of ex_st1) (membership_of ex_st2)"
proof -
  obtain res where d: "dispatch plain_serde all_ok id all_ok ex_ext (ex_env 1010 ''nd1'') ex_app no_headers
    (ex_register ''net-a-secret'' ''alpha'') ex_store1 = (res, ex_store2)"
    by (rule ex_register_run)
  have "me_members (membership_of ex_st2) ''nd1'' \<noteq> me_members (membership_of ex_st1) ''nd1''"
    by (simp add: ex_states)
  then have new: "membership_of ex_st2 \<noteq> membership_of ex_st1" by (rule contrapos_nn) (rule arg_cong)
  obtain st' where "current ex_store2 = Some st'" "membership_of st' = membership_of ex_st1 \<or>
      (\<exists>a. presents ex_app no_headers (ex_register ''net-a-secret'' ''alpha'') a \<and>
         member_step a (membership_of ex_st1) (membership_of st'))"
    using server_refines_membership [OF ex_ext_laws plain_serde_ok ex_store1_reachable ex_states(1) d]
    by (elim conjE exE) (rule that)
  with new show ?thesis by (simp only: ex_states(2) option.inject) blast
qed

text \<open>
  C12: a node is approved only by someone who may. When a request leaves a node approved that was
  not, or was not there, the request was made with the administrator's token, or it follows
  the approval link of that node with its secret, or it registers a node with a token that
  is not revoked, for a network that requires no approval.
\<close>

theorem approval_needs_authority:
  assumes "ipnet_laws X" and "serde_ok S" and "reachable S X s P" and "current s = Some st"
    and "dispatch S io id io' X E app h req s = (res, s')" and "current s' = Some st'"
    and "hm_get (st_nodes st') i = Some node" and "nd_approved node"
    and "case hm_get (st_nodes st) i of None \<Rightarrow> True | Some old \<Rightarrow> \<not> nd_approved old"
  shows "require_admin h (app_admin_token app) = Inr () \<or>
    (\<exists>sec old. req = ApproveNodeSecret i sec \<and> hm_get (st_nodes st) i = Some old \<and> nd_auth_secret old = Some sec) \<or>
    (\<exists>r tok net. req = Register r \<and> hm_get (st_tokens st) (rg_token r) = Some tok \<and> tk_revoked_at tok = None \<and>
       hm_get (st_networks st) (tk_network_id tok) = Some net \<and> \<not> net_requires_approval net)"
proof -
  have before: "\<not> approved_in (membership_of st) i" and later: "approved_in (membership_of st') i"
    using assms(7-9) by (auto simp: approved_in_def split: option.splits)
  have "wf_state X st"
    using reachable_current [OF assms(1-3)] assms(4) by (metis option.inject)
  from dispatch_refines [OF assms(1) this assms(4,6,5)]
  obtain a where a: "presents app h req a" "member_step a (membership_of st) (membership_of st')"
    using before later by (auto simp: refines_def)
  from approval_authority [OF a(2) before later] show ?thesis
  proof (elim disjE exE conjE)
    fix sec m
    assume "a = ApprovalLink i sec" and "me_members (membership_of st) i = Some m" and "mb_secret m = Some sec"
    with a(1) show ?thesis by (auto simp: presents_link simp del: presents.simps)
  next
    fix t p
    assume "a = Token t" and p: "me_tokens (membership_of st) t = Some p" "\<not> ps_revoked p"
      "me_networks (membership_of st) (ps_network p) = Some False"
    with a(1) obtain r where "req = Register r" "rg_token r = t" by (auto simp: presents_token simp del: presents.simps)
    with p show ?thesis by auto
  qed (use a(1) in simp)
qed

theorem approval_needs_authority_witness:
  "\<exists>tok net. hm_get (st_tokens ex_st1) ''net-a-secret'' = Some tok \<and>
     hm_get (st_networks ex_st1) (tk_network_id tok) = Some net \<and> \<not> net_requires_approval net"
proof -
  obtain res where d: "dispatch plain_serde all_ok id all_ok ex_ext (ex_env 1010 ''nd1'') ex_app no_headers
    (ex_register ''net-a-secret'' ''alpha'') ex_store1 = (res, ex_store2)"
    by (rule ex_register_run)
  have "require_admin no_headers (app_admin_token ex_app) \<noteq> Inr ()"
    by (simp add: require_admin_iff no_headers_def bearer_token_def ex_app_def)
  then show ?thesis
    using approval_needs_authority [OF ex_ext_laws plain_serde_ok ex_store1_reachable ex_states(1) d ex_states(2,4,5)]
    by (auto simp: ex_states ex_register_def)
qed

text \<open>
  C13: names stay unique. When no two nodes in service of one network share a name, up to
  the case of letters, no request changes that, unless it puts a revoked node back into service.
\<close>

theorem request_keeps_names:
  assumes "ipnet_laws X" and "serde_ok S" and "reachable S X s P" and "current s = Some st"
    and "dispatch S io id io' X E app h req s = (res, s')" and "current s' = Some st'"
    and "names_unique (membership_of st)"
  shows "names_unique (membership_of st') \<or>
    (\<exists>i old new. hm_get (st_nodes st) i = Some old \<and> nd_revoked_at old \<noteq> None \<and>
       hm_get (st_nodes st') i = Some new \<and> nd_revoked_at new = None)"
proof -
  have "wf_state X st"
    using reachable_current [OF assms(1-3)] assms(4) by (metis option.inject)
  from dispatch_refines [OF assms(1) this assms(4,6,5)] have
    "names_unique (membership_of st') \<or> reinstates (membership_of st) (membership_of st')"
    using member_step_names assms(7) by (auto simp: refines_def)
  then show ?thesis by (fastforce simp: reinstates_def)
qed

theorem request_keeps_names_witness: "names_unique (membership_of ex_st2)"
proof -
  obtain res where d: "dispatch plain_serde all_ok id all_ok ex_ext (ex_env 1010 ''nd1'') ex_app no_headers
    (ex_register ''net-a-secret'' ''alpha'') ex_store1 = (res, ex_store2)"
    by (rule ex_register_run)
  have "names_unique (membership_of ex_st1)"
    by (simp add: names_unique_def ex_states)
  from request_keeps_names [OF ex_ext_laws plain_serde_ok ex_store1_reachable ex_states(1) d ex_states(2) this]
  show ?thesis by (simp add: ex_states)
qed

end
