(* ===== verification/Relay_Packet.thy ===== *)
theory Relay_Packet
  imports Rust_Str
begin

text \<open>
  The packets of the two relays, \<open>parse_packet\<close> and \<open>build_packet\<close> of
  \<open>udp_relay.rs\<close> and \<open>stream_relay.rs\<close>. The two modules hold the same code up to the
  magic number, \<open>LSR1\<close> and \<open>LSR2\<close>, which is an argument here. The locale
  \<open>relay_codec\<close> is what the relays use of it.
\<close>

section \<open>UTF-8\<close>

text \<open>
  \<open>std::str::from_utf8\<close> accepts exactly the well-formed byte sequences of the Unicode
  standard: no overlong forms, no surrogates, nothing above U+10FFFF.
\<close>

definition byte_in :: "nat \<Rightarrow> nat \<Rightarrow> byte \<Rightarrow> bool" where
  "byte_in lo hi b \<longleftrightarrow> lo \<le> of_char b \<and> of_char b \<le> hi"

definition utf8_tail :: "byte \<Rightarrow> bool" where
  "utf8_tail = byte_in 0x80 0xBF"

text \<open>The number of bytes of a character, from its first byte, and the range of the second one.\<close>

definition utf8_width :: "byte \<Rightarrow> nat" where
  "utf8_width b =
     (if byte_in 0 0x7F b then 1 else if byte_in 0xC2 0xDF b then 2
      else if byte_in 0xE0 0xEF b then 3 else if byte_in 0xF0 0xF4 b then 4 else 0)"

definition utf8_second :: "byte \<Rightarrow> byte \<Rightarrow> bool" where
  "utf8_second b =
     (let n = (of_char b :: nat) in
      if n = 0xE0 then byte_in 0xA0 0xBF else if n = 0xED then byte_in 0x80 0x9F
      else if n = 0xF0 then byte_in 0x90 0xBF else if n = 0xF4 then byte_in 0x80 0x8F else utf8_tail)"

fun from_utf8 :: "bytes \<Rightarrow> bool" where
  "from_utf8 [] \<longleftrightarrow> True"
| "from_utf8 (a # s) \<longleftrightarrow>
     (case (utf8_width a, s) of
        (Suc 0, _) \<Rightarrow> from_utf8 s
      | (Suc (Suc 0), b # r) \<Rightarrow> utf8_second a b \<and> from_utf8 r
      | (Suc (Suc (Suc 0)), b # c # r) \<Rightarrow> utf8_second a b \<and> utf8_tail c \<and> from_utf8 r
      | (Suc (Suc (Suc (Suc 0))), b # c # d # r) \<Rightarrow>
          utf8_second a b \<and> utf8_tail c \<and> utf8_tail d \<and> from_utf8 r
      | _ \<Rightarrow> False)"

lemma from_utf8_ascii: "list_all (byte_in 0 0x7F) s \<Longrightarrow> from_utf8 s"
  by (induction s) (auto simp: utf8_width_def)

section \<open>Packets\<close>

datatype RelayPacket =
    Register string
  | Send string string bytes

definition TYPE_REGISTER :: byte where
  "TYPE_REGISTER = char_of (1 :: nat)"

definition TYPE_SEND :: byte where
  "TYPE_SEND = char_of (2 :: nat)"

definition TYPE_DELIVER :: byte where
  "TYPE_DELIVER = char_of (3 :: nat)"

definition HEADER_LEN :: nat where
  "HEADER_LEN = 8"

definition MAX_ID_LEN :: nat where
  "MAX_ID_LEN = 64"

text \<open>
  \<open>&buf[a..b]\<close> is \<open>take (b - a) (drop a buf)\<close>; every byte_slice of \<open>parse_packet\<close> is
  within the length that was checked before.
\<close>

definition byte_slice :: "nat \<Rightarrow> nat \<Rightarrow> bytes \<Rightarrow> bytes" where
  "byte_slice a b buf = take (b - a) (drop a buf)"

definition parse_packet :: "bytes \<Rightarrow> bytes \<Rightarrow> RelayPacket option" where
  "parse_packet magic buf =
     (if length buf < HEADER_LEN then None
      else if byte_slice 0 4 buf \<noteq> magic then None
      else
        (let msg_type = buf ! 4;
             from_len = of_char (buf ! 5) :: nat;
             to_len = of_char (buf ! 6) :: nat
         in if from_len > MAX_ID_LEN \<or> to_len > MAX_ID_LEN then None
            else
              (let offset = HEADER_LEN
               in if length buf < offset + from_len + to_len then None
                  else
                    (let from_end = offset + from_len;
                         to_end = from_end + to_len;
                         from_id = byte_slice offset from_end buf;
                         to_id = byte_slice from_end to_end buf;
                         payload = drop to_end buf
                     in if \<not> from_utf8 from_id then None
                        else if \<not> from_utf8 to_id then None
                        else if msg_type = TYPE_REGISTER then
                          (if from_id = [] \<or> to_id \<noteq> [] then None else Some (Register from_id))
                        else if msg_type = TYPE_SEND then
                          (if from_id = [] \<or> to_id = [] then None else Some (Send from_id to_id payload))
                        else None))))"

definition build_packet :: "bytes \<Rightarrow> byte \<Rightarrow> string \<Rightarrow> string \<Rightarrow> bytes \<Rightarrow> string + bytes" where
  "build_packet magic msg_type from_id to_id payload =
     (if length from_id > MAX_ID_LEN \<or> length to_id > MAX_ID_LEN then Inl ''relay id too long''
      else Inr (magic @ [msg_type, char_of (length from_id), char_of (length to_id), char_of (0 :: nat)]
                @ from_id @ to_id @ payload))"

section \<open>The layout of a packet\<close>

definition packet_bytes :: "bytes \<Rightarrow> byte \<Rightarrow> byte \<Rightarrow> string \<Rightarrow> string \<Rightarrow> bytes \<Rightarrow> bytes" where
  "packet_bytes magic ty reserved f t p =
     magic @ [ty, char_of (length f), char_of (length t), reserved] @ f @ t @ p"

text \<open>An id that fits in a packet; the ids of parsed packets are such.\<close>

definition valid_id :: "string \<Rightarrow> bool" where
  "valid_id s \<longleftrightarrow> s \<noteq> [] \<and> length s \<le> MAX_ID_LEN \<and> from_utf8 s"

lemmas type_defs = TYPE_REGISTER_def TYPE_SEND_def TYPE_DELIVER_def

lemma byte_eqs [simp]:
  "TYPE_REGISTER \<noteq> TYPE_SEND" "TYPE_SEND \<noteq> TYPE_REGISTER"
  "TYPE_DELIVER \<noteq> TYPE_SEND" "TYPE_DELIVER \<noteq> TYPE_REGISTER"
  by (simp_all add: type_defs char_of_eq_iff)

lemma of_char_of_small: "n < 256 \<Longrightarrow> (of_char (char_of n :: char) :: nat) = n"
  by simp

text \<open>Every buffer that passes the length checks is the layout of its parts.\<close>

lemma packet_layout:
  assumes "length magic = 4" and "HEADER_LEN \<le> length buf" and "byte_slice 0 4 buf = magic"
    and "HEADER_LEN + of_char (buf ! 5) + of_char (buf ! 6) \<le> length buf"
  shows "\<exists>f t p. buf = packet_bytes magic (buf ! 4) (buf ! 7) f t p \<and>
    length f = of_char (buf ! 5) \<and> length t = of_char (buf ! 6)"
proof -
  define r where "r = drop 8 buf"
  define f where "f = take (of_char (buf ! 5)) r"
  define t where "t = take (of_char (buf ! 6)) (drop (of_char (buf ! 5)) r)"
  define p where "p = drop (of_char (buf ! 6)) (drop (of_char (buf ! 5)) r)"
  have buf: "take 4 buf @ buf ! 4 # buf ! 5 # buf ! 6 # buf ! 7 # r = buf"
    using assms(2) Cons_nth_drop_Suc [of 4 buf] Cons_nth_drop_Suc [of 5 buf] Cons_nth_drop_Suc [of 6 buf]
      Cons_nth_drop_Suc [of 7 buf] append_take_drop_id [of 4 buf]
    by (simp add: r_def HEADER_LEN_def)
  have r: "f @ t @ p = r" unfolding f_def t_def p_def by (simp only: append_take_drop_id)
  have len: "length f = of_char (buf ! 5)" "length t = of_char (buf ! 6)"
    using assms(4) by (simp_all add: f_def t_def r_def HEADER_LEN_def)
  have "packet_bytes magic (buf ! 4) (buf ! 7) f t p = take 4 buf @ buf ! 4 # buf ! 5 # buf ! 6 # buf ! 7 # r"
    using assms(3) by (simp add: packet_bytes_def len r byte_slice_def)
  with buf len show ?thesis by metis
qed

lemma parse_packet_bytes:
  assumes "length magic = 4" and "length f < 256" and "length t < 256"
  shows "parse_packet magic (packet_bytes magic ty reserved f t p) =
    (if length f > MAX_ID_LEN \<or> length t > MAX_ID_LEN \<or> \<not> from_utf8 f \<or> \<not> from_utf8 t then None
     else if ty = TYPE_REGISTER \<and> f \<noteq> [] \<and> t = [] then Some (Register f)
     else if ty = TYPE_SEND \<and> f \<noteq> [] \<and> t \<noteq> [] then Some (Send f t p) else None)"
proof -
  define buf where "buf = packet_bytes magic ty reserved f t p"
  have nths: "buf ! 4 = ty" "of_char (buf ! 5) = length f" "of_char (buf ! 6) = length t"
    using assms by (simp_all add: buf_def packet_bytes_def nth_append)
  have len: "length buf = 8 + length f + length t + length p" and mag: "byte_slice 0 4 buf = magic"
    using assms by (simp_all add: buf_def packet_bytes_def byte_slice_def)
  have parts: "byte_slice 8 (8 + length f) buf = f"
      "byte_slice (8 + length f) (8 + length f + length t) buf = t" "drop (8 + length f + length t) buf = p"
    using assms by (simp_all add: buf_def packet_bytes_def byte_slice_def eval_nat_numeral)
  show ?thesis
    unfolding buf_def [symmetric]
    unfolding parse_packet_def Let_def HEADER_LEN_def
    by (auto simp: nths len mag parts byte_slice_def [of n n for n])
qed

text \<open>What a buffer must look like to be taken for a packet: the reserved byte is not read.\<close>

lemma parse_packet_Some:
  assumes "length magic = 4" and "parse_packet magic buf = Some pkt"
  shows "\<exists>ty reserved f t p. buf = packet_bytes magic ty reserved f t p \<and> length f \<le> MAX_ID_LEN \<and> length t \<le> MAX_ID_LEN"
proof -
  have len: "HEADER_LEN \<le> length buf" "byte_slice 0 4 buf = magic"
      "HEADER_LEN + of_char (buf ! 5) + of_char (buf ! 6) \<le> length buf"
      "of_char (buf ! 5) \<le> MAX_ID_LEN" "of_char (buf ! 6) \<le> MAX_ID_LEN"
    using assms(2) by (auto simp: parse_packet_def Let_def split: if_split_asm)
  from packet_layout [OF assms(1) len(1-3)] len(4,5) show ?thesis by metis
qed

lemma parse_packet_Register_iff:
  assumes "length magic = 4"
  shows "parse_packet magic buf = Some (Register n) \<longleftrightarrow>
    valid_id n \<and> (\<exists>reserved p. buf = packet_bytes magic TYPE_REGISTER reserved n [] p)" (is "?l \<longleftrightarrow> ?r")
proof
  assume l: ?l
  from parse_packet_Some [OF assms l] obtain ty reserved f t p where
    "buf = packet_bytes magic ty reserved f t p" "length f \<le> MAX_ID_LEN" "length t \<le> MAX_ID_LEN"
    by blast
  with l show ?r
    by (auto simp: parse_packet_bytes [OF assms] MAX_ID_LEN_def valid_id_def split: if_split_asm)
qed (auto simp: parse_packet_bytes [OF assms] valid_id_def MAX_ID_LEN_def)

lemma parse_packet_Send_iff:
  assumes "length magic = 4"
  shows "parse_packet magic buf = Some (Send f t p) \<longleftrightarrow>
    valid_id f \<and> valid_id t \<and> (\<exists>reserved. buf = packet_bytes magic TYPE_SEND reserved f t p)" (is "?l \<longleftrightarrow> ?r")
proof
  assume l: ?l
  from parse_packet_Some [OF assms l] obtain ty reserved f' t' p' where
    "buf = packet_bytes magic ty reserved f' t' p'" "length f' \<le> MAX_ID_LEN" "length t' \<le> MAX_ID_LEN"
    by blast
  with l show ?r
    by (auto simp: parse_packet_bytes [OF assms] MAX_ID_LEN_def valid_id_def split: if_split_asm)
qed (auto simp: parse_packet_bytes [OF assms] valid_id_def MAX_ID_LEN_def)

lemma build_packet_eq:
  "build_packet magic ty f t p =
     (if length f \<le> MAX_ID_LEN \<and> length t \<le> MAX_ID_LEN then Inr (packet_bytes magic ty (char_of (0 :: nat)) f t p)
      else Inl ''relay id too long'')"
  by (auto simp: build_packet_def packet_bytes_def)

section \<open>The codec as the relays use it\<close>

locale relay_codec =
  fixes parse :: "bytes \<Rightarrow> RelayPacket option"
    and build :: "byte \<Rightarrow> string \<Rightarrow> string \<Rightarrow> bytes \<Rightarrow> string + bytes"
    and layout :: "byte \<Rightarrow> byte \<Rightarrow> string \<Rightarrow> string \<Rightarrow> bytes \<Rightarrow> bytes"
  assumes parse_Register: "parse buf = Some (Register n) \<longleftrightarrow>
      valid_id n \<and> (\<exists>reserved p. buf = layout TYPE_REGISTER reserved n [] p)"
    and parse_Send: "parse buf = Some (Send f t p) \<longleftrightarrow>
      valid_id f \<and> valid_id t \<and> (\<exists>reserved. buf = layout TYPE_SEND reserved f t p)"
    and build_eq: "build ty f t p =
      (if length f \<le> MAX_ID_LEN \<and> length t \<le> MAX_ID_LEN then Inr (layout ty (char_of (0 :: nat)) f t p)
       else Inl ''relay id too long'')"
    and layout_type: "layout ty r f t p = layout ty' r' f' t' p' \<Longrightarrow> ty = ty'"
    and layout_length: "length (layout ty r f t p) = 8 + length f + length t + length p"
begin

lemma register_roundtrip: "valid_id n \<Longrightarrow> \<exists>buf. build TYPE_REGISTER n [] p = Inr buf \<and> parse buf = Some (Register n)"
  by (auto simp: build_eq parse_Register valid_id_def)

lemma send_roundtrip:
  "valid_id f \<Longrightarrow> valid_id t \<Longrightarrow> \<exists>buf. build TYPE_SEND f t p = Inr buf \<and> parse buf = Some (Send f t p)"
  by (auto simp: build_eq parse_Send valid_id_def)

lemma parse_valid_ids:
  "parse buf = Some (Register n) \<Longrightarrow> valid_id n"
  "parse buf = Some (Send f t p) \<Longrightarrow> valid_id f \<and> valid_id t"
  by (auto simp: parse_Register parse_Send)

text \<open>Two buffers with the same meaning differ in the reserved byte only, or in what follows a registration.\<close>

lemma build_parse:
  "parse buf = Some (Send f t p) \<Longrightarrow>
     \<exists>reserved. buf = layout TYPE_SEND reserved f t p \<and>
       build TYPE_SEND f t p = Inr (layout TYPE_SEND (char_of (0 :: nat)) f t p)"
  by (auto simp: parse_Send build_eq valid_id_def)

text \<open>A relay does not take a delivery of another relay for a request.\<close>

lemma deliver_not_parsed:
  assumes "build TYPE_DELIVER f t p = Inr buf"
  shows "parse buf = None"
proof -
  have buf: "buf = layout TYPE_DELIVER (char_of (0 :: nat)) f t p"
    using assms by (simp add: build_eq split: if_split_asm)
  have "parse buf \<noteq> Some pkt" for pkt
    by (cases pkt) (auto simp: buf parse_Register parse_Send dest!: layout_type)
  then show ?thesis by (cases "parse buf") auto
qed

text \<open>The delivery of a packet can be built and is shorter than the packet.\<close>

lemma deliver_fits:
  assumes "parse buf = Some (Send f t p)"
  shows "\<exists>out. build TYPE_DELIVER f [] p = Inr out \<and> length out < length buf"
  using assms by (auto simp: parse_Send build_eq valid_id_def layout_length)

end

lemma relay_codec_packet:
  assumes "length magic = 4"
  shows "relay_codec (parse_packet magic) (build_packet magic) (packet_bytes magic)"
proof (unfold_locales, goal_cases)
  case 1 show ?case by (rule parse_packet_Register_iff [OF assms])
next
  case 2 show ?case by (rule parse_packet_Send_iff [OF assms])
next
  case 3 show ?case by (rule build_packet_eq)
next
  case 4 then show ?case by (simp add: packet_bytes_def)
next
  case 5 show ?case using assms by (simp add: packet_bytes_def)
qed

section \<open>Writer tasks\<close>

text \<open>
  The task both protocols start for a connection: it takes frames from a channel and writes them
  until one cannot be written. The peer gets at most \<open>capacity\<close> bytes: a write that goes
  beyond fails, after the bytes that were still taken.
\<close>

fun writer_task :: "('frame \<Rightarrow> bytes option) \<Rightarrow> nat \<Rightarrow> 'frame list \<Rightarrow> bytes" where
  "writer_task write capacity [] = []"
| "writer_task write capacity (frame # rx) =
     (case write frame of
        None \<Rightarrow> []
      | Some wire \<Rightarrow>
          if length wire \<le> capacity then wire @ writer_task write (capacity - length wire) rx
          else take capacity wire)"

text \<open>
  What a connection relies on of its frames: the other end reads a frame that was written, whatever
  follows, and of a frame that was cut off nothing else.
\<close>

locale framing =
  fixes emit :: "'frame \<Rightarrow> bytes option" and read_all :: "bytes \<Rightarrow> 'frame list"
  assumes read_written: "emit frame = Some wire \<Longrightarrow> read_all (wire @ rest) = frame # read_all rest"
    and read_cut: "emit frame = Some wire \<Longrightarrow> n < length wire \<Longrightarrow> prefix (read_all (take n wire)) [frame]"
    and read_nothing: "read_all [] = []"
begin

lemma writer_prefix: "prefix (read_all (writer_task emit capacity frames)) frames"
proof (induction frames arbitrary: capacity)
  case (Cons frame frames)
  show ?case
  proof (cases "emit frame")
    case (Some wire)
    show ?thesis
    proof (cases "length wire \<le> capacity")
      case False
      with Some have "prefix (read_all (take capacity wire)) [frame]" by (intro read_cut) simp_all
      then have "prefix (read_all (take capacity wire)) (frame # frames)"
        by (metis append_Cons append_Nil prefix_append)
      with Some False show ?thesis by simp
    qed (use Some Cons read_written in simp)
  qed (simp add: read_nothing)
qed (simp add: read_nothing)

lemma writer_complete:
  assumes "list_all2 (\<lambda>frame wire. emit frame = Some wire) frames wires" and "length (concat wires) \<le> capacity"
  shows "read_all (writer_task emit capacity frames) = frames"
  using assms
proof (induction arbitrary: capacity rule: list_all2_induct)
  case (Cons frame frames wire wires)
  then show ?case using read_written by simp
qed (simp add: read_nothing)

end

end
