(* ===== verification/Ttl_Cache.thy ===== *)
theory Ttl_Cache
  imports Prelude "HOL-Library.Multiset"
begin

text \<open>
  The two bounded caches of \<open>mesh.rs\<close>, the message ids seen and the routes learnt: an
  entry is inserted; a map that has become too large loses the entries older than a time
  to live and then, when it is still too large, its oldest entries. The locale
  \<open>bounded_cache\<close> is the contract of such an insertion and what its clients derive from
  it. An \<open>Instant\<close> is a number of nanoseconds and \<open>duration_since\<close>, which saturates
  at zero, the subtraction of natural numbers.
\<close>

type_synonym instant = nat

definition from_secs :: "nat \<Rightarrow> nat" where
  "from_secs n = n * 1000000000"

definition from_millis :: "nat \<Rightarrow> nat" where
  "from_millis n = n * 1000000"

definition hm_len :: "('k, 'v) hmap \<Rightarrow> nat" where
  "hm_len m = length m"

definition hm_iter :: "('k, 'v) hmap \<Rightarrow> ('k \<times> 'v) list" where
  "hm_iter m = m"

text \<open>The tail of \<open>remember_message\<close> and of \<open>learn_route\<close>, after the insertion; \<open>sort_by_key\<close> is stable.\<close>

definition prune_cache ::
  "nat \<Rightarrow> nat \<Rightarrow> ('v \<Rightarrow> instant) \<Rightarrow> instant \<Rightarrow> ('k, 'v) hmap \<Rightarrow> ('k, 'v) hmap"
where
  "prune_cache limit ttl stamp now guard =
     (if hm_len guard > limit then
        (let guard = hm_retain (\<lambda>_ v. now - stamp v \<le> ttl) guard
         in if hm_len guard > limit then
              (let entries = sort_key snd (map (\<lambda>(k, v). (k, stamp v)) (hm_iter guard));
                   remove_count = hm_len guard - limit
               in fold (\<lambda>(k, _) guard. hm_remove k guard) (take remove_count entries) guard)
            else guard)
      else guard)"

definition touch_cache ::
  "nat \<Rightarrow> nat \<Rightarrow> ('v \<Rightarrow> instant) \<Rightarrow> instant \<Rightarrow> 'k \<Rightarrow> 'v \<Rightarrow> ('k, 'v) hmap \<Rightarrow> ('k, 'v) hmap"
where
  "touch_cache limit ttl stamp now k v guard = prune_cache limit ttl stamp now (hm_insert k v guard)"

section \<open>Removing the oldest entries\<close>

lemma fold_remove_wf: "hm_wf m \<Longrightarrow> hm_wf (fold (\<lambda>(k, _) m. hm_remove k m) es m)"
  by (induction es arbitrary: m) auto

lemma fold_remove_get:
  "hm_get (fold (\<lambda>(k, _) m. hm_remove k m) es m) k = (if k \<in> fst ` set es then None else hm_get m k)"
  by (induction es arbitrary: m) (auto simp: hm_simps)

lemma hm_len_dom: "hm_wf m \<Longrightarrow> hm_len m = card (dom (hm_get m))"
proof -
  assume "hm_wf m"
  then have "card (set (map fst m)) = length m"
    unfolding hm_wf_def by (simp add: distinct_card del: set_map)
  then show ?thesis by (simp add: hm_len_def hm_get_def [abs_def] dom_map_of_conv_image_fst)
qed

lemma hm_dom_finite: "finite (dom (hm_get m))"
  by (simp add: hm_get_def [abs_def] finite_dom_map_of)

lemma hm_iter_iff: "hm_wf m \<Longrightarrow> (k, v) \<in> set (hm_iter m) \<longleftrightarrow> hm_get m k = Some v"
  by (simp add: hm_iter_def hm_get_def hm_wf_def)

lemma entries_keys:
  assumes "hm_wf m" and "es = sort_key snd (map (\<lambda>(k, v). (k, stamp v)) (hm_iter m))"
  shows "distinct (map fst es)" "fst ` set es = dom (hm_get m)" "length es = hm_len m"
proof -
  have "mset (map fst es) = mset (map fst (hm_iter m))"
    by (simp add: assms(2) image_mset.compositionality comp_def case_prod_beta)
  then show "distinct (map fst es)"
    using assms(1) by (metis hm_iter_def hm_wf_def mset_eq_imp_distinct_iff)
  show "fst ` set es = dom (hm_get m)"
    by (force simp: assms(2) hm_iter_iff [OF assms(1)] image_iff dom_def)
  show "length es = hm_len m" by (simp add: assms(2) hm_iter_def hm_len_def)
qed

text \<open>
  The sorted entries split into those removed and those kept: none of the keys occurs
  twice, and no entry that is kept is older than one that is removed.
\<close>

lemma oldest_removed:
  assumes "hm_wf m" and "limit < hm_len m"
    and "es = sort_key snd (map (\<lambda>(k, v). (k, stamp v)) (hm_iter m))"
    and "n = hm_len m - limit" and "(k, t) \<in> set (take n es)"
  shows "limit \<le> card {k'. k' \<noteq> k \<and> (\<exists>w. hm_get m k' = Some w \<and> t \<le> stamp w)}"
proof -
  have es: "set es = (\<lambda>(k, v). (k, stamp v)) ` set (hm_iter m)"
    by (simp add: assms(3))
  note keys = entries_keys [OF assms(1,3)]
  let ?kept = "fst ` set (drop n es)"
  have dk: "distinct (map fst (drop n es))" and disj: "fst ` set (take n es) \<inter> ?kept = {}"
    using keys(1) by (simp_all add: drop_map [symmetric] distinct_drop)
      (metis append_take_drop_id distinct_append list.set_map map_append)
  have card: "card ?kept = limit"
    using distinct_card [OF dk] keys(3) assms(2,4) by simp
  have sub: "?kept \<subseteq> {k'. k' \<noteq> k \<and> (\<exists>w. hm_get m k' = Some w \<and> t \<le> stamp w)}"
  proof
    fix k' assume "k' \<in> ?kept"
    then obtain t' where t': "(k', t') \<in> set (drop n es)" by auto
    have "sorted (map snd es)" by (simp add: assms(3))
    then have "\<forall>x\<in>set (take n es). \<forall>y\<in>set (drop n es). snd x \<le> snd y"
      using sorted_append [of "map snd (take n es)" "map snd (drop n es)"]
      by (simp flip: map_append)
    with assms(5) t' have "t \<le> t'" by fastforce
    moreover obtain w where "hm_get m k' = Some w" "t' = stamp w"
      using in_set_dropD [OF t'] by (auto simp: es hm_iter_iff [OF assms(1)])
    moreover have "k' \<noteq> k" using disj assms(5) \<open>k' \<in> ?kept\<close> by force
    ultimately show "k' \<in> {k'. k' \<noteq> k \<and> (\<exists>w. hm_get m k' = Some w \<and> t \<le> stamp w)}" by auto
  qed
  have "finite {k'. k' \<noteq> k \<and> (\<exists>w. hm_get m k' = Some w \<and> t \<le> stamp w)}"
    by (rule finite_subset [OF _ hm_dom_finite [of m]]) auto
  from card_mono [OF this sub] show ?thesis by (simp add: card)
qed

section \<open>Pruning\<close>

lemma prune_cache_wf: "hm_wf m \<Longrightarrow> hm_wf (prune_cache limit ttl stamp now m)"
  by (simp add: prune_cache_def Let_def fold_remove_wf)

lemma fold_remove_len:
  assumes "hm_wf m" and "distinct (map fst es)" and "fst ` set es \<subseteq> dom (hm_get m)"
  shows "hm_len (fold (\<lambda>(k, _) m. hm_remove k m) es m) = hm_len m - length es"
proof -
  have "dom (hm_get (fold (\<lambda>(k, _) m. hm_remove k m) es m)) = dom (hm_get m) - fst ` set es"
    by (auto simp: fold_remove_get dom_def)
  moreover have "card (fst ` set es) = length es"
    using distinct_card [OF assms(2)] by simp
  ultimately show ?thesis
    using assms by (simp add: hm_len_dom fold_remove_wf card_Diff_subset)
qed

lemma prune_cache_len:
  assumes "hm_wf m"
  shows "hm_len (prune_cache limit ttl stamp now m) \<le> limit"
proof -
  define m1 where "m1 = hm_retain (\<lambda>_ v. now - stamp v \<le> ttl) m"
  define es where "es = sort_key snd (map (\<lambda>(k, v). (k, stamp v)) (hm_iter m1))"
  have wf: "hm_wf m1" using assms by (simp add: m1_def)
  note keys = entries_keys [OF wf es_def]
  have "hm_len (fold (\<lambda>(k, _) m. hm_remove k m) (take n es) m1) = hm_len m1 - length (take n es)" for n
    using keys(1,2) image_mono [OF set_take_subset [of n es], of fst]
    by (intro fold_remove_len [OF wf]) (simp_all add: take_map [symmetric])
  then show ?thesis
    unfolding prune_cache_def Let_def m1_def [symmetric] es_def [symmetric]
    using keys(3) by (auto simp: min_def)
qed

lemma prune_cache_get:
  assumes "hm_wf m" and "hm_get (prune_cache limit ttl stamp now m) k = Some v"
  shows "hm_get m k = Some v"
  using assms
  by (auto simp: prune_cache_def Let_def fold_remove_get hm_get_retain split: if_split_asm)

text \<open>A fresh entry is dropped only when there are as many others that are not older as the map may hold.\<close>

lemma prune_cache_evicts:
  assumes wf: "hm_wf m" and get: "hm_get m k = Some v" and fresh: "now - stamp v \<le> ttl"
    and gone: "hm_get (prune_cache limit ttl stamp now m) k = None"
  shows "limit \<le> card {k'. k' \<noteq> k \<and> (\<exists>w. hm_get m k' = Some w \<and> stamp v \<le> stamp w)}"
proof -
  define m1 where "m1 = hm_retain (\<lambda>_ v. now - stamp v \<le> ttl) m"
  define es where "es = sort_key snd (map (\<lambda>(k, v). (k, stamp v)) (hm_iter m1))"
  have wf1: "hm_wf m1" and get1: "hm_get m1 k = Some v"
    using wf get fresh by (simp_all add: m1_def hm_get_retain)
  have big: "limit < hm_len m1" and "k \<in> fst ` set (take (hm_len m1 - limit) es)"
    using gone get get1 unfolding prune_cache_def Let_def m1_def [symmetric] es_def [symmetric]
    by (auto simp: fold_remove_get split: if_split_asm)
  then obtain t where t: "(k, t) \<in> set (take (hm_len m1 - limit) es)" by auto
  have "t = stamp v"
    using in_set_takeD [OF t] get1 by (auto simp: es_def hm_iter_iff [OF wf1])
  then have "limit \<le> card {k'. k' \<noteq> k \<and> (\<exists>w. hm_get m1 k' = Some w \<and> stamp v \<le> stamp w)}"
    using oldest_removed [OF wf1 big es_def refl t] by simp
  also have "\<dots> \<le> card {k'. k' \<noteq> k \<and> (\<exists>w. hm_get m k' = Some w \<and> stamp v \<le> stamp w)}"
    by (rule card_mono) (auto simp: m1_def hm_get_retain [OF wf] intro: finite_subset [OF _ hm_dom_finite [of m]])
  finally show ?thesis .
qed

section \<open>The contract\<close>

locale bounded_cache =
  fixes limit :: nat and ttl :: nat and stamp :: "'v \<Rightarrow> instant"
    and get :: "'m \<Rightarrow> 'k \<Rightarrow> 'v option" and len :: "'m \<Rightarrow> nat" and ok :: "'m \<Rightarrow> bool"
    and touch :: "instant \<Rightarrow> 'k \<Rightarrow> 'v \<Rightarrow> 'm \<Rightarrow> 'm"
  assumes touch_ok: "ok m \<Longrightarrow> ok (touch now k v m)"
    and touch_len: "ok m \<Longrightarrow> len (touch now k v m) \<le> limit"
    and touch_get: "ok m \<Longrightarrow> get (touch now k v m) k' = Some w \<Longrightarrow> ((get m)(k \<mapsto> v)) k' = Some w"
    and touch_evicts: "ok m \<Longrightarrow> ((get m)(k \<mapsto> v)) k' = Some w \<Longrightarrow> now - stamp w \<le> ttl \<Longrightarrow>
      get (touch now k v m) k' = None \<Longrightarrow>
      limit \<le> card {j. j \<noteq> k' \<and> (\<exists>x. ((get m)(k \<mapsto> v)) j = Some x \<and> stamp w \<le> stamp x)}"
begin

text \<open>
  The entry \<open>k\<close> is in the map, and every other entry that is not older has its key in
  \<open>S\<close>. Touching another key adds that key to \<open>S\<close>; while \<open>S\<close> is smaller than the
  limit the entry stays.
\<close>

definition holds :: "'k set \<Rightarrow> 'k \<Rightarrow> 'v \<Rightarrow> 'm \<Rightarrow> bool" where
  "holds S k v m \<longleftrightarrow> ok m \<and> get m k = Some v \<and>
     {j. j \<noteq> k \<and> (\<exists>x. get m j = Some x \<and> stamp v \<le> stamp x)} \<subseteq> S"

lemma holds_touch:
  assumes "holds S k v m" and "j \<noteq> k" and "finite S" and "card (insert j S) < limit"
    and "now - stamp v \<le> ttl"
  shows "holds (insert j S) k v (touch now j x m)"
proof -
  have m: "ok m" "((get m)(j \<mapsto> x)) k = Some v"
    using assms(1,2) by (auto simp: holds_def)
  have sub: "{i. i \<noteq> k \<and> (\<exists>y. ((get m)(j \<mapsto> x)) i = Some y \<and> stamp v \<le> stamp y)} \<subseteq> insert j S"
    using assms(1) by (auto simp: holds_def)
  then have small: "card {i. i \<noteq> k \<and> (\<exists>y. ((get m)(j \<mapsto> x)) i = Some y \<and> stamp v \<le> stamp y)} < limit"
    using card_mono [OF _ sub] assms(3,4) by simp
  obtain w where w: "get (touch now j x m) k = Some w"
    using touch_evicts [OF m assms(5)] small by (cases "get (touch now j x m) k") simp_all
  with touch_get [OF m(1) w] m(2) have "get (touch now j x m) k = Some v" by simp
  moreover have "{i. i \<noteq> k \<and> (\<exists>y. get (touch now j x m) i = Some y \<and> stamp v \<le> stamp y)} \<subseteq> insert j S"
    using touch_get [OF m(1)] sub by blast
  ultimately show ?thesis using touch_ok [OF m(1)] by (simp add: holds_def)
qed

text \<open>The key just touched is there, unless the whole map is as new.\<close>

lemma holds_new:
  assumes "ok m" and "\<forall>j w. j \<noteq> k \<and> get m j = Some w \<longrightarrow> stamp w < stamp v" and "0 < limit"
    and "now \<le> stamp v + ttl"
  shows "holds {} k v (touch now k v m)"
proof -
  have none: "{i. i \<noteq> k \<and> (\<exists>y. ((get m)(k \<mapsto> v)) i = Some y \<and> stamp v \<le> stamp y)} = {}"
    using assms(2) by fastforce
  have "now - stamp v \<le> ttl" using assms(4) by simp
  then obtain w where w: "get (touch now k v m) k = Some w"
    using touch_evicts [OF assms(1), of k v k v now, unfolded none] assms(3)
    by (cases "get (touch now k v m) k") auto
  with touch_get [OF assms(1) w] have "get (touch now k v m) k = Some v" by simp
  moreover have "{i. i \<noteq> k \<and> (\<exists>y. get (touch now k v m) i = Some y \<and> stamp v \<le> stamp y)} \<subseteq> {}"
    using touch_get [OF assms(1)] none by blast
  ultimately show ?thesis using touch_ok [OF assms(1)] by (simp add: holds_def)
qed

end

text \<open>The model's insertion with pruning satisfies the contract, for every limit, time to live and stamp.\<close>

interpretation cache: bounded_cache limit ttl stamp hm_get hm_len hm_wf "touch_cache limit ttl stamp"
  for limit ttl stamp
proof (unfold_locales, goal_cases)
  case 1 then show ?case by (simp add: touch_cache_def prune_cache_wf)
next
  case 2 then show ?case by (simp add: touch_cache_def prune_cache_len)
next
  case 3 then show ?case
    unfolding touch_cache_def hm.get_put [symmetric] by (metis prune_cache_get hm.ok_put)
next
  case 4 then show ?case
    unfolding touch_cache_def hm.get_put [symmetric] by (rule prune_cache_evicts [OF hm.ok_put])
qed

end
