(* ===== verification/Mesh.thy ===== *)
theory Mesh
  imports Rust_Str Relay_Packet Ttl_Cache
begin

text \<open>
  \<open>mesh.rs\<close>: servers that pass relay packets to each other. The state that the tasks of
  one server share is a record; each function of the module is a function on it that also
  returns the frames it has queued and the packets it has handed to the local relays. The
  reads of the clock within a call are numbered. JSON, base64 and TLS are parameters.
\<close>

named_theorems mesh_defs \<open>definitions of the operations on the shared state of a mesh server\<close>

section \<open>Data\<close>

datatype MeshTransport = Stream | Udp

record MeshOutgoingPacket =
  mo_transport :: MeshTransport
  mo_from_id :: string
  mo_to_id :: string
  mo_payload :: bytes

text \<open>The one-shot channel of the source is the answer the caller gets from the local relay.\<close>

record MeshIncomingPacket =
  mi_transport :: MeshTransport
  mi_from_id :: string
  mi_to_id :: string
  mi_payload :: bytes

record MeshPeer =
  mp_id :: string
  mp_addr :: string

text \<open>The channel end of a \<open>PeerSender\<close> is the one of the connection with that number.\<close>

record PeerSender =
  ps_conn_id :: u64

record RouteHint =
  rh_peer_id :: string
  rh_updated_at :: instant

record MeshContext =
  cx_server_id :: string
  cx_max_hops :: u8
  cx_allowed_peers :: "string set"
  cx_peers :: "(string, PeerSender) hmap"
  cx_seen_ids :: "(string, instant) hmap"
  cx_route_hints :: "(string, RouteHint) hmap"

text \<open>\<open>Relay\<close>: message id, transport, sender, target, payload in base64, hops left.\<close>

datatype MeshFrame =
    Hello string
  | Relay string MeshTransport string string string u8

definition SEEN_TTL :: nat where
  "SEEN_TTL = from_secs 120"

definition MAX_SEEN_IDS :: nat where
  "MAX_SEEN_IDS = 8192"

definition ROUTE_TTL :: nat where
  "ROUTE_TTL = from_secs 300"

definition MAX_ROUTE_HINTS :: nat where
  "MAX_ROUTE_HINTS = 16384"

text \<open>
  What a call depends on besides the shared state: its reads of the clock, which channels
  have a receiver, and what the local relay answers.
\<close>

datatype local_answer =
    ChannelClosed
  | NoAnswer
  | Answered bool

record mesh_env =
  clock :: "nat \<Rightarrow> instant"
  chan_open :: "u64 \<Rightarrow> bool"
  ask_local :: "MeshIncomingPacket \<Rightarrow> local_answer"

text \<open>A queued frame, with the peer and the number of the connection it is queued for.\<close>

type_synonym send = "string \<times> u64 \<times> MeshFrame"

section \<open>Message ids and routes\<close>

definition remember_message :: "instant \<Rightarrow> string \<Rightarrow> MeshContext \<Rightarrow> bool \<times> MeshContext" where
  "remember_message now message_id context =
     (let guard = cx_seen_ids context in
      if (case hm_get guard message_id of
            Some seen_at \<Rightarrow> now - seen_at < SEEN_TTL
          | None \<Rightarrow> False)
      then (False, context)
      else (True, context\<lparr>cx_seen_ids :=
              touch_cache MAX_SEEN_IDS SEEN_TTL (\<lambda>seen_at. seen_at) now message_id now guard\<rparr>))"

definition learn_route :: "instant \<Rightarrow> string \<Rightarrow> string \<Rightarrow> MeshContext \<Rightarrow> MeshContext" where
  "learn_route now node_id peer_id context =
     (if node_id = [] \<or> peer_id = [] then context
      else context\<lparr>cx_route_hints :=
        touch_cache MAX_ROUTE_HINTS ROUTE_TTL rh_updated_at now node_id
          \<lparr>rh_peer_id = peer_id, rh_updated_at = now\<rparr> (cx_route_hints context)\<rparr>)"

definition lookup_route :: "instant \<Rightarrow> string \<Rightarrow> MeshContext \<Rightarrow> string option \<times> MeshContext" where
  "lookup_route now node_id context =
     (case hm_get (cx_route_hints context) node_id of
        Some route \<Rightarrow>
          if now - rh_updated_at route \<le> ROUTE_TTL then (Some (rh_peer_id route), context)
          else (None, context\<lparr>cx_route_hints := hm_remove node_id (cx_route_hints context)\<rparr>)
      | None \<Rightarrow> (None, context))"

section \<open>Sending\<close>

definition send_to_peer :: "mesh_env \<Rightarrow> string \<Rightarrow> MeshFrame \<Rightarrow> MeshContext \<Rightarrow> bool \<times> send list" where
  "send_to_peer V peer_id frame context =
     (case hm_get (cx_peers context) peer_id of
        None \<Rightarrow> (False, [])
      | Some sender \<Rightarrow>
          if chan_open V (ps_conn_id sender) then (True, [(peer_id, ps_conn_id sender, frame)])
          else (False, []))"

definition broadcast :: "mesh_env \<Rightarrow> string option \<Rightarrow> MeshFrame \<Rightarrow> MeshContext \<Rightarrow> send list" where
  "broadcast V exclude_peer frame context =
     (let targets = map (\<lambda>(peer_id, sender). (peer_id, ps_conn_id sender)) (hm_iter (cx_peers context))
      in concat (map (\<lambda>(peer_id, tx).
           if exclude_peer = Some peer_id then []
           else if chan_open V tx then [(peer_id, tx, frame)] else []) targets))"

definition forward_to_target ::
  "mesh_env \<Rightarrow> instant \<Rightarrow> string option \<Rightarrow> string \<Rightarrow> MeshFrame \<Rightarrow> MeshContext \<Rightarrow> MeshContext \<times> send list"
where
  "forward_to_target V now exclude_peer target_node_id frame context =
     (case lookup_route now target_node_id context of
        (Some peer_id, context) \<Rightarrow>
          if exclude_peer \<noteq> Some peer_id \<and> fst (send_to_peer V peer_id frame context)
          then (context, snd (send_to_peer V peer_id frame context))
          else (context, broadcast V exclude_peer frame context)
      | (None, context) \<Rightarrow> (context, broadcast V exclude_peer frame context))"

definition deliver_local :: "mesh_env \<Rightarrow> MeshIncomingPacket \<Rightarrow> bool" where
  "deliver_local V packet = (case ask_local V packet of Answered delivered \<Rightarrow> delivered | _ \<Rightarrow> False)"

section \<open>Frames\<close>

record base64 =
  b64_encode :: "bytes \<Rightarrow> string"
  b64_decode :: "string \<Rightarrow> bytes option"

text \<open>The result of a call: its error or success, the state, the frames queued, the packets handed over.\<close>

type_synonym mesh_result = "(string + unit) \<times> MeshContext \<times> send list \<times> MeshIncomingPacket list"

definition handle_frame ::
  "base64 \<Rightarrow> mesh_env \<Rightarrow> string \<Rightarrow> MeshFrame \<Rightarrow> MeshContext \<Rightarrow> mesh_result"
where
  "handle_frame B V source_peer frame context =
     (case frame of
        Hello _ \<Rightarrow> (Inr (), context, [], [])
      | Relay message_id transport from_id to_id payload_b64 hops_left \<Rightarrow>
          (case remember_message (clock V 0) message_id context of
             (False, context) \<Rightarrow> (Inr (), context, [], [])
           | (True, context) \<Rightarrow>
               (let context = learn_route (clock V 1) from_id source_peer context in
                case b64_decode B payload_b64 of
                  None \<Rightarrow> (Inl ''mesh payload decode failed'', context, [], [])
                | Some payload \<Rightarrow>
                    (let packet = \<lparr>mi_transport = transport, mi_from_id = from_id, mi_to_id = to_id,
                                   mi_payload = payload\<rparr>;
                         delivered = deliver_local V packet
                     in if delivered \<or> hops_left = 0 then (Inr (), context, [], [packet])
                        else
                          (let forwarded = Relay message_id transport from_id to_id (b64_encode B payload)
                                             (saturating_sub hops_left 1)
                           in case forward_to_target V (clock V 2) (Some source_peer) to_id forwarded context of
                                (context, sends) \<Rightarrow> (Inr (), context, sends, [packet]))))))"

text \<open>The task of \<open>start\<close> that takes packets from the local relays, for one packet and its fresh message id.\<close>

definition from_local ::
  "base64 \<Rightarrow> mesh_env \<Rightarrow> string \<Rightarrow> MeshOutgoingPacket \<Rightarrow> MeshContext \<Rightarrow> MeshContext \<times> send list"
where
  "from_local B V message_id packet context =
     (let context = snd (remember_message (clock V 0) message_id context);
          frame = Relay message_id (mo_transport packet) (mo_from_id packet) (mo_to_id packet)
                    (b64_encode B (mo_payload packet)) (cx_max_hops context)
      in forward_to_target V (clock V 1) None (mo_to_id packet) frame context)"

section \<open>Connections\<close>

definition validate_peer :: "MeshContext \<Rightarrow> string option \<Rightarrow> string \<Rightarrow> string + unit" where
  "validate_peer context expected_peer peer_id =
     (if peer_id = [] then Inl ''mesh peer id is empty''
      else if peer_id = cx_server_id context then Inl ''mesh peer id matched local server id''
      else case expected_peer of
             Some expected \<Rightarrow>
               if expected \<noteq> peer_id
               then Inl (''mesh peer id mismatch: expected '' @ expected @ '', got '' @ peer_id)
               else if cx_allowed_peers context = {} then Inl ''mesh peer allowlist is empty''
               else if peer_id \<notin> cx_allowed_peers context
               then Inl (''mesh peer '' @ peer_id @ '' is not in allowlist'')
               else Inr ()
           | None \<Rightarrow>
               if cx_allowed_peers context = {} then Inl ''mesh peer allowlist is empty''
               else if peer_id \<notin> cx_allowed_peers context
               then Inl (''mesh peer '' @ peer_id @ '' is not in allowlist'')
               else Inr ())"

text \<open>What \<open>lines.next_line()\<close> gives: a line, the end of the stream, or an error.\<close>

datatype line_read =
    Line string
  | Eof
  | ReadErr

text \<open>
  The server: the shared state, the connection counter, and the connections whose task is in
  its loop, with the peer id that is a local variable of the task.
\<close>

record mesh_server =
  ms_context :: MeshContext
  ms_next_conn_id :: u64
  ms_conns :: "(u64, string) hmap"

text \<open>
  \<open>run_connection\<close> up to its loop, after the hello frame has been written: the first line
  must be a hello of a peer that passes \<open>validate_peer\<close>.
\<close>

definition open_connection ::
  "(string \<Rightarrow> MeshFrame option) \<Rightarrow> string option \<Rightarrow> line_read \<Rightarrow> mesh_server \<Rightarrow> (string + u64) \<times> mesh_server"
where
  "open_connection from_str expected_peer hello_line s =
     (case hello_line of
        ReadErr \<Rightarrow> (Inl ''mesh hello read failed'', s)
      | Eof \<Rightarrow> (Inl ''mesh connection closed before hello'', s)
      | Line line \<Rightarrow>
          (case from_str line of
             None \<Rightarrow> (Inl ''mesh hello parse failed'', s)
           | Some (Relay _ _ _ _ _ _) \<Rightarrow> (Inl ''mesh expected hello frame'', s)
           | Some (Hello peer_id) \<Rightarrow>
               (case validate_peer (ms_context s) expected_peer peer_id of
                  Inl e \<Rightarrow> (Inl e, s)
                | Inr _ \<Rightarrow>
                    (let conn_id = ms_next_conn_id s in
                     (Inr conn_id,
                      s\<lparr>ms_next_conn_id := conn_id + 1,
                        ms_context := (ms_context s)\<lparr>cx_peers :=
                          hm_insert peer_id \<lparr>ps_conn_id = conn_id\<rparr> (cx_peers (ms_context s))\<rparr>,
                        ms_conns := hm_insert conn_id peer_id (ms_conns s)\<rparr>)))))"

text \<open>\<open>write_frame\<close>, for a stream that takes everything: the JSON of the frame and a newline.\<close>

definition write_frame :: "(MeshFrame \<Rightarrow> bytes option) \<Rightarrow> MeshFrame \<Rightarrow> bytes option" where
  "write_frame to_vec frame =
     (case to_vec frame of None \<Rightarrow> None | Some body \<Rightarrow> Some (body @ [char_of (10 :: nat)]))"

text \<open>
  \<open>run_connection\<close> up to its loop: its own hello is written before the hello of the peer is read.
  \<open>written\<close> says whether the stream took it.
\<close>

definition run_connection ::
  "(MeshFrame \<Rightarrow> bytes option) \<Rightarrow> (string \<Rightarrow> MeshFrame option) \<Rightarrow> bool \<Rightarrow> string option \<Rightarrow> line_read \<Rightarrow> mesh_server
   \<Rightarrow> (string + u64) \<times> mesh_server \<times> bytes"
where
  "run_connection to_vec from_str written expected_peer hello_line s =
     (case write_frame to_vec (Hello (cx_server_id (ms_context s))) of
        None \<Rightarrow> (Inl ''mesh hello write failed'', s, [])
      | Some wire \<Rightarrow>
          if \<not> written then (Inl ''mesh hello write failed'', s, [])
          else (case open_connection from_str expected_peer hello_line s of (result, s) \<Rightarrow> (result, s, wire)))"

text \<open>
  \<open>run_listener\<close> and a round of \<open>run_outbound_peer\<close>, up to the loop of the connection:
  whether the TLS handshake succeeded, whether the peer's id is a server name, and how
  far the attempt got. An outbound task whose id is no server name never connects.
\<close>

definition inbound_connection ::
  "(MeshFrame \<Rightarrow> bytes option) \<Rightarrow> (string \<Rightarrow> MeshFrame option) \<Rightarrow> bool \<Rightarrow> bool \<Rightarrow> line_read \<Rightarrow> mesh_server
   \<Rightarrow> (string + u64) \<times> mesh_server \<times> bytes"
where
  "inbound_connection to_vec from_str tls_ok written hello_line s =
     (if \<not> tls_ok then (Inl ''mesh tls accept failed'', s, [])
      else run_connection to_vec from_str written None hello_line s)"

datatype dial =
    TcpFailed
  | TlsFailed
  | Dialled bool line_read

definition outbound_connection ::
  "(MeshFrame \<Rightarrow> bytes option) \<Rightarrow> (string \<Rightarrow> MeshFrame option) \<Rightarrow> (string \<Rightarrow> bool) \<Rightarrow> dial \<Rightarrow> MeshPeer \<Rightarrow> mesh_server
   \<Rightarrow> (string + u64) \<times> mesh_server \<times> bytes"
where
  "outbound_connection to_vec from_str is_server_name dial peer s =
     (if \<not> is_server_name (mp_id peer)
      then (Inl (''mesh peer '' @ mp_id peer @ '' has invalid tls server name; expected DNS-like identifier''), s, [])
      else case dial of
             TcpFailed \<Rightarrow> (Inl ''mesh tcp connect failed'', s, [])
           | TlsFailed \<Rightarrow> (Inl ''mesh tls connect failed'', s, [])
           | Dialled written hello_line \<Rightarrow> run_connection to_vec from_str written (Some (mp_id peer)) hello_line s)"

text \<open>The end of \<open>run_connection\<close>: the peer is forgotten unless a newer connection has taken its place.\<close>

definition close_connection :: "u64 \<Rightarrow> string \<Rightarrow> MeshContext \<Rightarrow> MeshContext" where
  "close_connection conn_id peer_id context =
     (if (case hm_get (cx_peers context) peer_id of
            Some entry \<Rightarrow> ps_conn_id entry = conn_id
          | None \<Rightarrow> False)
      then context\<lparr>cx_peers := hm_remove peer_id (cx_peers context)\<rparr>
      else context)"

text \<open>
  One turn of the loop of \<open>run_connection\<close>: a line that does not parse is skipped, a frame
  is handled, the end of the stream ends the task with its clean-up, and a read error ends it
  without, by the question mark after the read.
\<close>

definition connection_turn ::
  "(string \<Rightarrow> MeshFrame option) \<Rightarrow> base64 \<Rightarrow> mesh_env \<Rightarrow> u64 \<Rightarrow> line_read \<Rightarrow> mesh_server
   \<Rightarrow> mesh_server \<times> send list \<times> MeshIncomingPacket list"
where
  "connection_turn from_str B V conn_id read s =
     (case hm_get (ms_conns s) conn_id of
        None \<Rightarrow> (s, [], [])
      | Some peer_id \<Rightarrow>
          (case read of
             Line line \<Rightarrow>
               (case from_str line of
                  None \<Rightarrow> (s, [], [])
                | Some frame \<Rightarrow>
                    (case handle_frame B V peer_id frame (ms_context s) of
                       (_, context, sends, packets) \<Rightarrow> (s\<lparr>ms_context := context\<rparr>, sends, packets)))
           | Eof \<Rightarrow>
               (s\<lparr>ms_conns := hm_remove conn_id (ms_conns s),
                  ms_context := close_connection conn_id peer_id (ms_context s)\<rparr>, [], [])
           | ReadErr \<Rightarrow> (s\<lparr>ms_conns := hm_remove conn_id (ms_conns s)\<rparr>, [], [])))"

text \<open>The state \<open>start\<close> begins with, and its checks.\<close>

definition start_context :: "string \<Rightarrow> u8 \<Rightarrow> MeshPeer list \<Rightarrow> string + MeshContext" where
  "start_context server_id max_hops peers =
     (if trim server_id = [] then Inl ''mesh server id must be non-empty''
      else if max_hops = 0 then Inl ''mesh max hops must be > 0''
      else Inr \<lparr>cx_server_id = server_id, cx_max_hops = max_hops,
                cx_allowed_peers = set (map mp_id peers), cx_peers = hm_empty,
                cx_seen_ids = hm_empty, cx_route_hints = hm_empty\<rparr>)"

section \<open>Certificates\<close>

text \<open>
  The readers of \<open>rustls_pemfile\<close> and the builders of \<open>rustls\<close> are parameters: what is in a
  file, if it can be opened, what a reader finds in it, or its error, and whether the verifier
  takes the roots and the builders take a certificate chain with a key.
  \<open>keys.pop()\<close> takes the last key.
\<close>

record ('cert, 'key) pem =
  pem_file :: "string \<Rightarrow> bytes option"
  pem_certs :: "bytes \<Rightarrow> 'cert list option"
  pem_pkcs8 :: "bytes \<Rightarrow> 'key list option"
  pem_rsa :: "bytes \<Rightarrow> 'key list option"
  pem_ec :: "bytes \<Rightarrow> 'key list option"
  tls_verifier_ok :: "'cert list \<Rightarrow> bool"
  tls_server_ok :: "'cert list \<Rightarrow> 'key \<Rightarrow> bool"
  tls_client_ok :: "'cert list \<Rightarrow> 'key \<Rightarrow> bool"

definition load_certs :: "('cert, 'key) pem \<Rightarrow> string \<Rightarrow> string + 'cert list" where
  "load_certs P path =
     (case pem_file P path of
        None \<Rightarrow> Inl (''failed to open '' @ path)
      | Some file \<Rightarrow>
          (case pem_certs P file of
             None \<Rightarrow> Inl (''failed to read certs from '' @ path)
           | Some certs \<Rightarrow> if certs = [] then Inl (''no certs in '' @ path) else Inr certs))"

definition load_private_key :: "('cert, 'key) pem \<Rightarrow> string \<Rightarrow> string + 'key" where
  "load_private_key P path =
     (case pem_file P path of
        None \<Rightarrow> Inl (''failed to open '' @ path)
      | Some file \<Rightarrow>
          (case pem_pkcs8 P file of
             None \<Rightarrow> Inl (''failed to read private key from '' @ path)
           | Some keys \<Rightarrow>
               if keys \<noteq> [] then Inr (last keys)
               else case pem_rsa P file of
                 None \<Rightarrow> Inl (''failed to read rsa private key from '' @ path)
               | Some keys \<Rightarrow>
                   if keys \<noteq> [] then Inr (last keys)
                   else case pem_ec P file of
                     None \<Rightarrow> Inl (''failed to read ec private key from '' @ path)
                   | Some keys \<Rightarrow>
                       if keys \<noteq> [] then Inr (last keys) else Inl (''no private key found in '' @ path)))"

text \<open>
  The two TLS configurations, as what they are built from: the roots, all of which the trust
  store must take, the own certificates and the key.
\<close>

definition build_server_tls_config ::
  "('cert, 'key) pem \<Rightarrow> ('cert \<Rightarrow> bool) \<Rightarrow> string \<Rightarrow> string \<Rightarrow> string \<Rightarrow> string + 'cert list \<times> 'cert list \<times> 'key"
where
  "build_server_tls_config P trusts ca_cert_path cert_path key_path =
     (case load_certs P cert_path of Inl e \<Rightarrow> Inl e | Inr certs \<Rightarrow>
     (case load_private_key P key_path of Inl e \<Rightarrow> Inl e | Inr key \<Rightarrow>
     (case load_certs P ca_cert_path of Inl e \<Rightarrow> Inl e | Inr roots \<Rightarrow>
        if \<not> list_all trusts roots then Inl ''failed to add mesh CA cert to trust store''
        else if \<not> tls_verifier_ok P roots then Inl ''failed to build mesh client cert verifier''
        else if \<not> tls_server_ok P certs key then Inl ''failed to build mesh server tls config''
        else Inr (roots, certs, key))))"

text \<open>The client's configuration takes the same files in another order.\<close>

definition build_client_tls_config ::
  "('cert, 'key) pem \<Rightarrow> ('cert \<Rightarrow> bool) \<Rightarrow> string \<Rightarrow> string \<Rightarrow> string \<Rightarrow> string + 'cert list \<times> 'cert list \<times> 'key"
where
  "build_client_tls_config P trusts ca_cert_path cert_path key_path =
     (case load_certs P ca_cert_path of Inl e \<Rightarrow> Inl e | Inr roots \<Rightarrow>
        if \<not> list_all trusts roots then Inl ''failed to add mesh CA cert to trust store''
        else case load_certs P cert_path of Inl e \<Rightarrow> Inl e | Inr certs \<Rightarrow>
        (case load_private_key P key_path of Inl e \<Rightarrow> Inl e | Inr key \<Rightarrow>
           if \<not> tls_client_ok P certs key then Inl ''failed to build mesh client tls config''
           else Inr (roots, certs, key)))"

text \<open>Both ends of the mesh present the same certificates and trust the same roots.\<close>

lemma tls_configs_agree:
  assumes "build_server_tls_config P trusts ca cert key = Inr server" and "build_client_tls_config P trusts ca cert key = Inr client"
  shows "client = server"
  using assms
  by (cases "load_certs P ca"; cases "load_certs P cert"; cases "load_private_key P key")
    (auto simp: build_client_tls_config_def build_server_tls_config_def split: if_split_asm)

lemma load_certs_nonempty: "load_certs P path = Inr certs \<Longrightarrow> certs \<noteq> []"
  by (auto simp: load_certs_def split: option.splits if_split_asm)

lemma server_tls_verifies:
  "build_server_tls_config P trusts ca cert key = Inr (roots, certs, k) \<Longrightarrow>
     roots \<noteq> [] \<and> certs \<noteq> [] \<and> list_all trusts roots \<and> load_private_key P key = Inr k"
  by (auto simp: build_server_tls_config_def load_certs_nonempty split: sum.splits if_split_asm)

section \<open>Frames on the wire\<close>

text \<open>
  The documented behaviour of \<open>Lines::next_line\<close> on the bytes still to come: a line ends
  with a newline or with the stream, a carriage return before the newline is dropped, and
  a line that is not UTF-8 is an error.
\<close>

definition next_line :: "bytes \<Rightarrow> line_read \<times> bytes" where
  "next_line s =
     (if s = [] then (Eof, [])
      else
        (let newline = char_of (10 :: nat);
             line = takeWhile (\<lambda>c. c \<noteq> newline) s;
             rest = tl (dropWhile (\<lambda>c. c \<noteq> newline) s);
             line = (if newline \<in> set s \<and> line \<noteq> [] \<and> last line = char_of (13 :: nat)
                     then butlast line else line)
         in (if from_utf8 line then Line line else ReadErr, rest)))"

text \<open>The frames a connection reads before the end of the stream or an error; lines that are no frames are skipped.\<close>

lemma next_line_shorter: "next_line s = (r, rest) \<Longrightarrow> r \<noteq> Eof \<Longrightarrow> length rest < length s"
proof -
  assume a: "next_line s = (r, rest)" "r \<noteq> Eof"
  then have "s \<noteq> []" and "rest = tl (dropWhile (\<lambda>c. c \<noteq> char_of (10 :: nat)) s)"
    by (auto simp: next_line_def Let_def split: if_split_asm)
  then show ?thesis
    using length_dropWhile_le [of "\<lambda>c. c \<noteq> char_of (10 :: nat)" s]
    by (cases s) (auto simp: less_Suc_eq_le)
qed

function mesh_frames :: "(string \<Rightarrow> MeshFrame option) \<Rightarrow> bytes \<Rightarrow> MeshFrame list" where
  "mesh_frames from_str s =
     (case next_line s of
        (Line line, rest) \<Rightarrow>
          (case from_str line of Some frame \<Rightarrow> frame # mesh_frames from_str rest | None \<Rightarrow> mesh_frames from_str rest)
      | (_, _) \<Rightarrow> [])"
  by pat_completeness auto
termination
  by (relation "measure (length \<circ> snd)") (auto dest!: next_line_shorter [OF sym])

declare mesh_frames.simps [simp del]

text \<open>
  What is relied on of the JSON encoding: it is UTF-8, is parsed back, and escapes the
  control characters.
\<close>

definition json_laws :: "(MeshFrame \<Rightarrow> bytes option) \<Rightarrow> (string \<Rightarrow> MeshFrame option) \<Rightarrow> bool" where
  "json_laws to_vec from_str \<longleftrightarrow>
     (\<forall>frame body. to_vec frame = Some body \<longrightarrow> from_str body = Some frame \<and> from_utf8 body \<and>
        char_of (10 :: nat) \<notin> set body \<and> char_of (13 :: nat) \<notin> set body)"

lemma next_line_frame:
  assumes "json_laws to_vec from_str" and "write_frame to_vec frame = Some wire"
  shows "\<exists>line. next_line (wire @ rest) = (Line line, rest) \<and> from_str line = Some frame"
proof -
  obtain body where body: "to_vec frame = Some body" and wire: "wire = body @ [char_of (10 :: nat)]"
    using assms(2) by (auto simp: write_frame_def split: option.splits)
  have laws: "from_str body = Some frame" "from_utf8 body" "char_of (10 :: nat) \<notin> set body" "char_of (13 :: nat) \<notin> set body"
    using assms(1) body by (auto simp: json_laws_def)
  have "takeWhile (\<lambda>c. c \<noteq> char_of (10 :: nat)) (wire @ rest) = body"
      "dropWhile (\<lambda>c. c \<noteq> char_of (10 :: nat)) (wire @ rest) = char_of (10 :: nat) # rest"
    using laws(3) by (auto simp: wire takeWhile_append dropWhile_append)
  moreover have "body \<noteq> [] \<Longrightarrow> last body \<noteq> char_of (13 :: nat)" using laws(4) last_in_set by metis
  ultimately have "next_line (wire @ rest) = (Line body, rest)"
    using laws(2) by (auto simp: next_line_def Let_def wire)
  with laws(1) show ?thesis by blast
qed

lemma mesh_frames_written:
  assumes "json_laws to_vec from_str" and "list_all2 (\<lambda>frame wire. write_frame to_vec frame = Some wire) frames wires"
  shows "mesh_frames from_str (concat wires @ rest) = frames @ mesh_frames from_str rest"
  using assms(2)
proof (induction rule: list_all2_induct)
  case (Cons frame frames wire wires)
  from next_line_frame [OF assms(1) Cons(1), of "concat wires @ rest"] Cons show ?case
    by (subst mesh_frames.simps) auto
qed simp

text \<open>
  The writer of a connection, and what else is relied on of JSON for it: the text of an object that
  is cut off does not parse. The other end then reads a prefix of the frames that were queued.
\<close>

definition mesh_writer :: "(MeshFrame \<Rightarrow> bytes option) \<Rightarrow> nat \<Rightarrow> MeshFrame list \<Rightarrow> bytes" where
  "mesh_writer to_vec capacity rx = writer_task (write_frame to_vec) capacity rx"

definition json_cut :: "(MeshFrame \<Rightarrow> bytes option) \<Rightarrow> (string \<Rightarrow> MeshFrame option) \<Rightarrow> bool" where
  "json_cut to_vec from_str \<longleftrightarrow>
     (\<forall>frame body n. to_vec frame = Some body \<longrightarrow> n < length body \<longrightarrow> from_str (take n body) = None)"

lemma mesh_frames_cut:
  assumes "json_laws to_vec from_str" and "json_cut to_vec from_str"
    and "write_frame to_vec frame = Some wire" and "n < length wire"
  shows "prefix (mesh_frames from_str (take n wire)) [frame]"
proof -
  obtain body where body: "to_vec frame = Some body" and wire: "wire = body @ [char_of (10 :: nat)]"
    using assms(3) by (auto simp: write_frame_def split: option.splits)
  have laws: "from_str body = Some frame" "char_of (10 :: nat) \<notin> set body"
    using assms(1) body by (auto simp: json_laws_def)
  have cut: "take n wire = take n body" using assms(4) by (simp add: wire)
  have "char_of (10 :: nat) \<notin> set (take n body)" using laws(2) by (blast dest: in_set_takeD)
  then have whole: "takeWhile (\<lambda>c. c \<noteq> char_of (10 :: nat)) (take n body) = take n body"
      "dropWhile (\<lambda>c. c \<noteq> char_of (10 :: nat)) (take n body) = []"
    by (auto simp: takeWhile_eq_all_conv dropWhile_eq_Nil_conv)
  have line: "next_line (take n body) =
      (if take n body = [] then Eof else if from_utf8 (take n body) then Line (take n body) else ReadErr, [])"
    using \<open>char_of (10 :: nat) \<notin> set (take n body)\<close> unfolding next_line_def Let_def whole by simp
  have rest: "mesh_frames from_str [] = []" by (simp add: mesh_frames.simps next_line_def)
  have "from_str (take n body) = (if n < length body then None else Some frame)"
    using assms(2) body laws(1) by (auto simp: json_cut_def)
  with line rest show ?thesis
    unfolding cut by (subst mesh_frames.simps) auto
qed

lemma mesh_framing:
  assumes "json_laws to_vec from_str" and "json_cut to_vec from_str"
  shows "framing (write_frame to_vec) (mesh_frames from_str)"
proof (unfold_locales, goal_cases)
  case (1 frame wire rest)
  from mesh_frames_written [OF assms(1), of "[frame]" "[wire]" rest] 1 show ?case by simp
next
  case 2 then show ?case by (rule mesh_frames_cut [OF assms])
next
  case 3 show ?case by (simp add: mesh_frames.simps next_line_def)
qed

lemma mesh_writer_prefix:
  assumes "json_laws to_vec from_str" and "json_cut to_vec from_str"
  shows "prefix (mesh_frames from_str (mesh_writer to_vec capacity frames)) frames"
  unfolding mesh_writer_def by (rule framing.writer_prefix [OF mesh_framing [OF assms]])

text \<open>Both laws can hold, here of an encoder that only knows one frame.\<close>

lemma json_laws_hold:
  defines "to_vec \<equiv> \<lambda>frame. if frame = Hello ''a'' then Some ''{a}'' else None"
    and "from_str \<equiv> \<lambda>line. if line = ''{a}'' then Some (Hello ''a'') else None"
  shows "json_laws to_vec from_str" "json_cut to_vec from_str"
proof -
  have utf8: "from_utf8 ''{a}''" by (simp add: utf8_width_def byte_in_def)
  show "json_laws to_vec from_str"
    unfolding json_laws_def to_vec_def from_str_def using utf8 by (simp add: char_of_eq_iff)
  show "json_cut to_vec from_str"
    unfolding json_cut_def to_vec_def from_str_def by (auto split: if_split_asm)
qed

section \<open>What the mesh relies on of a relay\<close>

text \<open>
  A relay delivers a packet to what it knows of the target. The mesh forwards a packet unless
  the relay answers that it was delivered, so the answer must be true exactly when something
  was sent, and only the target may get it.
\<close>

locale local_relay =
  fixes deliver :: "'env \<Rightarrow> 'peers \<Rightarrow> string \<Rightarrow> string \<Rightarrow> bytes \<Rightarrow> (string + bool) \<times> ('dest \<times> bytes) list"
    and knows :: "'peers \<Rightarrow> string \<Rightarrow> 'dest \<Rightarrow> bool"
    and layout :: "string \<Rightarrow> bytes \<Rightarrow> bytes"
  assumes deliver_to_target: "deliver V ps f t p = (r, out) \<Longrightarrow> (d, b) \<in> set out \<Longrightarrow> knows ps t d \<and> b = layout f p"
    and deliver_answer: "deliver V ps f t p = (r, out) \<Longrightarrow> r = Inr True \<longleftrightarrow> out \<noteq> []"
    and deliver_error: "deliver V ps f t p = (Inl e, out) \<Longrightarrow> MAX_ID_LEN < length f"
begin

lemma unknown_not_delivered:
  assumes "\<forall>d. \<not> knows ps t d" and "deliver V ps f t p = (r, out)"
  shows "out = [] \<and> r \<noteq> Inr True"
proof -
  have "out = []"
    using deliver_to_target [OF assms(2)] assms(1) by (cases out) auto
  with deliver_answer [OF assms(2)] show ?thesis by simp
qed

text \<open>The answer a relay gives the mesh, in which an error counts as not delivered, tells whether something was sent.\<close>

lemma answer_honest:
  "(case deliver V ps f t p of (result, out) \<Rightarrow> (result = Inr True, out)) = (delivered, out) \<Longrightarrow>
     (delivered \<longleftrightarrow> out \<noteq> []) \<and> (\<forall>(d, b)\<in>set out. knows ps t d \<and> b = layout f p)"
  using deliver_answer deliver_to_target by (fastforce split: prod.splits)

lemma valid_sender_no_error: "length f \<le> MAX_ID_LEN \<Longrightarrow> fst (deliver V ps f t p) \<noteq> Inl e"
  using deliver_error by (metis linorder_not_less prod.collapse)

end

end
