(* ===== verification/Udp_Relay.thy ===== *)
theory Udp_Relay
  imports Mesh
begin

text \<open>
  \<open>udp_relay.rs\<close>: a relay that remembers the address each node was last heard from and
  passes packets on to it. The socket addresses are opaque; the results of sends are
  inputs. Its three tasks, the loop over datagrams, the one over packets from the mesh and the
  periodic clean-up, share the map of peers.
\<close>

definition udp_MAGIC :: bytes where
  "udp_MAGIC = ''LSR1''"

definition PEER_TTL :: nat where
  "PEER_TTL = from_secs 300"

definition UDP_BUFFER :: nat where
  "UDP_BUFFER = 2048"

record 'addr Peer =
  pe_addr :: 'addr
  pe_last_seen :: instant

type_synonym 'addr udp_peers = "(string, 'addr Peer) hmap"

text \<open>The time, which datagrams the socket takes, and whether there is a mesh to fall back on.\<close>

record 'addr udp_env =
  ue_now :: instant
  ue_send_ok :: "bytes \<Rightarrow> 'addr \<Rightarrow> bool"
  ue_mesh :: bool

definition udp_parse_packet :: "bytes \<Rightarrow> RelayPacket option" where
  "udp_parse_packet = parse_packet udp_MAGIC"

definition udp_build_packet :: "byte \<Rightarrow> string \<Rightarrow> string \<Rightarrow> bytes \<Rightarrow> string + bytes" where
  "udp_build_packet = build_packet udp_MAGIC"

interpretation udp_codec: relay_codec udp_parse_packet udp_build_packet "packet_bytes udp_MAGIC"
  unfolding udp_parse_packet_def udp_build_packet_def
  by (rule relay_codec_packet) (simp add: udp_MAGIC_def)

definition upsert_peer :: "instant \<Rightarrow> string \<Rightarrow> 'addr \<Rightarrow> 'addr udp_peers \<Rightarrow> 'addr udp_peers" where
  "upsert_peer now node_id addr guard = hm_insert node_id \<lparr>pe_addr = addr, pe_last_seen = now\<rparr> guard"

definition udp_deliver_local ::
  "'addr udp_env \<Rightarrow> 'addr udp_peers \<Rightarrow> string \<Rightarrow> string \<Rightarrow> bytes \<Rightarrow> (string + bool) \<times> (bytes \<times> 'addr) list"
where
  "udp_deliver_local V peers from_id to_id payload =
     (case hm_get peers to_id of
        Some peer \<Rightarrow>
          (case udp_build_packet TYPE_DELIVER from_id [] payload of
             Inl e \<Rightarrow> (Inl e, [])
           | Inr deliver \<Rightarrow>
               if ue_send_ok V deliver (pe_addr peer) then (Inr True, [(deliver, pe_addr peer)])
               else (Inr False, []))
      | None \<Rightarrow> (Inr False, []))"

definition udp_knows :: "'addr udp_peers \<Rightarrow> string \<Rightarrow> 'addr \<Rightarrow> bool" where
  "udp_knows peers node addr \<longleftrightarrow> map_option pe_addr (hm_get peers node) = Some addr"

interpretation udp_local: local_relay
  "\<lambda>V peers f t p. apsnd (map prod.swap) (udp_deliver_local V peers f t p)" udp_knows
  "\<lambda>f p. packet_bytes udp_MAGIC TYPE_DELIVER (char_of (0 :: nat)) f [] p"
proof (unfold_locales, goal_cases)
  case 1 then show ?case
    by (auto simp: udp_deliver_local_def udp_knows_def udp_codec.build_eq split: option.splits if_split_asm)
next
  case 2 then show ?case
    by (auto simp: udp_deliver_local_def udp_codec.build_eq split: option.splits if_split_asm)
next
  case 3 then show ?case
    by (auto simp: udp_deliver_local_def udp_codec.build_eq not_le split: option.splits if_split_asm)
qed

text \<open>
  One turn of the loop of \<open>run_with_mesh\<close>: an error of \<open>deliver_local\<close> would end the
  relay. The result holds the datagrams sent and the packets handed to the mesh.
\<close>

definition udp_datagram ::
  "'addr udp_env \<Rightarrow> bytes \<Rightarrow> 'addr \<Rightarrow> 'addr udp_peers
   \<Rightarrow> (string + unit) \<times> 'addr udp_peers \<times> (bytes \<times> 'addr) list \<times> MeshOutgoingPacket list"
where
  "udp_datagram V datagram addr peers =
     (let buf = take UDP_BUFFER datagram in
      case udp_parse_packet buf of
        None \<Rightarrow> (Inr (), peers, [], [])
      | Some (Register node_id) \<Rightarrow> (Inr (), upsert_peer (ue_now V) node_id addr peers, [], [])
      | Some (Send from_id to_id payload) \<Rightarrow>
          (let peers = upsert_peer (ue_now V) from_id addr peers in
           case udp_deliver_local V peers from_id to_id payload of
             (Inl e, sent) \<Rightarrow> (Inl e, peers, sent, [])
           | (Inr delivered, sent) \<Rightarrow>
               (Inr (), peers, sent,
                if \<not> delivered \<and> ue_mesh V
                then [\<lparr>mo_transport = Udp, mo_from_id = from_id, mo_to_id = to_id, mo_payload = payload\<rparr>]
                else [])))"

text \<open>One turn of \<open>handle_mesh_deliveries\<close>: the answer on the one-shot channel and the datagrams sent.\<close>

definition udp_mesh_delivery ::
  "'addr udp_env \<Rightarrow> MeshIncomingPacket \<Rightarrow> 'addr udp_peers \<Rightarrow> bool \<times> (bytes \<times> 'addr) list"
where
  "udp_mesh_delivery V incoming peers =
     (if mi_transport incoming \<noteq> Udp then (False, [])
      else case udp_deliver_local V peers (mi_from_id incoming) (mi_to_id incoming) (mi_payload incoming) of
             (result, sent) \<Rightarrow> (result = Inr True, sent))"

definition cleanup_turn :: "instant \<Rightarrow> 'addr udp_peers \<Rightarrow> 'addr udp_peers" where
  "cleanup_turn now guard = hm_retain (\<lambda>_ peer. now - pe_last_seen peer < PEER_TTL) guard"

section \<open>Histories\<close>

text \<open>What happens to the map of peers, in the order in which the tasks take its lock.\<close>

datatype 'addr udp_event =
    Datagram bytes 'addr
  | MeshPacket MeshIncomingPacket
  | Cleanup

definition udp_step :: "'addr udp_env \<Rightarrow> 'addr udp_event \<Rightarrow> 'addr udp_peers \<Rightarrow> 'addr udp_peers" where
  "udp_step V ev peers =
     (case ev of
        Datagram buf addr \<Rightarrow> fst (snd (udp_datagram V buf addr peers))
      | MeshPacket _ \<Rightarrow> peers
      | Cleanup \<Rightarrow> cleanup_turn (ue_now V) peers)"

definition udp_run :: "('addr udp_env \<times> 'addr udp_event) list \<Rightarrow> 'addr udp_peers" where
  "udp_run h = fold (\<lambda>(V, ev). udp_step V ev) h hm_empty"

text \<open>The node a datagram says it comes from.\<close>

definition datagram_sender :: "bytes \<Rightarrow> string option" where
  "datagram_sender buf =
     (case udp_parse_packet (take UDP_BUFFER buf) of
        None \<Rightarrow> None
      | Some (Register node_id) \<Rightarrow> Some node_id
      | Some (Send from_id _ _) \<Rightarrow> Some from_id)"

definition names_node :: "string \<Rightarrow> 'addr udp_event \<Rightarrow> bool" where
  "names_node node ev \<longleftrightarrow> (case ev of Datagram buf _ \<Rightarrow> datagram_sender buf = Some node | _ \<Rightarrow> False)"

definition expires :: "instant \<Rightarrow> 'addr udp_env \<times> 'addr udp_event \<Rightarrow> bool" where
  "expires seen_at x \<longleftrightarrow> (case x of (V, Cleanup) \<Rightarrow> PEER_TTL \<le> ue_now V - seen_at | _ \<Rightarrow> False)"

text \<open>The datagram that gave the relay its entry for a node.\<close>

definition heard :: "string \<Rightarrow> 'addr Peer \<Rightarrow> 'addr udp_env \<times> 'addr udp_event \<Rightarrow> bool" where
  "heard node p x \<longleftrightarrow>
     (case x of
        (V, Datagram buf addr) \<Rightarrow> datagram_sender buf = Some node \<and> p = \<lparr>pe_addr = addr, pe_last_seen = ue_now V\<rparr>
      | _ \<Rightarrow> False)"

lemma heard_names: "heard node p (V, ev) \<Longrightarrow> names_node node ev"
  by (simp add: heard_def names_node_def split: udp_event.splits)

lemma udp_datagram_peers:
  "fst (snd (udp_datagram V buf addr peers)) =
     (case datagram_sender buf of None \<Rightarrow> peers | Some node \<Rightarrow> upsert_peer (ue_now V) node addr peers)"
  by (simp add: udp_datagram_def datagram_sender_def Let_def split: option.split RelayPacket.split prod.split sum.split)

lemma udp_step_wf: "hm_wf peers \<Longrightarrow> hm_wf (udp_step V ev peers)"
  by (simp add: udp_step_def udp_datagram_peers upsert_peer_def cleanup_turn_def split: udp_event.split option.split)

lemma udp_step_get:
  assumes "hm_wf peers"
  shows "hm_get (udp_step V ev peers) node = Some p \<longleftrightarrow>
    (if names_node node ev then heard node p (V, ev)
     else hm_get peers node = Some p \<and> \<not> expires (pe_last_seen p) (V, ev))"
  using assms
  by (cases ev; cases p)
    (auto simp: udp_step_def udp_datagram_peers upsert_peer_def cleanup_turn_def hm_simps hm_get_retain
      names_node_def heard_def expires_def split: option.split)

lemma udp_run_wf: "hm_wf (udp_run h)"
proof -
  have "hm_wf m \<Longrightarrow> hm_wf (fold (\<lambda>(V, ev). udp_step V ev) h m)" for m :: "'a udp_peers"
    by (induction h arbitrary: m) (auto intro: udp_step_wf)
  then show ?thesis by (simp add: udp_run_def)
qed

lemma udp_run_snoc: "udp_run (h @ [(V, ev)]) = udp_step V ev (udp_run h)"
  by (simp add: udp_run_def)

text \<open>The delivery of a packet that was parsed can be built.\<close>

lemma udp_deliver_built:
  assumes "udp_parse_packet buf = Some (Send from_id to_id payload)"
  shows "udp_build_packet TYPE_DELIVER from_id [] payload =
    Inr (packet_bytes udp_MAGIC TYPE_DELIVER (char_of (0 :: nat)) from_id [] payload)"
  using udp_codec.parse_valid_ids(2) [OF assms] by (simp add: udp_codec.build_eq valid_id_def)

lemma last_hit_snoc:
  "(\<exists>before y after. h @ [x] = before @ y # after \<and> Q y \<and> list_all ok after) \<longleftrightarrow>
     Q x \<or> ok x \<and> (\<exists>before y after. h = before @ y # after \<and> Q y \<and> list_all ok after)" (is "?l \<longleftrightarrow> ?r")
proof
  assume ?l
  then obtain before y after where "h @ [x] = before @ y # after" "Q y" "list_all ok after" by blast
  then show ?r by (cases after rule: rev_cases) auto
next
  assume ?r
  then consider "Q x" | before y after where "ok x" "h = before @ y # after" "Q y" "list_all ok after" by blast
  then show ?l
  proof cases
    case 1
    then show ?thesis by (intro exI [of _ h] exI [of _ x] exI [of _ "[]"]) simp
  next
    case 2
    then show ?thesis by (intro exI [of _ before] exI [of _ y] exI [of _ "after @ [x]"]) simp
  qed
qed

section \<open>Properties\<close>

text \<open>
  C25: after any history the relay knows an address for a node exactly when a datagram that named
  the node as its sender came from there, no later datagram named the node, and no
  clean-up since then found it older than five minutes. Who may name a node is not
  checked.
\<close>

theorem udp_peers_spec:
  "hm_get (udp_run h) node = Some p \<longleftrightarrow>
     (\<exists>before x after. h = before @ x # after \<and> heard node p x \<and>
        list_all (\<lambda>y. \<not> names_node node (snd y) \<and> \<not> expires (pe_last_seen p) y) after)"
proof (induction h rule: rev_induct)
  case Nil
  show ?case by (simp add: udp_run_def hm_simps)
next
  case (snoc x h)
  obtain V ev where x: "x = (V, ev)" by fastforce
  show ?case
    unfolding last_hit_snoc snoc.IH [symmetric] unfolding x udp_run_snoc udp_step_get [OF udp_run_wf]
    by (auto dest: heard_names)
qed


definition ex_send :: bytes where
  "ex_send = packet_bytes udp_MAGIC TYPE_SEND (char_of (0 :: nat)) ''n1'' ''n2'' ''hi''"

lemma ex_send_parse: "udp_parse_packet (take UDP_BUFFER ex_send) = Some (Send ''n1'' ''n2'' ''hi'')"
proof -
  have "take UDP_BUFFER ex_send = ex_send"
    by (simp add: ex_send_def UDP_BUFFER_def packet_bytes_def udp_MAGIC_def)
  moreover have "valid_id ''n1''" "valid_id ''n2''"
    by (simp_all add: valid_id_def MAX_ID_LEN_def utf8_width_def byte_in_def)
  ultimately show ?thesis by (auto simp: udp_codec.parse_Send ex_send_def)
qed


end
