(* ===== verification/Stream_Relay.thy ===== *)
theory Stream_Relay
  imports Mesh
begin

text \<open>
  \<open>stream_relay.rs\<close>: a relay over TCP. A node registers on its connection and may then send
  under the id it registered; every connection of the target gets the packet. Each
  connection is a task; what the tasks share is the map from node ids to connections. A
  step takes one frame of one connection, from reading it to the next read.
\<close>

definition stream_MAGIC :: bytes where
  "stream_MAGIC = ''LSR2''"

definition MAX_FRAME_LEN :: nat where
  "MAX_FRAME_LEN = 64 * 1024"

definition stream_parse_packet :: "bytes \<Rightarrow> RelayPacket option" where
  "stream_parse_packet = parse_packet stream_MAGIC"

definition stream_build_packet :: "byte \<Rightarrow> string \<Rightarrow> string \<Rightarrow> bytes \<Rightarrow> string + bytes" where
  "stream_build_packet = build_packet stream_MAGIC"

interpretation stream_codec: relay_codec stream_parse_packet stream_build_packet "packet_bytes stream_MAGIC"
  unfolding stream_parse_packet_def stream_build_packet_def
  by (rule relay_codec_packet) (simp add: stream_MAGIC_def)

section \<open>Frames\<close>

text \<open>\<open>u32::to_be_bytes\<close> and \<open>u32::from_be_bytes\<close>.\<close>

definition to_be_bytes :: "u32 \<Rightarrow> bytes" where
  "to_be_bytes w = map (\<lambda>i. char_of (unat w div 256 ^ i)) [3, 2, 1, 0]"

definition from_be_bytes :: "bytes \<Rightarrow> u32" where
  "from_be_bytes bs = of_nat (foldl (\<lambda>n b. n * 256 + of_char b) 0 bs)"

text \<open>\<open>read_exact\<close> on the bytes that will still arrive: too few are an error.\<close>

definition read_exact :: "nat \<Rightarrow> bytes \<Rightarrow> (bytes \<times> bytes) option" where
  "read_exact n s = (if length s < n then None else Some (take n s, drop n s))"

definition read_frame :: "bytes \<Rightarrow> (string + bytes) \<times> bytes" where
  "read_frame reader =
     (case read_exact 4 reader of
        None \<Rightarrow> (Inl ''early eof'', [])
      | Some (len_buf, reader) \<Rightarrow>
          (let len = unat (from_be_bytes len_buf) in
           if len = 0 \<or> len > MAX_FRAME_LEN then (Inl (''invalid frame length '' @ show_nat len), reader)
           else case read_exact len reader of
                  None \<Rightarrow> (Inl ''early eof'', [])
                | Some (buf, reader) \<Rightarrow> (Inr buf, reader)))"

text \<open>\<open>write_frame\<close> on a socket that takes everything.\<close>

definition stream_write_frame :: "bytes \<Rightarrow> string + bytes" where
  "stream_write_frame body =
     (if body = [] \<or> length body > MAX_FRAME_LEN then Inl (''invalid frame length '' @ show_nat (length body))
      else let len = of_nat (length body) :: u32 in Inr (to_be_bytes len @ body))"

section \<open>Connections\<close>

text \<open>The sender of a \<open>PeerConn\<close> is the channel of the connection with that number.\<close>

record PeerConn =
  pc_id :: u64

type_synonym stream_peers = "(string, PeerConn list) hmap"

text \<open>
  The relay: the map, the connection counter, and the tasks, each with the node id it has
  registered, once it has.
\<close>

record stream_state =
  ss_peers :: stream_peers
  ss_next_conn_id :: u64
  ss_conns :: "(u64, string option) hmap"

record stream_env =
  se_open :: "u64 \<Rightarrow> bool"
  se_mesh :: bool

text \<open>The result of a step: the frames queued for connections and the packets handed to the mesh.\<close>

type_synonym stream_out = "(u64 \<times> bytes) list \<times> MeshOutgoingPacket list"

definition stream_deliver_local ::
  "stream_env \<Rightarrow> stream_peers \<Rightarrow> string \<Rightarrow> string \<Rightarrow> bytes \<Rightarrow> (string + bool) \<times> (u64 \<times> bytes) list"
where
  "stream_deliver_local V peers from_id to_id payload =
     (case hm_get peers to_id of
        None \<Rightarrow> (Inr False, [])
      | Some targets \<Rightarrow>
          (case stream_build_packet TYPE_DELIVER from_id [] payload of
             Inl e \<Rightarrow> (Inl e, [])
           | Inr deliver \<Rightarrow>
               (let sent = map (\<lambda>target. (pc_id target, deliver)) (filter (\<lambda>target. se_open V (pc_id target)) targets)
                in (Inr (sent \<noteq> []), sent))))"

definition stream_knows :: "stream_peers \<Rightarrow> string \<Rightarrow> u64 \<Rightarrow> bool" where
  "stream_knows peers node c \<longleftrightarrow> (case hm_get peers node of None \<Rightarrow> False | Some cs \<Rightarrow> c \<in> pc_id ` set cs)"

interpretation stream_local: local_relay stream_deliver_local stream_knows
  "\<lambda>f p. packet_bytes stream_MAGIC TYPE_DELIVER (char_of (0 :: nat)) f [] p"
proof (unfold_locales, goal_cases)
  case 1 then show ?case
    by (auto simp: stream_deliver_local_def stream_knows_def stream_codec.build_eq Let_def
        split: option.splits if_split_asm)
next
  case 2 then show ?case
    by (auto simp: stream_deliver_local_def stream_codec.build_eq Let_def split: option.splits if_split_asm)
next
  case 3 then show ?case
    by (auto simp: stream_deliver_local_def stream_codec.build_eq not_le Let_def split: option.splits if_split_asm)
qed

text \<open>\<open>NEXT_CONN_ID.fetch_add\<close> wraps around.\<close>

definition accept_connection :: "stream_state \<Rightarrow> stream_state" where
  "accept_connection s =
     s\<lparr>ss_next_conn_id := ss_next_conn_id s + 1, ss_conns := hm_insert (ss_next_conn_id s) None (ss_conns s)\<rparr>"

definition register_conn :: "string \<Rightarrow> u64 \<Rightarrow> stream_peers \<Rightarrow> stream_peers" where
  "register_conn node_id conn_id guard =
     hm_insert node_id ((case hm_get guard node_id of Some list \<Rightarrow> list | None \<Rightarrow> []) @ [\<lparr>pc_id = conn_id\<rparr>]) guard"

definition unregister_conn :: "string \<Rightarrow> u64 \<Rightarrow> stream_peers \<Rightarrow> stream_peers" where
  "unregister_conn node_id conn_id guard =
     (case hm_get guard node_id of
        None \<Rightarrow> guard
      | Some list \<Rightarrow>
          (let list = filter (\<lambda>conn. pc_id conn \<noteq> conn_id) list in
           if list = [] then hm_remove node_id guard else hm_insert node_id list guard))"

text \<open>The first frame of a connection: anything but a registration ends the task.\<close>

definition register_turn :: "u64 \<Rightarrow> string + bytes \<Rightarrow> stream_state \<Rightarrow> stream_state" where
  "register_turn conn_id read s =
     (case read of
        Inl e \<Rightarrow> s\<lparr>ss_conns := hm_remove conn_id (ss_conns s)\<rparr>
      | Inr frame \<Rightarrow>
          (case stream_parse_packet frame of
             Some (Register node_id) \<Rightarrow>
               s\<lparr>ss_peers := register_conn node_id conn_id (ss_peers s),
                 ss_conns := hm_insert conn_id (Some node_id) (ss_conns s)\<rparr>
           | _ \<Rightarrow> s\<lparr>ss_conns := hm_remove conn_id (ss_conns s)\<rparr>))"

text \<open>
  A turn of the loop: a frame that cannot be read ends the task with its clean-up, one that
  cannot be parsed, a second registration and a foreign sender id are skipped, and an error
  of \<open>deliver_local\<close> would end the task without clean-up.
\<close>

definition relay_turn ::
  "stream_env \<Rightarrow> u64 \<Rightarrow> string \<Rightarrow> string + bytes \<Rightarrow> stream_state \<Rightarrow> stream_state \<times> stream_out"
where
  "relay_turn V conn_id node_id read s =
     (case read of
        Inl e \<Rightarrow>
          (s\<lparr>ss_peers := unregister_conn node_id conn_id (ss_peers s),
             ss_conns := hm_remove conn_id (ss_conns s)\<rparr>, [], [])
      | Inr frame \<Rightarrow>
          (case stream_parse_packet frame of
             None \<Rightarrow> (s, [], [])
           | Some (Register _) \<Rightarrow> (s, [], [])
           | Some (Send from_id to_id payload) \<Rightarrow>
               if from_id \<noteq> node_id then (s, [], [])
               else case stream_deliver_local V (ss_peers s) from_id to_id payload of
                      (Inl e, sent) \<Rightarrow> (s\<lparr>ss_conns := hm_remove conn_id (ss_conns s)\<rparr>, sent, [])
                    | (Inr delivered, sent) \<Rightarrow>
                        (s, sent,
                         if \<not> delivered \<and> se_mesh V
                         then [\<lparr>mo_transport = Stream, mo_from_id = from_id, mo_to_id = to_id, mo_payload = payload\<rparr>]
                         else [])))"

definition handle_connection ::
  "stream_env \<Rightarrow> u64 \<Rightarrow> string + bytes \<Rightarrow> stream_state \<Rightarrow> stream_state \<times> stream_out"
where
  "handle_connection V conn_id read s =
     (case hm_get (ss_conns s) conn_id of
        None \<Rightarrow> (s, [], [])
      | Some None \<Rightarrow> (register_turn conn_id read s, [], [])
      | Some (Some node_id) \<Rightarrow> relay_turn V conn_id node_id read s)"

text \<open>One turn of \<open>handle_mesh_deliveries\<close>: the answer and the frames queued.\<close>

definition stream_mesh_delivery ::
  "stream_env \<Rightarrow> MeshIncomingPacket \<Rightarrow> stream_peers \<Rightarrow> bool \<times> (u64 \<times> bytes) list"
where
  "stream_mesh_delivery V incoming peers =
     (case stream_deliver_local V peers (mi_from_id incoming) (mi_to_id incoming) (mi_payload incoming) of
        (result, sent) \<Rightarrow> (result = Inr True, sent))"

section \<open>The frames of a stream\<close>

text \<open>What the loop of a connection reads until the first error, which ends it.\<close>

lemma read_exact_Some: "read_exact n s = Some (a, r) \<longleftrightarrow> s = a @ r \<and> length a = n"
  by (auto simp: read_exact_def append_eq_conv_conj split: if_split_asm)

lemma read_frame_shorter: "read_frame s = (Inr body, r) \<Longrightarrow> length r < length s"
  by (auto simp: read_frame_def Let_def read_exact_Some split: option.splits if_split_asm)

function read_frames :: "bytes \<Rightarrow> bytes list" where
  "read_frames s = (case read_frame s of (Inl e, _) \<Rightarrow> [] | (Inr body, r) \<Rightarrow> body # read_frames r)"
  by pat_completeness auto
termination
  by (relation "measure length") (auto dest!: read_frame_shorter [OF sym])

declare read_frames.simps [simp del]

lemma from_to_be_bytes: "from_be_bytes (to_be_bytes w) = w"
proof -
  define n where "n = unat w"
  have step: "m div (k * 256) * 256 + m div k mod 256 = m div k" for m k :: nat
    by (simp add: div_mult2_eq)
  have "n < 256 * 16777216" using unsigned_less [of w, where ?'a = nat] by (simp add: n_def)
  then have "n div 16777216 mod 256 = n div 16777216" by (simp add: less_mult_imp_div_less)
  then have "foldl (\<lambda>n b. n * 256 + of_char b) 0 (to_be_bytes w) = n"
    using step [of n 65536] step [of n 256] step [of n 1] by (simp add: to_be_bytes_def n_def)
  then show ?thesis by (simp add: from_be_bytes_def n_def)
qed

lemma length_to_be_bytes: "length (to_be_bytes w) = 4"
  by (simp add: to_be_bytes_def)

definition frame_fits :: "bytes \<Rightarrow> bool" where
  "frame_fits body \<longleftrightarrow> body \<noteq> [] \<and> length body \<le> MAX_FRAME_LEN"

lemma write_frame_iff:
  "stream_write_frame body = Inr wire \<longleftrightarrow> frame_fits body \<and> wire = to_be_bytes (of_nat (length body)) @ body"
  by (auto simp: stream_write_frame_def frame_fits_def Let_def)

lemma read_frame_Inr:
  "read_frame s = (Inr body, r) \<longleftrightarrow>
     frame_fits body \<and> (\<exists>h. length h = 4 \<and> unat (from_be_bytes h) = length body \<and> s = h @ body @ r)"
  by (auto simp: read_frame_def Let_def read_exact_Some frame_fits_def split: option.splits if_split_asm)
    (auto simp: read_exact_def)

lemma read_write_frame:
  assumes "stream_write_frame body = Inr wire"
  shows "read_frame (wire @ rest) = (Inr body, rest)"
proof -
  have "length body < 2 ^ 32" using assms by (auto simp: write_frame_iff frame_fits_def MAX_FRAME_LEN_def)
  then have "unat (of_nat (length body) :: u32) = length body" by (simp add: unat_of_nat_small)
  with assms show ?thesis
    unfolding read_frame_Inr write_frame_iff
    by (intro conjI exI [of _ "to_be_bytes (of_nat (length body))"]) (simp_all add: from_to_be_bytes length_to_be_bytes)
qed

text \<open>The writer of a connection.\<close>

definition stream_writer :: "nat \<Rightarrow> bytes list \<Rightarrow> bytes" where
  "stream_writer capacity rx =
     writer_task (\<lambda>frame. case stream_write_frame frame of Inl _ \<Rightarrow> None | Inr wire \<Rightarrow> Some wire) capacity rx"

lemma read_frame_cut:
  assumes "stream_write_frame body = Inr wire" and "n < length wire"
  shows "\<exists>e. fst (read_frame (take n wire)) = Inl e"
proof (rule ccontr)
  assume "\<not> ?thesis"
  then obtain b r where "read_frame (take n wire) = (Inr b, r)"
    by (cases "read_frame (take n wire)"; cases "fst (read_frame (take n wire))") auto
  then obtain h where h: "length h = 4" "unat (from_be_bytes h) = length b" "take n wire = h @ b @ r"
    by (auto simp: read_frame_Inr)
  have wire: "wire = to_be_bytes (of_nat (length body)) @ body" and small: "length body < 2 ^ 32"
    using assms(1) by (auto simp: write_frame_iff frame_fits_def MAX_FRAME_LEN_def)
  have "take 4 wire = h" using h(1,3) by (metis append_eq_conv_conj append_take_drop_id append.assoc)
  then have "h = to_be_bytes (of_nat (length body))" by (simp add: wire length_to_be_bytes)
  then have "length b = length body" using h(2) small by (simp add: from_to_be_bytes unat_of_nat_small)
  moreover have "n = 4 + length b + length r" using h(1) arg_cong [OF h(3), of length] assms(2) by simp
  moreover have "length wire = 4 + length body" by (simp add: wire length_to_be_bytes)
  ultimately show False using assms(2) by simp
qed

interpretation stream_frames: framing "\<lambda>frame. case stream_write_frame frame of Inl _ \<Rightarrow> None | Inr wire \<Rightarrow> Some wire" read_frames
proof (unfold_locales, goal_cases)
  case (1 frame wire rest)
  then have "read_frame (wire @ rest) = (Inr frame, rest)" by (intro read_write_frame) (simp split: sum.splits)
  then show ?case by (subst read_frames.simps) simp
next
  case (2 frame wire n)
  then obtain e where "fst (read_frame (take n wire)) = Inl e" using read_frame_cut by (auto split: sum.splits)
  then show ?case by (subst read_frames.simps) (auto split: prod.split)
next
  case 3 show ?case by (simp add: read_frames.simps read_frame_def read_exact_def)
qed

text \<open>
  C31: Wherever a connection breaks off, and whatever frames are queued for it, the other end reads
  a prefix of them, unchanged and in order. It reads all of them when each is a frame of at
  least one byte and at most 64 KiB and the connection takes the bytes.
\<close>

theorem stream_frames_roundtrip:
  "prefix (read_frames (stream_writer capacity bodies)) bodies \<and>
   (list_all (\<lambda>body. 0 < length body \<and> length body \<le> 65536) bodies \<longrightarrow>
    sum_list (map (\<lambda>body. 4 + length body) bodies) \<le> capacity \<longrightarrow>
    read_frames (stream_writer capacity bodies) = bodies)"
proof (intro conjI impI)
  show "prefix (read_frames (stream_writer capacity bodies)) bodies"
    unfolding stream_writer_def by (rule stream_frames.writer_prefix)
next
  define wires where "wires = map (\<lambda>body. to_be_bytes (of_nat (length body)) @ body) bodies"
  assume "list_all (\<lambda>body. 0 < length body \<and> length body \<le> 65536) bodies"
  then have written: "list_all2 (\<lambda>frame wire. (case stream_write_frame frame of Inl _ \<Rightarrow> None | Inr wire \<Rightarrow> Some wire) = Some wire) bodies wires"
    by (auto simp: wires_def list_all2_map2 list_all2_same stream_write_frame_def MAX_FRAME_LEN_def list_all_iff)
  assume "sum_list (map (\<lambda>body. 4 + length body) bodies) \<le> capacity"
  then have "length (concat wires) \<le> capacity"
    by (simp add: wires_def length_concat comp_def length_to_be_bytes)
  with written show "read_frames (stream_writer capacity bodies) = bodies"
    unfolding stream_writer_def by (rule stream_frames.writer_complete)
qed

theorem stream_frames_roundtrip_witness:
  "read_frames (stream_writer 11 [''ab'', ''c'']) = [''ab'', ''c''] \<and>
   prefix (read_frames (stream_writer 10 [''ab'', ''c''])) [''ab'', ''c'']"
  using stream_frames_roundtrip [of 11 "[''ab'', ''c'']"] stream_frames_roundtrip [of 10 "[''ab'', ''c'']"] by simp

section \<open>The registry\<close>

definition registry_clean :: "stream_peers \<Rightarrow> bool" where
  "registry_clean peers \<longleftrightarrow> (\<forall>node cs. hm_get peers node = Some cs \<longrightarrow> cs \<noteq> [] \<and> distinct cs)"

lemma pc_id_image: "c \<in> pc_id ` set cs \<longleftrightarrow> \<lparr>pc_id = c\<rparr> \<in> set cs"
  by (auto simp: image_iff intro!: bexI [of _ "\<lparr>pc_id = c\<rparr>"]) (metis PeerConn.surjective unit.exhaust)

lemma stream_knows_register:
  "stream_knows (register_conn node c peers) m d \<longleftrightarrow> stream_knows peers m d \<or> m = node \<and> d = c"
  by (auto simp: stream_knows_def register_conn_def hm_simps split: option.split)

lemma stream_knows_unregister:
  "stream_knows (unregister_conn node c peers) m d \<longleftrightarrow> stream_knows peers m d \<and> (m = node \<longrightarrow> d \<noteq> c)"
proof (cases "hm_get peers node")
  case (Some cs)
  show ?thesis
    by (cases "m = node") (auto simp: stream_knows_def unregister_conn_def Some hm_simps Let_def filter_empty_conv
        split: option.split)
qed (auto simp: stream_knows_def unregister_conn_def)

lemma registry_clean_register:
  assumes "registry_clean peers" and "\<not> stream_knows peers node c"
  shows "registry_clean (register_conn node c peers)"
  using assms by (auto simp: registry_clean_def register_conn_def stream_knows_def pc_id_image hm_simps
      split: option.splits if_split_asm)

lemma registry_clean_unregister: "registry_clean peers \<Longrightarrow> registry_clean (unregister_conn node c peers)"
  by (auto simp: registry_clean_def unregister_conn_def hm_simps Let_def split: option.splits if_split_asm)

text \<open>
  Every state the relay can reach while it accepts fewer connections than its counter has
  values, with any frames, errors and interleaving.
\<close>

inductive stream_reachable :: "nat \<Rightarrow> stream_state \<Rightarrow> bool" where
  stream_start: "stream_reachable 0 \<lparr>ss_peers = hm_empty, ss_next_conn_id = 1, ss_conns = hm_empty\<rparr>"
| stream_accept: "stream_reachable n s \<Longrightarrow> n + 2 < 2 ^ 64 \<Longrightarrow> stream_reachable (Suc n) (accept_connection s)"
| stream_turn: "stream_reachable n s \<Longrightarrow> handle_connection V c read s = (s', out) \<Longrightarrow> stream_reachable n s'"

definition stream_ok :: "nat \<Rightarrow> stream_state \<Rightarrow> bool" where
  "stream_ok n s \<longleftrightarrow> unat (ss_next_conn_id s) = Suc n \<and>
     (\<forall>c. hm_get (ss_conns s) c \<noteq> None \<longrightarrow> unat c \<le> n) \<and>
     (\<forall>node c. stream_knows (ss_peers s) node c \<longleftrightarrow> hm_get (ss_conns s) c = Some (Some node)) \<and>
     registry_clean (ss_peers s)"

lemma stream_ok_accept:
  assumes "stream_ok n s" and "n + 2 < 2 ^ 64"
  shows "stream_ok (Suc n) (accept_connection s)"
proof -
  have nxt: "unat (ss_next_conn_id s) = Suc n" using assms(1) by (simp add: stream_ok_def)
  then have "hm_get (ss_conns s) (ss_next_conn_id s) = None"
    using assms(1) by (force simp: stream_ok_def)
  moreover have "unat (ss_next_conn_id s + 1) = Suc (Suc n)"
    using assms(2) nxt by (subst unat_plus_exact) simp_all
  ultimately show ?thesis
    using assms(1) nxt by (auto simp: stream_ok_def accept_connection_def hm_simps le_SucI)
qed

lemma stream_ok_leave:
  assumes "stream_ok n s" and "hm_get (ss_conns s) c = Some None"
  shows "stream_ok n (s\<lparr>ss_conns := hm_remove c (ss_conns s)\<rparr>)"
  using assms by (auto simp: stream_ok_def hm_simps)

lemma stream_ok_register:
  assumes "stream_ok n s" and "hm_get (ss_conns s) c = Some None"
  shows "stream_ok n (register_turn c read s)"
proof (cases "\<exists>frame node. read = Inr frame \<and> stream_parse_packet frame = Some (Register node)")
  case True
  then obtain frame node where "read = Inr frame" "stream_parse_packet frame = Some (Register node)" by blast
  moreover have "\<not> stream_knows (ss_peers s) node c" using assms by (simp add: stream_ok_def)
  ultimately show ?thesis
    using assms registry_clean_register
    by (auto simp: register_turn_def stream_ok_def stream_knows_register hm_simps)
next
  case False
  then have "register_turn c read s = s\<lparr>ss_conns := hm_remove c (ss_conns s)\<rparr>"
    by (auto simp: register_turn_def split: sum.split option.split RelayPacket.split)
  with stream_ok_leave [OF assms] show ?thesis by simp
qed

text \<open>The outcomes of a turn of a registered connection; a packet it may send is always delivered or passed on.\<close>

lemma relay_turn_cases:
  assumes "relay_turn V c node read s = (s', queued, packets)"
  obtains (left) e where "read = Inl e" "queued = []" "packets = []"
      "s' = s\<lparr>ss_peers := unregister_conn node c (ss_peers s), ss_conns := hm_remove c (ss_conns s)\<rparr>"
    | (skipped) frame where "read = Inr frame" "s' = s" "queued = []" "packets = []"
    | (sent) frame to_id payload out where "read = Inr frame" "s' = s"
      "stream_parse_packet frame = Some (Send node to_id payload)"
      "out = packet_bytes stream_MAGIC TYPE_DELIVER (char_of (0 :: nat)) node [] payload"
      "queued = (case hm_get (ss_peers s) to_id of None \<Rightarrow> []
         | Some cs \<Rightarrow> map (\<lambda>target. (pc_id target, out)) (filter (\<lambda>target. se_open V (pc_id target)) cs))"
      "packets = (if queued = [] \<and> se_mesh V
         then [\<lparr>mo_transport = Stream, mo_from_id = node, mo_to_id = to_id, mo_payload = payload\<rparr>] else [])"
proof (cases read)
  case (Inl e)
  with assms show thesis by (intro left) (auto simp: relay_turn_def)
next
  case (Inr frame)
  show thesis
  proof (cases "\<exists>to_id payload. stream_parse_packet frame = Some (Send node to_id payload)")
    case True
    then obtain to_id payload where p: "stream_parse_packet frame = Some (Send node to_id payload)" by blast
    define out where "out = packet_bytes stream_MAGIC TYPE_DELIVER (char_of (0 :: nat)) node [] payload"
    have "stream_build_packet TYPE_DELIVER node [] payload = Inr out"
      using stream_codec.parse_valid_ids(2) [OF p] by (simp add: stream_codec.build_eq valid_id_def out_def)
    with assms Inr p show thesis
      by (intro sent [OF _ _ p out_def])
        (auto simp: relay_turn_def stream_deliver_local_def Let_def split: option.splits if_split_asm)
  next
    case False
    with assms Inr have "s' = s \<and> queued = [] \<and> packets = []"
      by (auto simp: relay_turn_def split: option.splits RelayPacket.splits if_split_asm)
    with Inr show thesis by (intro skipped) auto
  qed
qed

lemma stream_ok_relay:
  assumes "relay_turn V c node read s = (s', queued, packets)"
    and "stream_ok n s" and "hm_get (ss_conns s) c = Some (Some node)"
  shows "stream_ok n s'"
  using assms(1)
proof (cases rule: relay_turn_cases)
  case (left e)
  with assms(2,3) show ?thesis
    by (auto simp: stream_ok_def stream_knows_unregister registry_clean_unregister hm_simps)
qed (use assms(2) in simp_all)

lemma stream_reachable_ok: "stream_reachable n s \<Longrightarrow> stream_ok n s"
proof (induction rule: stream_reachable.induct)
  case stream_start
  show ?case by (simp add: stream_ok_def stream_knows_def registry_clean_def hm_simps)
next
  case (stream_accept n s)
  then show ?case by (intro stream_ok_accept)
next
  case (stream_turn n s V c read s' out)
  show ?case
  proof (cases "hm_get (ss_conns s) c")
    case None
    with stream_turn show ?thesis by (simp add: handle_connection_def)
  next
    case (Some node)
    obtain queued packets where "out = (queued, packets)" by fastforce
    then show ?thesis
      using stream_turn Some stream_ok_register [of n s c read] stream_ok_relay [of V c _ read s s' queued packets n]
      by (cases node) (auto simp: handle_connection_def)
  qed
qed

lemma stream_registry_ok:
  "stream_reachable n s \<Longrightarrow> hm_get (ss_conns s) c = Some (Some node) \<longleftrightarrow>
     (case hm_get (ss_peers s) node of None \<Rightarrow> False | Some cs \<Rightarrow> c \<in> pc_id ` set cs)"
  using stream_reachable_ok by (simp add: stream_ok_def stream_knows_def)

section \<open>Properties\<close>

text \<open>Two nodes that have registered, and a packet from one to the other.\<close>

definition ex_registration :: "string \<Rightarrow> bytes" where
  "ex_registration node = packet_bytes stream_MAGIC TYPE_REGISTER (char_of (0 :: nat)) node [] []"

definition ex_relay :: bytes where
  "ex_relay = packet_bytes stream_MAGIC TYPE_SEND (char_of (0 :: nat)) ''n1'' ''n2'' ''hi''"

definition ex_stream :: stream_state where
  "ex_stream = \<lparr>ss_peers = [(''n1'', [\<lparr>pc_id = 1\<rparr>]), (''n2'', [\<lparr>pc_id = 2\<rparr>])], ss_next_conn_id = 3,
     ss_conns = [(1, Some ''n1''), (2, Some ''n2'')]\<rparr>"

lemma ex_ids: "valid_id ''n1''" "valid_id ''n2''"
  by (simp_all add: valid_id_def MAX_ID_LEN_def utf8_width_def byte_in_def)

lemma ex_parse:
  "valid_id node \<Longrightarrow> stream_parse_packet (ex_registration node) = Some (Register node)"
  "stream_parse_packet ex_relay = Some (Send ''n1'' ''n2'' ''hi'')"
  using ex_ids by (auto simp: stream_codec.parse_Register stream_codec.parse_Send ex_registration_def ex_relay_def)

lemma ex_stream_reachable: "stream_reachable 2 ex_stream"
proof -
  let ?V = "\<lparr>se_open = (\<lambda>_. True), se_mesh = False\<rparr>"
  note [simp] = handle_connection_def register_turn_def register_conn_def ex_parse ex_ids hm_insert_def hm_get_def
    accept_connection_def hm_empty_def
  have "stream_reachable 1 \<lparr>ss_peers = [], ss_next_conn_id = 2, ss_conns = [(1, None)]\<rparr>"
    using stream_accept [OF stream_start] by simp
  then have "stream_reachable 1 \<lparr>ss_peers = [(''n1'', [\<lparr>pc_id = 1\<rparr>])], ss_next_conn_id = 2, ss_conns = [(1, Some ''n1'')]\<rparr>"
    by (rule stream_turn [where V = ?V and c = 1 and read = "Inr (ex_registration ''n1'')" and out = "([], [])"]) simp
  from stream_accept [OF this] have "stream_reachable (Suc 1)
      \<lparr>ss_peers = [(''n1'', [\<lparr>pc_id = 1\<rparr>])], ss_next_conn_id = 3, ss_conns = [(1, Some ''n1''), (2, None)]\<rparr>"
    by simp
  then have "stream_reachable (Suc 1) ex_stream"
    by (rule stream_turn [where V = ?V and c = 2 and read = "Inr (ex_registration ''n2'')" and out = "([], [])"])
      (simp add: ex_stream_def)
  then show ?thesis by (simp add: eval_nat_numeral)
qed

text \<open>
  The registry holds exactly the connections whose task has registered and not ended, each
  under the id it registered, once; no id is left without a connection.
\<close>

theorem stream_registry_exact:
  assumes "stream_reachable n s"
  shows "(hm_get (ss_conns s) c = Some (Some node) \<longleftrightarrow>
      (\<exists>cs. hm_get (ss_peers s) node = Some cs \<and> \<lparr>pc_id = c\<rparr> \<in> set cs)) \<and>
    (\<forall>cs. hm_get (ss_peers s) node = Some cs \<longrightarrow> cs \<noteq> [] \<and> distinct cs)"
  using stream_registry_ok [OF assms, of c node] stream_reachable_ok [OF assms]
  by (cases "hm_get (ss_peers s) node") (auto simp: pc_id_image stream_ok_def registry_clean_def)

theorem stream_registry_exact_witness:
  "\<exists>cs. hm_get (ss_peers ex_stream) ''n1'' = Some cs \<and> \<lparr>pc_id = 1\<rparr> \<in> set cs"
proof -
  have "hm_get (ss_conns ex_stream) 1 = Some (Some ''n1'')" by (simp add: ex_stream_def hm_get_def)
  with stream_registry_exact [OF ex_stream_reachable, of 1 "''n1''"] show ?thesis by blast
qed

text \<open>
  C24: a connection only sends under the id it has registered. Every frame a turn queues carries
  that id and the payload it sent, goes to a connection registered under the id it is
  addressed to, and fits in a frame; a packet goes to the mesh under that id and only when it
  was queued for no connection.
\<close>

theorem stream_sender_checked:
  assumes "stream_reachable n s" and "read_frame wire = (Inr frame, rest)"
    and "handle_connection V c (Inr frame) s = (s', queued, packets)" and "queued \<noteq> [] \<or> packets \<noteq> []"
  shows "\<exists>node to_id payload. hm_get (ss_conns s) c = Some (Some node) \<and>
    stream_parse_packet frame = Some (Send node to_id payload) \<and>
    list_all (\<lambda>(d, out). hm_get (ss_conns s) d = Some (Some to_id) \<and>
      stream_build_packet TYPE_DELIVER node [] payload = Inr out \<and> frame_fits out) queued \<and>
    (packets = [] \<or> queued = [] \<and>
      packets = [\<lparr>mo_transport = Stream, mo_from_id = node, mo_to_id = to_id, mo_payload = payload\<rparr>])"
proof -
  obtain node where node: "hm_get (ss_conns s) c = Some (Some node)"
    and turn: "relay_turn V c node (Inr frame) s = (s', queued, packets)"
    using assms(3,4) by (auto simp: handle_connection_def split: option.splits)
  from turn show ?thesis
  proof (cases rule: relay_turn_cases)
    case (sent frame' to_id payload out)
    then have p: "stream_parse_packet frame = Some (Send node to_id payload)" by simp
    from stream_codec.deliver_fits [OF p] obtain out' where
      b: "stream_build_packet TYPE_DELIVER node [] payload = Inr out'" "length out' < length frame" by blast
    have "out' = out" using b(1) sent(4) by (simp add: stream_codec.build_eq split: if_split_asm)
    have "out' \<noteq> []" using b(1) by (auto simp: stream_codec.build_eq packet_bytes_def stream_MAGIC_def split: if_split_asm)
    moreover have "length frame \<le> MAX_FRAME_LEN" using assms(2) by (simp add: read_frame_Inr frame_fits_def)
    ultimately have "frame_fits out" using b(2) \<open>out' = out\<close> by (simp add: frame_fits_def)
    moreover have "hm_get (ss_conns s) d = Some (Some to_id)" if "(d, x) \<in> set queued" for d x
      using that sent(5) stream_registry_ok [OF assms(1), of d to_id]
      by (auto split: option.splits)
    moreover have "x = out" if "(d, x) \<in> set queued" for d x
      using that sent(5) by (auto split: option.splits)
    ultimately show ?thesis
      using node p b(1) \<open>out' = out\<close> sent(6)
      by (intro exI [of _ node] exI [of _ to_id] exI [of _ payload]) (auto simp: list_all_iff)
  qed (use assms(4) in simp_all)
qed

theorem stream_sender_checked_witness:
  "\<exists>s' queued. handle_connection \<lparr>se_open = (\<lambda>_. True), se_mesh = False\<rparr> 1 (Inr ex_relay) ex_stream = (s', queued, []) \<and>
     queued \<noteq> [] \<and> list_all (\<lambda>(d, out). hm_get (ss_conns ex_stream) d = Some (Some ''n2'') \<and> frame_fits out) queued"
proof -
  let ?V = "\<lparr>se_open = (\<lambda>_. True), se_mesh = False\<rparr>"
  have fits: "frame_fits ex_relay"
    by (simp add: frame_fits_def ex_relay_def packet_bytes_def stream_MAGIC_def MAX_FRAME_LEN_def)
  then obtain wire where "stream_write_frame ex_relay = Inr wire" by (simp add: write_frame_iff)
  from read_write_frame [OF this, of "[]"] have read: "read_frame wire = (Inr ex_relay, [])" by simp
  have built: "stream_build_packet TYPE_DELIVER ''n1'' [] ''hi'' =
      Inr (packet_bytes stream_MAGIC TYPE_DELIVER (char_of (0 :: nat)) ''n1'' [] ''hi'')"
    using ex_ids by (simp add: stream_codec.build_eq valid_id_def)
  obtain queued where turn: "handle_connection ?V 1 (Inr ex_relay) ex_stream = (ex_stream, queued, [])"
    and "queued \<noteq> []"
    by (simp add: handle_connection_def relay_turn_def ex_parse ex_stream_def hm_get_def stream_deliver_local_def
        built Let_def)
  with stream_sender_checked [OF ex_stream_reachable read turn] show ?thesis
    by (auto simp: ex_parse list_all_iff)
qed

end
