(* ===== verification/Mesh_Server.thy ===== *)
theory Mesh_Server
  imports Mesh
begin

text \<open>
  One mesh server: what its functions keep of the shared state, which frames they queue, and
  the invariant of every state its tasks can reach, whatever they read, in whatever order.
\<close>

section \<open>What a call changes\<close>

lemma remember_message_fields [simp]:
  "cx_peers (snd (remember_message now m cx)) = cx_peers cx"
  "cx_server_id (snd (remember_message now m cx)) = cx_server_id cx"
  "cx_max_hops (snd (remember_message now m cx)) = cx_max_hops cx"
  "cx_allowed_peers (snd (remember_message now m cx)) = cx_allowed_peers cx"
  "cx_route_hints (snd (remember_message now m cx)) = cx_route_hints cx"
  by (simp_all add: remember_message_def Let_def)

lemma learn_route_fields [simp]:
  "cx_peers (learn_route now n p cx) = cx_peers cx"
  "cx_server_id (learn_route now n p cx) = cx_server_id cx"
  "cx_max_hops (learn_route now n p cx) = cx_max_hops cx"
  "cx_allowed_peers (learn_route now n p cx) = cx_allowed_peers cx"
  "cx_seen_ids (learn_route now n p cx) = cx_seen_ids cx"
  by (simp_all add: learn_route_def)

lemma lookup_route_fields [simp]:
  "cx_peers (snd (lookup_route now n cx)) = cx_peers cx"
  "cx_server_id (snd (lookup_route now n cx)) = cx_server_id cx"
  "cx_max_hops (snd (lookup_route now n cx)) = cx_max_hops cx"
  "cx_allowed_peers (snd (lookup_route now n cx)) = cx_allowed_peers cx"
  "cx_seen_ids (snd (lookup_route now n cx)) = cx_seen_ids cx"
  by (simp_all add: lookup_route_def split: option.split)

lemma forward_to_target_fst: "fst (forward_to_target V now ex t f cx) = snd (lookup_route now t cx)"
  by (simp add: forward_to_target_def split: prod.split option.split)

lemma broadcast_iff:
  "(p, c, f) \<in> set (broadcast V ex frame cx) \<longleftrightarrow>
     f = frame \<and> ex \<noteq> Some p \<and> chan_open V c \<and> (\<exists>s. (p, s) \<in> set (hm_iter (cx_peers cx)) \<and> c = ps_conn_id s)"
proof -
  have "(p, c, f) \<in> set (concat (map (\<lambda>(p, c). if ex = Some p then [] else if chan_open V c then [(p, c, frame)] else [])
      (map (\<lambda>(p, s). (p, ps_conn_id s)) es))) \<longleftrightarrow>
    f = frame \<and> ex \<noteq> Some p \<and> chan_open V c \<and> (\<exists>s. (p, s) \<in> set es \<and> c = ps_conn_id s)" for es
    by (induction es) auto
  then show ?thesis unfolding broadcast_def Let_def .
qed

lemma broadcast_length: "length (broadcast V ex frame cx) \<le> hm_len (cx_peers cx)"
proof -
  have "length (concat (map (\<lambda>(p, c). if ex = Some p then [] else if chan_open V c then [(p, c, frame)] else [])
      (map (\<lambda>(p, s). (p, ps_conn_id s)) es))) \<le> length es" for es
    by (induction es) auto
  then show ?thesis by (simp add: broadcast_def hm_iter_def hm_len_def)
qed

lemma forward_sends:
  assumes "hm_wf (cx_peers cx)" and "(p, c, f) \<in> set (snd (forward_to_target V now ex t frame cx))"
  shows "f = frame \<and> ex \<noteq> Some p \<and> chan_open V c \<and> hm_get (cx_peers cx) p = Some \<lparr>ps_conn_id = c\<rparr>"
proof -
  have peers: "cx_peers (snd (lookup_route now t cx)) = cx_peers cx" by simp
  obtain r cx' where l: "lookup_route now t cx = (r, cx')" by fastforce
  with peers have "cx_peers cx' = cx_peers cx" by simp
  with assms l show ?thesis
    by (auto simp: forward_to_target_def send_to_peer_def broadcast_iff hm_iter_iff
        split: option.splits if_split_asm)
qed

lemma forward_length:
  "length (snd (forward_to_target V now ex t frame cx)) \<le> hm_len (cx_peers cx)"
proof -
  have peers: "cx_peers (snd (lookup_route now t cx)) = cx_peers cx" by simp
  obtain r cx' where l: "lookup_route now t cx = (r, cx')" by fastforce
  with peers have eq: "cx_peers cx' = cx_peers cx" by simp
  have "length (snd (send_to_peer V p frame cx')) \<le> hm_len (cx_peers cx')" for p
    by (cases "cx_peers cx'") (auto simp: send_to_peer_def hm_len_def hm_get_def split: option.split)
  with l eq show ?thesis
    using broadcast_length [of V ex frame cx'] by (auto simp: forward_to_target_def split: option.split)
qed

section \<open>Handling a frame\<close>

text \<open>The four outcomes of a relay frame.\<close>

lemma handle_relay_cases:
  assumes "handle_frame B V src (Relay m tr f t pb h) cx = (res, cx', sends, packets)"
  obtains (seen) "fst (remember_message (clock V 0) m cx) = False" "res = Inr ()"
      "cx' = cx" "sends = []" "packets = []"
    | (undecoded) cx1 where "fst (remember_message (clock V 0) m cx) = True"
      "cx' = learn_route (clock V 1) f src (snd (remember_message (clock V 0) m cx))"
      "b64_decode B pb = None" "res = Inl ''mesh payload decode failed''" "sends = []" "packets = []"
    | (stopped) payload pk where "fst (remember_message (clock V 0) m cx) = True"
      "cx' = learn_route (clock V 1) f src (snd (remember_message (clock V 0) m cx))"
      "b64_decode B pb = Some payload" "res = Inr ()" "sends = []" "packets = [pk]"
      "pk = \<lparr>mi_transport = tr, mi_from_id = f, mi_to_id = t, mi_payload = payload\<rparr>"
      "deliver_local V pk \<or> h = 0"
    | (forwarded) payload pk cx1 where "fst (remember_message (clock V 0) m cx) = True"
      "cx1 = learn_route (clock V 1) f src (snd (remember_message (clock V 0) m cx))"
      "b64_decode B pb = Some payload" "res = Inr ()" "packets = [pk]"
      "pk = \<lparr>mi_transport = tr, mi_from_id = f, mi_to_id = t, mi_payload = payload\<rparr>"
      "\<not> deliver_local V pk" "h \<noteq> 0"
      "(cx', sends) = forward_to_target V (clock V 2) (Some src) t
         (Relay m tr f t (b64_encode B payload) (saturating_sub h 1)) cx1"
proof -
  obtain fresh cx0 where r: "remember_message (clock V 0) m cx = (fresh, cx0)" by fastforce
  show thesis
  proof (cases fresh)
    case False
    then have "cx0 = cx" using r by (auto simp: remember_message_def Let_def split: if_split_asm)
    with False r assms show thesis by (intro seen) (auto simp: handle_frame_def)
  next
    case True
    define cx1 where "cx1 = learn_route (clock V 1) f src cx0"
    show thesis
    proof (cases "b64_decode B pb")
      case None
      with True r assms show thesis by (intro undecoded) (auto simp: handle_frame_def Let_def)
    next
      case (Some payload)
      define pk where "pk = \<lparr>mi_transport = tr, mi_from_id = f, mi_to_id = t, mi_payload = payload\<rparr>"
      note unfold = handle_frame_def MeshFrame.case r prod.case bool.case True Let_def Some option.case
        pk_def [symmetric] cx1_def [symmetric]
      show thesis
      proof (cases "deliver_local V pk \<or> h = 0")
        case True
        with \<open>fresh\<close> assms r show thesis
          by (intro stopped [OF _ _ Some _ _ _ pk_def]) (auto simp: unfold)
      next
        case False
        obtain c s where fw: "forward_to_target V (clock V 2) (Some src) t
            (Relay m tr f t (b64_encode B payload) (saturating_sub h 1)) cx1 = (c, s)" by fastforce
        show thesis
          using assms r \<open>fresh\<close> False fw
          by (intro forwarded [OF _ _ Some _ _ pk_def]) (auto simp: unfold fw [unfolded cx1_def One_nat_def])
      qed
    qed
  qed
qed

section \<open>The invariant\<close>

definition good_peer :: "MeshContext \<Rightarrow> string \<Rightarrow> bool" where
  "good_peer cx p \<longleftrightarrow> p \<noteq> [] \<and> p \<noteq> cx_server_id cx \<and> p \<in> cx_allowed_peers cx"

definition mesh_ok :: "MeshContext \<Rightarrow> bool" where
  "mesh_ok cx \<longleftrightarrow>
     hm_wf (cx_peers cx) \<and> (\<forall>p s. hm_get (cx_peers cx) p = Some s \<longrightarrow> good_peer cx p) \<and>
     hm_wf (cx_seen_ids cx) \<and> hm_len (cx_seen_ids cx) \<le> MAX_SEEN_IDS \<and>
     hm_wf (cx_route_hints cx) \<and> hm_len (cx_route_hints cx) \<le> MAX_ROUTE_HINTS \<and>
     (\<forall>n r. hm_get (cx_route_hints cx) n = Some r \<longrightarrow> good_peer cx (rh_peer_id r))"

definition server_ok :: "mesh_server \<Rightarrow> bool" where
  "server_ok s \<longleftrightarrow> mesh_ok (ms_context s) \<and>
     (\<forall>c p. hm_get (ms_conns s) c = Some p \<longrightarrow> good_peer (ms_context s) p)"

lemma validate_peer_iff:
  "validate_peer cx expected p = Inr () \<longleftrightarrow> good_peer cx p \<and> (\<forall>e. expected = Some e \<longrightarrow> e = p)"
  by (auto simp: validate_peer_def good_peer_def split: option.split)

lemma good_peer_cong:
  "cx_server_id cx' = cx_server_id cx \<Longrightarrow> cx_allowed_peers cx' = cx_allowed_peers cx \<Longrightarrow>
     good_peer cx' = good_peer cx"
  by (rule ext) (simp add: good_peer_def)

lemma mesh_ok_remember:
  assumes "mesh_ok cx"
  shows "mesh_ok (snd (remember_message now m cx))"
proof -
  have "good_peer (snd (remember_message now m cx)) = good_peer cx" by (rule good_peer_cong) simp_all
  moreover have "hm_wf (cx_seen_ids (snd (remember_message now m cx)))"
      "hm_len (cx_seen_ids (snd (remember_message now m cx))) \<le> MAX_SEEN_IDS"
    using assms by (simp_all add: mesh_ok_def remember_message_def Let_def cache.touch_ok cache.touch_len)
  ultimately show ?thesis using assms by (simp add: mesh_ok_def)
qed

lemma mesh_ok_learn:
  assumes "mesh_ok cx" and "good_peer cx p"
  shows "mesh_ok (learn_route now n p cx)"
proof -
  have "good_peer (learn_route now n p cx) = good_peer cx" by (rule good_peer_cong) simp_all
  moreover have "hm_wf (cx_route_hints (learn_route now n p cx))"
      "hm_len (cx_route_hints (learn_route now n p cx)) \<le> MAX_ROUTE_HINTS"
    using assms by (simp_all add: mesh_ok_def learn_route_def cache.touch_ok cache.touch_len)
  moreover have "good_peer cx (rh_peer_id r)"
    if "hm_get (cx_route_hints (learn_route now n p cx)) k = Some r" for k r
    using that assms cache.touch_get [of "cx_route_hints cx" MAX_ROUTE_HINTS ROUTE_TTL rh_updated_at now n
        "\<lparr>rh_peer_id = p, rh_updated_at = now\<rparr>" k r]
    by (auto simp: mesh_ok_def learn_route_def split: if_split_asm)
  ultimately show ?thesis using assms by (simp add: mesh_ok_def)
qed

lemma hm_len_empty: "hm_len hm_empty = 0"
  by (simp add: hm_len_def hm_empty_def)

lemma hm_len_remove: "hm_len (hm_remove k m) \<le> hm_len m"
  by (simp add: hm_len_def hm_remove_def length_delete_le)

lemma mesh_ok_lookup:
  assumes "mesh_ok cx"
  shows "mesh_ok (snd (lookup_route now n cx))"
proof -
  have "good_peer (snd (lookup_route now n cx)) = good_peer cx" by (rule good_peer_cong) simp_all
  moreover have "cx_route_hints (snd (lookup_route now n cx)) = cx_route_hints cx \<or>
      cx_route_hints (snd (lookup_route now n cx)) = hm_remove n (cx_route_hints cx)"
    by (simp add: lookup_route_def split: option.split)
  ultimately show ?thesis
    using assms order_trans [OF hm_len_remove [of n "cx_route_hints cx"]]
    by (auto simp: mesh_ok_def hm_simps split: if_split_asm)
qed

lemma mesh_ok_forward: "mesh_ok cx \<Longrightarrow> mesh_ok (fst (forward_to_target V now ex t f cx))"
  by (simp add: forward_to_target_fst mesh_ok_lookup)

lemma handle_frame_keeps:
  assumes "handle_frame B V src frame cx = (res, cx', sends, packets)"
  shows "cx_peers cx' = cx_peers cx" "cx_server_id cx' = cx_server_id cx"
    "cx_allowed_peers cx' = cx_allowed_peers cx" "cx_max_hops cx' = cx_max_hops cx"
proof -
  have "cx_peers cx' = cx_peers cx \<and> cx_server_id cx' = cx_server_id cx \<and>
    cx_allowed_peers cx' = cx_allowed_peers cx \<and> cx_max_hops cx' = cx_max_hops cx"
  proof (cases frame)
    case (Hello i)
    with assms show ?thesis by (simp add: handle_frame_def)
  next
    case (Relay m tr f t pb h)
    from assms [unfolded this] show ?thesis
    proof (cases rule: handle_relay_cases)
      case (forwarded payload pk cx1)
      then have "cx' = snd (lookup_route (clock V 2) t cx1)"
        by (metis forward_to_target_fst fst_conv)
      with forwarded(2) show ?thesis by simp
    qed simp_all
  qed
  then show "cx_peers cx' = cx_peers cx" "cx_server_id cx' = cx_server_id cx"
    "cx_allowed_peers cx' = cx_allowed_peers cx" "cx_max_hops cx' = cx_max_hops cx" by simp_all
qed

lemma mesh_ok_handle:
  assumes "handle_frame B V src frame cx = (res, cx', sends, packets)" and "mesh_ok cx" and "good_peer cx src"
  shows "mesh_ok cx'"
proof (cases frame)
  case (Hello i)
  with assms show ?thesis by (simp add: handle_frame_def)
next
  case (Relay m tr f t pb h)
  have "good_peer (snd (remember_message (clock V 0) m cx)) src"
    using assms(3) by (simp add: good_peer_def)
  then have learnt: "mesh_ok (learn_route (clock V 1) f src (snd (remember_message (clock V 0) m cx)))"
    by (intro mesh_ok_learn mesh_ok_remember assms(2))
  from assms(1) [unfolded Relay] show ?thesis
  proof (cases rule: handle_relay_cases)
    case (forwarded payload pk cx1)
    with learnt show ?thesis by (metis mesh_ok_forward fst_conv)
  qed (use assms(2) learnt in simp_all)
qed

section \<open>Everything a server can reach\<close>

text \<open>
  The tasks of a server interleave between their accesses to the shared state; a step is a
  connection that is opened, a turn of the loop of a connection, or a packet from a local
  relay, with any clock, any open channels and any answers.
\<close>

inductive mesh_reachable ::
  "(string \<Rightarrow> MeshFrame option) \<Rightarrow> base64 \<Rightarrow> MeshPeer list \<Rightarrow> mesh_server \<Rightarrow> bool"
  for from_str B peers
where
  mesh_start: "start_context server_id max_hops peers = Inr cx \<Longrightarrow>
    mesh_reachable from_str B peers \<lparr>ms_context = cx, ms_next_conn_id = 1, ms_conns = hm_empty\<rparr>"
| mesh_open: "mesh_reachable from_str B peers s \<Longrightarrow> open_connection from_str expected hello s = (r, s') \<Longrightarrow>
    mesh_reachable from_str B peers s'"
| mesh_turn: "mesh_reachable from_str B peers s \<Longrightarrow>
    connection_turn from_str B V conn_id read s = (s', sends, packets) \<Longrightarrow>
    mesh_reachable from_str B peers s'"
| mesh_from_local: "mesh_reachable from_str B peers s \<Longrightarrow>
    from_local B V message_id packet (ms_context s) = (cx, sends) \<Longrightarrow>
    mesh_reachable from_str B peers (s\<lparr>ms_context := cx\<rparr>)"

lemma open_connection_cases:
  assumes "open_connection from_str expected hello s = (r, s')"
  obtains (refused) e where "r = Inl e" "s' = s"
    | (opened) line p where "hello = Line line" "from_str line = Some (Hello p)"
      "validate_peer (ms_context s) expected p = Inr ()" "r = Inr (ms_next_conn_id s)"
      "s' = s\<lparr>ms_next_conn_id := ms_next_conn_id s + 1,
        ms_context := (ms_context s)\<lparr>cx_peers :=
          hm_insert p \<lparr>ps_conn_id = ms_next_conn_id s\<rparr> (cx_peers (ms_context s))\<rparr>,
        ms_conns := hm_insert (ms_next_conn_id s) p (ms_conns s)\<rparr>"
proof (cases "\<exists>line p. hello = Line line \<and> from_str line = Some (Hello p) \<and>
    validate_peer (ms_context s) expected p = Inr ()")
  case True
  then obtain line p where "hello = Line line" "from_str line = Some (Hello p)"
    "validate_peer (ms_context s) expected p = Inr ()" by blast
  with assms show thesis by (intro opened) (auto simp: open_connection_def Let_def)
next
  case False
  then have "\<exists>e. open_connection from_str expected hello s = (Inl e, s)"
    by (auto simp: open_connection_def split: line_read.split option.split MeshFrame.split sum.split)
  then obtain e where "open_connection from_str expected hello s = (Inl e, s)" ..
  with assms show thesis by (intro refused [of e]) auto
qed

lemma run_connection_cases:
  assumes "run_connection to_vec from_str written expected hello s = (r, s', sent)"
  obtains (unwritten) "r = Inl ''mesh hello write failed''" "s' = s" "sent = []"
    | (written) "open_connection from_str expected hello s = (r, s')"
      "write_frame to_vec (Hello (cx_server_id (ms_context s))) = Some sent"
  using assms by (auto simp: run_connection_def split: option.split_asm if_split_asm prod.split_asm)

lemma mesh_run_connection:
  assumes "mesh_reachable from_str B peers s" and "run_connection to_vec from_str written expected hello s = (r, s', sent)"
  shows "mesh_reachable from_str B peers s'"
  using assms(2) by (cases rule: run_connection_cases) (use assms(1) mesh_open in auto)

lemma mesh_inbound:
  "mesh_reachable from_str B peers s \<Longrightarrow> inbound_connection to_vec from_str tls_ok written hello s = (r, s', sent) \<Longrightarrow>
     mesh_reachable from_str B peers s'"
  by (auto simp: inbound_connection_def intro: mesh_run_connection split: if_split_asm)

lemma mesh_outbound:
  "mesh_reachable from_str B peers s \<Longrightarrow> outbound_connection to_vec from_str names dial peer s = (r, s', sent) \<Longrightarrow>
     mesh_reachable from_str B peers s'"
  by (auto simp: outbound_connection_def intro: mesh_run_connection split: if_split_asm dial.splits)

text \<open>An outbound connection is only ever used for the peer it was made to.\<close>

lemma outbound_connection_peer:
  assumes "outbound_connection to_vec from_str names dial peer s = (Inr c, s', sent)"
  shows "hm_get (cx_peers (ms_context s')) (mp_id peer) = Some \<lparr>ps_conn_id = c\<rparr>"
proof -
  obtain written hello where "run_connection to_vec from_str written (Some (mp_id peer)) hello s = (Inr c, s', sent)"
    using assms by (auto simp: outbound_connection_def split: if_split_asm dial.splits)
  then have "open_connection from_str (Some (mp_id peer)) hello s = (Inr c, s')"
    by (cases rule: run_connection_cases) simp_all
  then show ?thesis
    by (cases rule: open_connection_cases) (auto simp: validate_peer_iff hm_simps)
qed

lemma server_ok_open:
  assumes "open_connection from_str expected hello s = (r, s')" and "server_ok s"
  shows "server_ok s'"
  using assms(1)
proof (cases rule: open_connection_cases)
  case (opened line p)
  have good: "good_peer (ms_context s') = good_peer (ms_context s)"
    using opened(5) by (intro good_peer_cong) simp_all
  have "good_peer (ms_context s) p"
    using opened(3) by (simp add: validate_peer_iff)
  with assms(2) good opened(5) show ?thesis
    by (auto simp: server_ok_def mesh_ok_def hm_simps split: if_split_asm)
qed (use assms(2) in simp)

lemma connection_turn_cases:
  assumes "connection_turn from_str B V c read s = (s', sends, packets)"
  obtains (skipped) "s' = s" "sends = []" "packets = []"
    | (framed) p line frame res cx' where "hm_get (ms_conns s) c = Some p" "read = Line line"
      "from_str line = Some frame" "handle_frame B V p frame (ms_context s) = (res, cx', sends, packets)"
      "s' = s\<lparr>ms_context := cx'\<rparr>"
    | (closed) p where "hm_get (ms_conns s) c = Some p" "read = Eof" "sends = []" "packets = []"
      "s' = s\<lparr>ms_conns := hm_remove c (ms_conns s), ms_context := close_connection c p (ms_context s)\<rparr>"
    | (broken) p where "hm_get (ms_conns s) c = Some p" "read = ReadErr" "sends = []" "packets = []"
      "s' = s\<lparr>ms_conns := hm_remove c (ms_conns s)\<rparr>"
proof (cases "hm_get (ms_conns s) c")
  case None
  with assms show thesis by (intro skipped) (simp_all add: connection_turn_def)
next
  case (Some p)
  show thesis
  proof (cases read)
    case (Line line)
    show thesis
    proof (cases "from_str line")
      case None
      with assms Some Line show thesis by (intro skipped) (simp_all add: connection_turn_def)
    next
      case (Some frame)
      obtain res cx' ss ps where "handle_frame B V p frame (ms_context s) = (res, cx', ss, ps)"
        by (metis prod_cases4)
      with assms Some Line \<open>hm_get (ms_conns s) c = Some p\<close> show thesis
        by (intro framed) (auto simp: connection_turn_def)
    qed
  qed (use assms Some closed broken in \<open>simp_all add: connection_turn_def\<close>)
qed

lemma close_connection_fields [simp]:
  "cx_server_id (close_connection c p cx) = cx_server_id cx"
  "cx_allowed_peers (close_connection c p cx) = cx_allowed_peers cx"
  "cx_max_hops (close_connection c p cx) = cx_max_hops cx"
  by (simp_all add: close_connection_def)

lemma mesh_ok_close:
  assumes "mesh_ok cx"
  shows "mesh_ok (close_connection c p cx)"
proof -
  have "good_peer (close_connection c p cx) = good_peer cx" by (rule good_peer_cong) simp_all
  then show ?thesis
    using assms unfolding mesh_ok_def by (auto simp: close_connection_def hm_simps split: if_split_asm)
qed

lemma server_ok_turn:
  assumes "connection_turn from_str B V c read s = (s', sends, packets)" and "server_ok s"
  shows "server_ok s'"
  using assms(1)
proof (cases rule: connection_turn_cases)
  case (framed p line frame res cx')
  then have "good_peer (ms_context s) p" using assms(2) by (auto simp: server_ok_def)
  then have "mesh_ok cx'" using mesh_ok_handle [OF framed(4)] assms(2) by (simp add: server_ok_def)
  with framed(5) assms(2) good_peer_cong [OF handle_frame_keeps(2,3) [OF framed(4)]] show ?thesis
    by (simp add: server_ok_def)
next
  case (closed p)
  have "good_peer (close_connection c p (ms_context s)) = good_peer (ms_context s)"
    by (rule good_peer_cong) simp_all
  with closed assms(2) show ?thesis
    by (auto simp: server_ok_def mesh_ok_close hm_simps split: if_split_asm)
next
  case (broken p)
  with assms(2) show ?thesis by (auto simp: server_ok_def hm_simps split: if_split_asm)
qed (use assms(2) in simp)

lemma server_ok_from_local:
  assumes "from_local B V m packet (ms_context s) = (cx, sends)" and "server_ok s"
  shows "server_ok (s\<lparr>ms_context := cx\<rparr>)"
proof -
  define cx0 where "cx0 = snd (remember_message (clock V 0) m (ms_context s))"
  have cx: "cx = snd (lookup_route (clock V 1) (mo_to_id packet) cx0)"
    using assms(1) by (metis cx0_def forward_to_target_fst from_local_def fst_conv)
  have "mesh_ok cx"
    using assms(2) by (simp add: cx cx0_def server_ok_def mesh_ok_lookup mesh_ok_remember)
  moreover have "good_peer cx = good_peer (ms_context s)"
    by (rule good_peer_cong) (simp_all add: cx cx0_def)
  ultimately show ?thesis using assms(2) by (simp add: server_ok_def)
qed

lemma mesh_reachable_ok: "mesh_reachable from_str B peers s \<Longrightarrow> server_ok s"
proof (induction rule: mesh_reachable.induct)
  case (mesh_start server_id max_hops cx)
  then show ?case
    by (auto simp: start_context_def server_ok_def mesh_ok_def hm_simps hm_len_empty split: if_split_asm)
next
  case mesh_open then show ?case by (blast intro: server_ok_open)
next
  case mesh_turn then show ?case by (blast intro: server_ok_turn)
next
  case mesh_from_local then show ?case by (blast intro: server_ok_from_local)
qed

lemma mesh_reachable_allowed:
  "mesh_reachable from_str B peers s \<Longrightarrow> cx_allowed_peers (ms_context s) = mp_id ` set peers"
proof (induction rule: mesh_reachable.induct)
  case (mesh_start server_id max_hops cx)
  then show ?case by (auto simp: start_context_def split: if_split_asm)
next
  case (mesh_open s expected hello r s')
  from mesh_open(2) show ?case by (cases rule: open_connection_cases) (use mesh_open in simp_all)
next
  case (mesh_turn s V c read s' sends packets)
  from mesh_turn(2) show ?case
  proof (cases rule: connection_turn_cases)
    case (framed p line frame res cx')
    with mesh_turn.IH handle_frame_keeps(3) [OF framed(4)] show ?thesis by simp
  qed (use mesh_turn.IH in simp_all)
next
  case (mesh_from_local s V m packet cx sends)
  then have "cx = snd (lookup_route (clock V 1) (mo_to_id packet)
      (snd (remember_message (clock V 0) m (ms_context s))))"
    by (metis forward_to_target_fst from_local_def fst_conv)
  with mesh_from_local show ?case by simp
qed

section \<open>Properties of a server\<close>

text \<open>A server with one configured peer, which has connected, in an environment without answers.\<close>

definition ex_peers :: "MeshPeer list" where
  "ex_peers = [\<lparr>mp_id = ''b'', mp_addr = ''b:1''\<rparr>, \<lparr>mp_id = ''c'', mp_addr = ''c:1''\<rparr>]"

definition ex_context :: MeshContext where
  "ex_context = \<lparr>cx_server_id = ''a'', cx_max_hops = 4, cx_allowed_peers = {''b'', ''c''},
     cx_peers = hm_empty, cx_seen_ids = hm_empty, cx_route_hints = hm_empty\<rparr>"

text \<open>A toy reader of frames: every line is the hello of the server it names.\<close>

definition ex_from_str :: "string \<Rightarrow> MeshFrame option" where
  "ex_from_str line = Some (Hello line)"

definition ex_base64 :: base64 where
  "ex_base64 = \<lparr>b64_encode = (\<lambda>b. b), b64_decode = Some\<rparr>"

definition ex_mesh_env :: mesh_env where
  "ex_mesh_env = \<lparr>clock = (\<lambda>_. 30), chan_open = (\<lambda>_. True), ask_local = (\<lambda>_. NoAnswer)\<rparr>"

definition ex_server :: mesh_server where
  "ex_server = \<lparr>ms_context = ex_context\<lparr>cx_peers := [(''b'', \<lparr>ps_conn_id = 1\<rparr>)]\<rparr>,
     ms_next_conn_id = 2, ms_conns = [(1, ''b'')]\<rparr>"

lemma ex_server_reachable: "mesh_reachable ex_from_str ex_base64 ex_peers ex_server"
proof -
  have trim_a: "trim ''a'' = ''a''" by (simp add: trim_visible visible_def)
  have "start_context ''a'' 4 ex_peers = Inr ex_context"
    by (simp add: start_context_def trim_a ex_context_def ex_peers_def insert_commute)
  then have "mesh_reachable ex_from_str ex_base64 ex_peers
      \<lparr>ms_context = ex_context, ms_next_conn_id = 1, ms_conns = hm_empty\<rparr>"
    by (rule mesh_start)
  then show ?thesis
    by (rule mesh_open [where expected = None and hello = "Line ''b''" and r = "Inr 1"])
      (simp add: open_connection_def ex_from_str_def validate_peer_def ex_context_def ex_server_def
        hm_insert_def hm_empty_def)
qed

text \<open>
  C28: whatever a mesh server reads, in any interleaving of its connections and any timing, it
  never remembers more than 8192 message ids and 16384 routes, and every peer it has
  connected and every peer it has learnt a route through is one of its configuration and
  not the server itself.
\<close>

theorem mesh_server_bounded:
  assumes "mesh_reachable from_str B peers s"
  shows "hm_len (cx_seen_ids (ms_context s)) \<le> 8192 \<and> hm_len (cx_route_hints (ms_context s)) \<le> 16384 \<and>
    (hm_get (cx_peers (ms_context s)) p \<noteq> None \<longrightarrow> p \<in> mp_id ` set peers \<and> p \<noteq> cx_server_id (ms_context s)) \<and>
    (\<forall>n r. hm_get (cx_route_hints (ms_context s)) n = Some r \<longrightarrow>
       rh_peer_id r \<in> mp_id ` set peers \<and> rh_peer_id r \<noteq> cx_server_id (ms_context s))"
  using mesh_reachable_ok [OF assms] mesh_reachable_allowed [OF assms]
  by (auto simp: server_ok_def mesh_ok_def good_peer_def MAX_SEEN_IDS_def MAX_ROUTE_HINTS_def)

theorem mesh_server_bounded_witness:
  "''b'' \<in> mp_id ` set ex_peers \<and> ''b'' \<noteq> cx_server_id (ms_context ex_server)"
proof -
  have "hm_get (cx_peers (ms_context ex_server)) ''b'' \<noteq> None"
    by (simp add: ex_server_def ex_context_def hm_get_def)
  with mesh_server_bounded [OF ex_server_reachable] show ?thesis by blast
qed

subsection \<open>Duplicates\<close>

text \<open>A run of calls of \<open>remember_message\<close>, by all tasks, with their times.\<close>

definition remember_all :: "(instant \<times> string) list \<Rightarrow> MeshContext \<Rightarrow> MeshContext" where
  "remember_all calls cx = fold (\<lambda>(now, m) cx. snd (remember_message now m cx)) calls cx"

lemma remember_new:
  assumes "mesh_ok cx" and "remember_message t m cx = (True, cx')"
    and "\<forall>k s. hm_get (cx_seen_ids cx) k = Some s \<and> k \<noteq> m \<longrightarrow> s < t"
  shows "cache.holds (\<lambda>s. s) {} m t (cx_seen_ids cx')"
proof -
  have "cx_seen_ids cx' = touch_cache MAX_SEEN_IDS SEEN_TTL (\<lambda>s. s) t m t (cx_seen_ids cx)"
    using assms(2) by (auto simp: remember_message_def Let_def split: if_split_asm)
  moreover have "cache.holds (\<lambda>s. s) {} m t (touch_cache MAX_SEEN_IDS SEEN_TTL (\<lambda>s. s) t m t (cx_seen_ids cx))"
    using assms(1,3) by (intro cache.holds_new) (auto simp: mesh_ok_def MAX_SEEN_IDS_def)
  ultimately show ?thesis by simp
qed

lemma remember_again:
  assumes "cache.holds (\<lambda>s. s) S m t (cx_seen_ids cx)" and "now - t < SEEN_TTL"
  shows "remember_message now m cx = (False, cx)"
  using assms by (simp add: cache.holds_def remember_message_def Let_def)

lemma remember_other:
  assumes "cache.holds (\<lambda>s. s) S m t (cx_seen_ids cx)" and "finite S" and "Suc (card S) < MAX_SEEN_IDS"
    and "now - t < SEEN_TTL"
  shows "\<exists>S'. cache.holds (\<lambda>s. s) S' m t (cx_seen_ids (snd (remember_message now j cx))) \<and>
    finite S' \<and> card S' \<le> Suc (card S)"
proof (cases "j = m \<or> \<not> fst (remember_message now j cx)")
  case True
  then have "snd (remember_message now j cx) = cx"
    using remember_again [OF assms(1,4)] by (auto simp: remember_message_def Let_def)
  with assms show ?thesis by (intro exI [of _ S]) simp
next
  case False
  then have "cx_seen_ids (snd (remember_message now j cx)) =
      touch_cache MAX_SEEN_IDS SEEN_TTL (\<lambda>s. s) now j now (cx_seen_ids cx)"
    by (auto simp: remember_message_def Let_def)
  moreover have "card (insert j S) \<le> Suc (card S)" by (rule card_insert_le_m1) (simp_all add: assms(2))
  moreover have "cache.holds (\<lambda>s. s) (insert j S) m t
      (touch_cache MAX_SEEN_IDS SEEN_TTL (\<lambda>s. s) now j now (cx_seen_ids cx))"
    using False assms \<open>card (insert j S) \<le> Suc (card S)\<close> by (intro cache.holds_touch) auto
  ultimately show ?thesis using assms(2) by (metis finite_insert)
qed

lemma remember_all_keeps:
  assumes "cache.holds (\<lambda>s. s) S m t (cx_seen_ids cx)" and "finite S"
    and "card S + length calls < MAX_SEEN_IDS" and "\<forall>(now, j)\<in>set calls. now - t < SEEN_TTL"
  shows "\<exists>S'. cache.holds (\<lambda>s. s) S' m t (cx_seen_ids (remember_all calls cx))"
  using assms
proof (induction calls arbitrary: cx S)
  case Nil
  then show ?case by (auto simp: remember_all_def)
next
  case (Cons c calls)
  obtain now j where c: "c = (now, j)" by fastforce
  with Cons.prems have "Suc (card S) < MAX_SEEN_IDS" "now - t < SEEN_TTL" by auto
  from remember_other [OF Cons.prems(1,2) this, of j] obtain S' where
    S': "cache.holds (\<lambda>s. s) S' m t (cx_seen_ids (snd (remember_message now j cx)))" "finite S'"
      "card S' \<le> Suc (card S)" by blast
  with Cons.prems(3,4) have "card S' + length calls < MAX_SEEN_IDS" "\<forall>(now, j)\<in>set calls. now - t < SEEN_TTL"
    by auto
  from Cons.IH [OF S'(1,2) this] show ?case by (simp add: remember_all_def c)
qed

text \<open>
  C23: a message that reaches a server again, along another path of the mesh, within two minutes and
  with fewer than 8192 other messages in between is dropped: it is neither delivered to a
  relay nor forwarded, and changes nothing.
\<close>

theorem mesh_duplicate_dropped:
  assumes "mesh_reachable from_str B peers s" and "remember_message t m (ms_context s) = (True, cx)"
    and "\<forall>k seen_at. hm_get (cx_seen_ids (ms_context s)) k = Some seen_at \<longrightarrow> seen_at < t"
    and "length calls < 8192" and "\<forall>(now, j)\<in>set calls. now < t + SEEN_TTL" and "clock V 0 < t + SEEN_TTL"
  shows "handle_frame B V src (Relay m tr f to pb h) (remember_all calls cx) = (Inr (), remember_all calls cx, [], [])"
proof -
  have "cache.holds (\<lambda>s. s) {} m t (cx_seen_ids cx)"
    using mesh_reachable_ok [OF assms(1)] assms(2,3) by (intro remember_new) (auto simp: server_ok_def)
  moreover have ttl: "0 < SEEN_TTL" by (simp add: SEEN_TTL_def from_secs_def)
  ultimately obtain S where "cache.holds (\<lambda>s. s) S m t (cx_seen_ids (remember_all calls cx))"
    using remember_all_keeps [of "{}" m t cx calls] assms(4,5) by (fastforce simp: MAX_SEEN_IDS_def)
  then have "remember_message (clock V 0) m (remember_all calls cx) = (False, remember_all calls cx)"
    using assms(6) ttl by (intro remember_again) auto
  then show ?thesis by (simp add: handle_frame_def)
qed

theorem mesh_duplicate_dropped_witness:
  "handle_frame ex_base64 ex_mesh_env ''b''
      (Relay ''m1'' Udp ''x'' ''y'' ''p'' 3)
      (remember_all [(20, ''m2'')] (snd (remember_message 10 ''m1'' (ms_context ex_server)))) =
   (Inr (), remember_all [(20, ''m2'')] (snd (remember_message 10 ''m1'' (ms_context ex_server))), [], [])"
proof -
  have "fst (remember_message 10 ''m1'' (ms_context ex_server))"
      "cx_seen_ids (ms_context ex_server) = hm_empty"
    by (simp_all add: remember_message_def ex_server_def ex_context_def Let_def hm_simps)
  then show ?thesis
    by (intro mesh_duplicate_dropped [OF ex_server_reachable, of 10])
      (simp_all add: prod_eq_iff hm_simps SEEN_TTL_def from_secs_def ex_mesh_env_def)
qed

subsection \<open>Lost connections\<close>

lemma surjective_pairing_3: "x = (fst x, fst (snd x), snd (snd x))"
  by simp

text \<open>
  A connection that ends with a read error leaves its entry behind, which one that ends
  with the end of the stream does not. As long as the channel of the entry has its
  receiver, a packet whose route goes through that peer is queued for the dead
  connection alone, and not sent to the other peers.
\<close>

theorem mesh_read_error_keeps_peer:
  assumes "hm_get (ms_conns s) c = Some p" and "hm_get (cx_peers (ms_context s)) p = Some \<lparr>ps_conn_id = c\<rparr>"
    and "hm_get (cx_route_hints (ms_context s)) t = Some \<lparr>rh_peer_id = p, rh_updated_at = seen_at\<rparr>"
    and "now - seen_at \<le> ROUTE_TTL" and "chan_open V c"
    and "connection_turn from_str B V c ReadErr s = (s1, sends1, packets1)"
    and "connection_turn from_str B V c Eof s = (s2, sends2, packets2)"
  shows "hm_get (ms_conns s1) c = None \<and>
    snd (forward_to_target V now None t frame (ms_context s1)) = [(p, c, frame)] \<and>
    hm_get (cx_peers (ms_context s2)) p = None"
proof -
  have "s1 = s\<lparr>ms_conns := hm_remove c (ms_conns s)\<rparr>"
      "ms_context s2 = close_connection c p (ms_context s)"
    using assms(1,6,7) by (auto simp: connection_turn_def)
  with assms(2-5) show ?thesis
    by (simp add: hm_simps forward_to_target_def lookup_route_def send_to_peer_def close_connection_def)
qed

theorem mesh_read_error_keeps_peer_witness:
  "snd (forward_to_target ex_mesh_env 30 None ''x'' (Hello ''a'')
     (ms_context (fst (connection_turn ex_from_str ex_base64
        ex_mesh_env 1 ReadErr
        (ex_server\<lparr>ms_context := learn_route 20 ''x'' ''b'' (ms_context ex_server)\<rparr>))))) = [(''b'', 1, Hello ''a'')]"
proof -
  define s where "s = ex_server\<lparr>ms_context := learn_route 20 ''x'' ''b'' (ms_context ex_server)\<rparr>"
  have "cx_route_hints (ms_context s) = [(''x'', \<lparr>rh_peer_id = ''b'', rh_updated_at = 20\<rparr>)]"
    by (simp add: s_def learn_route_def ex_server_def ex_context_def touch_cache_def prune_cache_def hm_len_def
        MAX_ROUTE_HINTS_def hm_insert_def hm_empty_def)
  moreover have "ms_conns s = [(1, ''b'')]" "cx_peers (ms_context s) = [(''b'', \<lparr>ps_conn_id = 1\<rparr>)]"
    by (simp_all add: s_def ex_server_def)
  ultimately have "hm_get (ms_conns s) 1 = Some ''b''"
      "hm_get (cx_peers (ms_context s)) ''b'' = Some \<lparr>ps_conn_id = 1\<rparr>"
      "hm_get (cx_route_hints (ms_context s)) ''x'' = Some \<lparr>rh_peer_id = ''b'', rh_updated_at = 20\<rparr>"
    by (simp_all add: hm_get_def)
  from mesh_read_error_keeps_peer [OF this, of 30
      ex_mesh_env
      ex_from_str ex_base64 _ _ _ _ _ _ "Hello ''a''", OF _ _ surjective_pairing_3 surjective_pairing_3]
  show ?thesis by (simp add: s_def ROUTE_TTL_def from_secs_def ex_mesh_env_def)
qed

end
