(* ===== verification/Mesh_Net.thy ===== *)
theory Mesh_Net
  imports Mesh_Server
begin

text \<open>
  Servers that run \<open>mesh.rs\<close> and pass frames to each other. A frame that a server has
  queued for a peer is in flight until the peer handles it or it is lost with its
  connection; frames in flight are handled in any order. A step of the mesh is the
  handling or the loss of one frame.
\<close>

type_synonym flight = "string \<times> string \<times> MeshFrame"

definition flights :: "string \<Rightarrow> send list \<Rightarrow> flight multiset" where
  "flights server sends = mset (map (\<lambda>(peer_id, _, frame). (server, peer_id, frame)) sends)"

inductive mesh_steps ::
  "base64 \<Rightarrow> nat \<Rightarrow> (string \<Rightarrow> MeshContext) \<times> flight multiset \<Rightarrow> (string \<Rightarrow> MeshContext) \<times> flight multiset \<Rightarrow> bool"
  for B
where
  no_step: "mesh_steps B 0 net net"
| handled: "mesh_steps B n net (S, add_mset (src, dst, frame) M) \<Longrightarrow>
    handle_frame B V src frame (S dst) = (res, cx, sends, packets) \<Longrightarrow>
    mesh_steps B (Suc n) net (S(dst := cx), M + flights dst sends)"
| lost: "mesh_steps B n net (S, add_mset (src, dst, frame) M) \<Longrightarrow> mesh_steps B (Suc n) net (S, M)"

section \<open>Floods end\<close>

text \<open>The number of frames a frame with so many hops left can lead to, itself included, when no server has more than \<open>d\<close> peers.\<close>

fun flood :: "nat \<Rightarrow> nat \<Rightarrow> nat" where
  "flood d 0 = 1"
| "flood d (Suc h) = 1 + d * flood d h"

fun frame_weight :: "nat \<Rightarrow> MeshFrame \<Rightarrow> nat" where
  "frame_weight d (Hello _) = 1"
| "frame_weight d (Relay _ _ _ _ _ h) = flood d (unat h)"

definition flight_weight :: "nat \<Rightarrow> flight multiset \<Rightarrow> nat" where
  "flight_weight d M = sum_mset (image_mset (\<lambda>(_, _, frame). frame_weight d frame) M)"

definition degree_at_most :: "nat \<Rightarrow> (string \<Rightarrow> MeshContext) \<Rightarrow> bool" where
  "degree_at_most d S \<longleftrightarrow> (\<forall>a. hm_wf (cx_peers (S a)) \<and> hm_len (cx_peers (S a)) \<le> d)"

lemma frame_weight_pos: "0 < frame_weight d frame"
proof -
  have "0 < flood d h" for h by (cases h) simp_all
  then show ?thesis by (cases frame) simp_all
qed

lemma flight_weight_simps [simp]:
  "flight_weight d {#} = 0"
  "flight_weight d (add_mset (a, b, f) M) = frame_weight d f + flight_weight d M"
  "flight_weight d (M + N) = flight_weight d M + flight_weight d N"
  by (simp_all add: flight_weight_def)

lemma flights_weight:
  assumes "\<forall>(p, c, f)\<in>set sends. f = frame"
  shows "flight_weight d (flights a sends) = length sends * frame_weight d frame"
  using assms by (induction sends) (auto simp: flights_def)

lemma unat_saturating_pred: "h \<noteq> 0 \<Longrightarrow> unat h = Suc (unat (saturating_sub h 1))" for h :: u8
  by (simp add: saturating_sub_def unat_minus_one word_le_nat_alt unat_gt_0 Suc_le_eq)

text \<open>Handling a frame queues at most one frame for each peer, all alike and with one hop less.\<close>

lemma handle_frame_weight:
  assumes "handle_frame B V src frame cx = (res, cx', sends, packets)"
    and "hm_wf (cx_peers cx)" and "hm_len (cx_peers cx) \<le> d"
  shows "flight_weight d (flights a sends) < frame_weight d frame"
proof (cases frame)
  case (Hello i)
  with assms(1) show ?thesis by (simp add: handle_frame_def flights_def)
next
  case (Relay m tr f t pb h)
  from assms(1) [unfolded Relay] show ?thesis
  proof (cases rule: handle_relay_cases)
    case (forwarded payload pk cx1)
    let ?fr = "Relay m tr f t (b64_encode B payload) (saturating_sub h 1)"
    have peers: "cx_peers cx1 = cx_peers cx" using forwarded(2) by simp
    have sends: "sends = snd (forward_to_target V (clock V 2) (Some src) t ?fr cx1)"
      using forwarded(9) by (metis snd_conv)
    have "\<forall>(p, c, f)\<in>set sends. f = ?fr"
      unfolding sends by clarify (metis forward_sends assms(2) peers)
    then have "flight_weight d (flights a sends) = length sends * flood d (unat (saturating_sub h 1))"
      by (simp add: flights_weight)
    also have "length sends \<le> d"
      using forward_length [of V "clock V 2" "Some src" t ?fr cx1] assms(3) by (simp add: sends peers)
    finally show ?thesis
      using unat_saturating_pred [OF forwarded(8)] by (simp add: Relay less_Suc_eq_le)
  qed (use frame_weight_pos in \<open>simp_all add: Relay flights_def del: frame_weight.simps\<close>)
qed

lemma mesh_steps_weight:
  assumes "mesh_steps B n net net'" and "degree_at_most d (fst net)"
  shows "degree_at_most d (fst net') \<and> n + flight_weight d (snd net') \<le> flight_weight d (snd net)"
  using assms
proof (induction rule: mesh_steps.induct)
  case (handled n net S src dst frame M V res cx sends packets)
  then have deg: "degree_at_most d S"
    and le: "n + (frame_weight d frame + flight_weight d M) \<le> flight_weight d (snd net)" by simp_all
  have "cx_peers cx = cx_peers (S dst)" by (rule handle_frame_keeps [OF handled(2)])
  with deg have "degree_at_most d (S(dst := cx))" by (simp add: degree_at_most_def)
  moreover have "flight_weight d (flights dst sends) < frame_weight d frame"
    using deg by (intro handle_frame_weight [OF handled(2)]) (simp_all add: degree_at_most_def)
  ultimately show ?case using le by (simp add: fun_upd_def)
next
  case (lost n net S src dst frame M)
  then show ?case using frame_weight_pos [of d frame] by simp
qed simp

lemma flood_sum: "flood d h = (\<Sum>i\<le>h. d ^ i)"
  by (induction h) (simp_all add: sum.atMost_Suc_shift sum_distrib_left del: sum.atMost_Suc)

lemma flight_weight_size: "size M \<le> flight_weight d M"
proof (induction M)
  case (add fl M)
  then show ?case using frame_weight_pos [of d "snd (snd fl)"] by (cases fl) simp
qed simp

text \<open>A packet from a relay is queued once for each peer at most, with all the hops of the server.\<close>

lemma from_local_sends:
  assumes "from_local B V m packet cx = (cx', sends)" and "hm_wf (cx_peers cx)"
  shows "\<forall>(p, c, f)\<in>set sends. f = Relay m (mo_transport packet) (mo_from_id packet) (mo_to_id packet)
      (b64_encode B (mo_payload packet)) (cx_max_hops cx)"
    and "length sends \<le> hm_len (cx_peers cx)" and "cx_peers cx' = cx_peers cx"
proof -
  let ?cx0 = "snd (remember_message (clock V 0) m cx)"
  let ?fr = "Relay m (mo_transport packet) (mo_from_id packet) (mo_to_id packet)
    (b64_encode B (mo_payload packet)) (cx_max_hops cx)"
  have fw: "forward_to_target V (clock V 1) None (mo_to_id packet) ?fr ?cx0 = (cx', sends)"
    using assms(1) by (simp add: from_local_def Let_def)
  show "\<forall>(p, c, f)\<in>set sends. f = ?fr"
    using forward_sends [of ?cx0] assms(2) fw by clarify (metis remember_message_fields(1) snd_conv)
  show "length sends \<le> hm_len (cx_peers cx)"
    using forward_length [of V "clock V 1" None "mo_to_id packet" ?fr ?cx0] fw by simp
  show "cx_peers cx' = cx_peers cx"
    using forward_to_target_fst [of V "clock V 1" None "mo_to_id packet" ?fr ?cx0] fw by simp
qed

text \<open>
  C22: a packet that a relay hands to its server floods no further than the hop limit allows:
  when no server has more than \<open>d\<close> peers connected, at most
  \<open>d * (1 + d + \<dots> + d ^ max_hops)\<close> frames are ever handled or lost because of it or in
  flight, in any order and at any time; so the flood ends.
\<close>

theorem mesh_flood_ends:
  assumes "degree_at_most d S" and "from_local B V m packet (S a) = (cx, sends)"
    and "mesh_steps B n (S(a := cx), flights a sends) (S', M)"
  shows "n + size M \<le> d * (\<Sum>i\<le>unat (cx_max_hops (S a)). d ^ i)"
proof -
  have deg: "hm_wf (cx_peers (S a))" "hm_len (cx_peers (S a)) \<le> d"
    using assms(1) by (simp_all add: degree_at_most_def)
  note sends = from_local_sends [OF assms(2) deg(1)]
  have "degree_at_most d (S(a := cx))" using assms(1) sends(3) by (simp add: degree_at_most_def)
  then have "n + flight_weight d M \<le> length sends * flood d (unat (cx_max_hops (S a)))"
    using mesh_steps_weight [OF assms(3), of d] flights_weight [OF sends(1), of d a] by simp
  also have "\<dots> \<le> d * flood d (unat (cx_max_hops (S a)))"
    using sends(2) deg(2) by (intro mult_le_mono1) simp
  finally show ?thesis using flight_weight_size [of M d] by (simp add: flood_sum)
qed

text \<open>The server of the example floods a packet to its one peer.\<close>

definition ex_packet :: MeshOutgoingPacket where
  "ex_packet = \<lparr>mo_transport = Udp, mo_from_id = ''x'', mo_to_id = ''y'', mo_payload = ''p''\<rparr>"

definition ex_frame :: MeshFrame where
  "ex_frame = Relay ''m'' Udp ''x'' ''y'' ''p'' 4"

lemma ex_from_local:
  "from_local ex_base64 ex_mesh_env ''m'' ex_packet (ms_context ex_server) =
     (snd (remember_message 30 ''m'' (ms_context ex_server)), [(''b'', 1, ex_frame)])"
proof -
  have "cx_peers (ms_context ex_server) = [(''b'', \<lparr>ps_conn_id = 1\<rparr>)]" "cx_max_hops (ms_context ex_server) = 4"
      "cx_route_hints (ms_context ex_server) = hm_empty"
    by (simp_all add: ex_server_def ex_context_def)
  then show ?thesis
    by (simp add: from_local_def Let_def forward_to_target_def lookup_route_def hm_simps broadcast_def hm_iter_def
        ex_base64_def ex_mesh_env_def ex_packet_def ex_frame_def)
qed

lemma ex_degree: "degree_at_most 1 (\<lambda>_. ms_context ex_server)"
  by (simp add: degree_at_most_def ex_server_def hm_wf_def hm_len_def)

theorem mesh_flood_ends_witness:
  "\<exists>S' M. mesh_steps ex_base64 1
      ((\<lambda>_. ms_context ex_server)(''a'' := snd (remember_message 30 ''m'' (ms_context ex_server))),
       flights ''a'' [(''b'', 1, ex_frame)]) (S', M) \<and> 1 + size M \<le> 5"
proof -
  let ?S = "(\<lambda>_. ms_context ex_server)(''a'' := snd (remember_message 30 ''m'' (ms_context ex_server)))"
  have "mesh_steps ex_base64 0 (?S, flights ''a'' [(''b'', 1, ex_frame)]) (?S, add_mset (''a'', ''b'', ex_frame) {#})"
    using no_step [of ex_base64 "(?S, flights ''a'' [(''b'', 1, ex_frame)])"] by (simp add: flights_def)
  then have step: "mesh_steps ex_base64 1 (?S, flights ''a'' [(''b'', 1, ex_frame)]) (?S, {#})"
    using lost by fastforce
  have "cx_max_hops (ms_context ex_server) = 4" by (simp add: ex_server_def ex_context_def)
  with mesh_flood_ends [OF ex_degree ex_from_local step] have "1 + size ({#} :: flight multiset) \<le> 5" by simp
  with step show ?thesis by blast
qed

section \<open>What arrives was sent\<close>

text \<open>
  A history of the mesh, with the packets the relays have handed in, each with the message
  id it was given, and the packets the servers have handed to their relays.
\<close>

inductive mesh_history ::
  "base64 \<Rightarrow> (string \<Rightarrow> MeshContext) \<Rightarrow> flight multiset \<Rightarrow> (string \<times> MeshOutgoingPacket) list
   \<Rightarrow> MeshIncomingPacket list \<Rightarrow> bool"
  for B
where
  quiet: "\<forall>a. hm_wf (cx_peers (S a)) \<Longrightarrow> mesh_history B S {#} [] []"
| handed_in: "mesh_history B S M sent got \<Longrightarrow> from_local B V m packet (S a) = (cx, sends) \<Longrightarrow>
    mesh_history B (S(a := cx)) (M + flights a sends) ((m, packet) # sent) got"
| relayed: "mesh_history B S (add_mset (src, dst, frame) M) sent got \<Longrightarrow>
    handle_frame B V src frame (S dst) = (res, cx, sends, packets) \<Longrightarrow>
    mesh_history B (S(dst := cx)) (M + flights dst sends) sent (packets @ got)"
| dropped: "mesh_history B S (add_mset fl M) sent got \<Longrightarrow> mesh_history B S M sent got"

definition b64_ok :: "base64 \<Rightarrow> bool" where
  "b64_ok B \<longleftrightarrow> (\<forall>payload. b64_decode B (b64_encode B payload) = Some payload)"

lemma ex_base64_ok: "b64_ok ex_base64"
  by (simp add: b64_ok_def ex_base64_def)

text \<open>A frame carries one of the packets that were sent, and so does a delivery.\<close>

definition carries :: "base64 \<Rightarrow> MeshFrame \<Rightarrow> string \<Rightarrow> MeshOutgoingPacket \<Rightarrow> bool" where
  "carries B frame m packet \<longleftrightarrow>
     (\<exists>pb h. frame = Relay m (mo_transport packet) (mo_from_id packet) (mo_to_id packet) pb h \<and>
        b64_decode B pb = Some (mo_payload packet))"

definition same_packet :: "MeshIncomingPacket \<Rightarrow> MeshOutgoingPacket \<Rightarrow> bool" where
  "same_packet pk packet \<longleftrightarrow> mi_transport pk = mo_transport packet \<and> mi_from_id pk = mo_from_id packet \<and>
     mi_to_id pk = mo_to_id packet \<and> mi_payload pk = mo_payload packet"

lemma handle_frame_carries:
  assumes "handle_frame B V src frame cx = (res, cx', sends, packets)" and "hm_wf (cx_peers cx)"
    and "b64_ok B" and "carries B frame m packet"
  shows "(\<forall>(p, c, f)\<in>set sends. carries B f m packet) \<and> (\<forall>pk\<in>set packets. same_packet pk packet)"
proof -
  obtain pb h where fr: "frame = Relay m (mo_transport packet) (mo_from_id packet) (mo_to_id packet) pb h"
    and pb: "b64_decode B pb = Some (mo_payload packet)" using assms(4) by (auto simp: carries_def)
  from assms(1) [unfolded fr] show ?thesis
  proof (cases rule: handle_relay_cases)
    case (forwarded payload pk cx1)
    have "hm_wf (cx_peers cx1)" using forwarded(2) assms(2) by simp
    have "f = Relay m (mo_transport packet) (mo_from_id packet) (mo_to_id packet)
        (b64_encode B payload) (saturating_sub h 1)" if "(p, c, f) \<in> set sends" for p c f
      using forward_sends [OF \<open>hm_wf (cx_peers cx1)\<close>] that forwarded(9) by (metis snd_conv)
    moreover have "payload = mo_payload packet" using pb forwarded(3) by simp
    ultimately show ?thesis
      using forwarded(5,6) assms(3) by (auto simp: carries_def same_packet_def b64_ok_def) blast
  qed (use pb in \<open>simp_all add: same_packet_def\<close>)
qed

lemma from_local_carries:
  assumes "from_local B V m packet cx = (cx', sends)" and "hm_wf (cx_peers cx)" and "b64_ok B"
  shows "\<forall>(p, c, f)\<in>set sends. carries B f m packet" and "cx_peers cx' = cx_peers cx"
  using from_local_sends [OF assms(1,2)] assms(3) by (fastforce simp: carries_def b64_ok_def)+

lemma flights_iff: "(a, p, f) \<in># flights b sends \<longleftrightarrow> a = b \<and> (\<exists>c. (p, c, f) \<in> set sends)"
  by (force simp: flights_def)

definition accounted :: "base64 \<Rightarrow> (string \<times> MeshOutgoingPacket) list \<Rightarrow> flight multiset \<Rightarrow> MeshIncomingPacket list \<Rightarrow> bool" where
  "accounted B sent M got \<longleftrightarrow>
     (\<forall>a p f. (a, p, f) \<in># M \<longrightarrow> (\<exists>m packet. (m, packet) \<in> set sent \<and> carries B f m packet)) \<and>
     (\<forall>pk\<in>set got. \<exists>m packet. (m, packet) \<in> set sent \<and> same_packet pk packet)"

lemma accounted_more:
  assumes "accounted B sent M got" and "(m, packet) \<in> set sent'" and "set sent \<subseteq> set sent'"
    and "\<forall>(p, c, f)\<in>set sends. carries B f m packet" and "\<forall>pk\<in>set packets. same_packet pk packet"
  shows "accounted B sent' (M + flights a sends) (packets @ got)"
proof -
  have "\<exists>m packet. (m, packet) \<in> set sent' \<and> carries B f m packet" if "(x, p, f) \<in># M + flights a sends" for x p f
  proof (cases "(x, p, f) \<in># M")
    case True
    then show ?thesis using assms(1,3) unfolding accounted_def by blast
  next
    case False
    with that assms(2,4) show ?thesis by (fastforce simp: flights_iff)
  qed
  moreover have "\<exists>m packet. (m, packet) \<in> set sent' \<and> same_packet pk packet" if "pk \<in> set (packets @ got)" for pk
    using that assms(1,2,3,5) unfolding accounted_def by (metis set_append UnE subsetD)
  ultimately show ?thesis by (simp add: accounted_def)
qed

lemma accounted_less: "accounted B sent (add_mset fl M) got \<Longrightarrow> accounted B sent M got"
  by (simp add: accounted_def)

lemma mesh_history_accounted:
  assumes "mesh_history B S M sent got" and "b64_ok B"
  shows "(\<forall>a. hm_wf (cx_peers (S a))) \<and> accounted B sent M got"
  using assms
proof (induction rule: mesh_history.induct)
  case (quiet S)
  then show ?case by (simp add: accounted_def)
next
  case (handed_in S M sent got V m packet a cx sends)
  then have wf: "\<forall>a. hm_wf (cx_peers (S a))" and acc: "accounted B sent M got" by simp_all
  note c = from_local_carries [OF handed_in(2) wf [rule_format] handed_in.prems]
  have "accounted B ((m, packet) # sent) (M + flights a sends) ([] @ got)"
    using c by (intro accounted_more [OF acc]) auto
  with wf c show ?case by simp
next
  case (relayed S src dst frame M sent got V res cx sends packets)
  then have wf: "\<forall>a. hm_wf (cx_peers (S a))" and acc: "accounted B sent (add_mset (src, dst, frame) M) got"
    by simp_all
  then obtain m packet where mp: "(m, packet) \<in> set sent" "carries B frame m packet"
    unfolding accounted_def by (meson union_single_eq_member)
  note c = handle_frame_carries [OF relayed(2) wf [rule_format] relayed.prems mp(2)]
  have "accounted B sent (M + flights dst sends) (packets @ got)"
    using c mp(1) by (intro accounted_more [OF accounted_less [OF acc]]) auto
  with wf handle_frame_keeps(1) [OF relayed(2)] show ?case by simp
next
  case (dropped S fl M sent got)
  then show ?case using accounted_less by blast
qed

text \<open>
  C29: whatever a server of the mesh hands to its relays is a packet that a relay of the mesh has
  handed in, with the same transport, sender, target and payload, over any number of
  hops, duplicates and losses.
\<close>

theorem mesh_delivers_sent_packets:
  assumes "b64_ok B" and "mesh_history B S M sent got" and "pk \<in> set got"
  shows "\<exists>m packet. (m, packet) \<in> set sent \<and> same_packet pk packet"
  using mesh_history_accounted [OF assms(2,1)] assms(3) by (simp add: accounted_def)

theorem mesh_delivers_sent_packets_witness:
  "\<exists>S M pk. mesh_history ex_base64 S M [(''m'', ex_packet)] [pk] \<and> same_packet pk ex_packet"
proof -
  let ?S = "\<lambda>_. ms_context ex_server"
  have "mesh_history ex_base64 ?S {#} [] []"
    using ex_degree by (intro quiet) (simp add: degree_at_most_def)
  from handed_in [OF this, where V = ex_mesh_env and m = "''m''" and packet = ex_packet and a = "''a''"]
  have h: "mesh_history ex_base64 (?S(''a'' := snd (remember_message 30 ''m'' (ms_context ex_server))))
      (add_mset (''a'', ''b'', ex_frame) {#}) [(''m'', ex_packet)] []"
    by (simp add: ex_from_local flights_def)
  obtain res cx sends packets where
    r: "handle_frame ex_base64 ex_mesh_env ''a'' ex_frame (ms_context ex_server) = (res, cx, sends, packets)"
    by (metis prod_cases4)
  have one: "\<exists>pk. packets = [pk]"
  proof -
    have "fst (remember_message (clock ex_mesh_env 0) ''m'' (ms_context ex_server))"
      by (simp add: remember_message_def ex_server_def ex_context_def Let_def hm_simps)
    then show ?thesis
      using r [unfolded ex_frame_def] by (auto simp: ex_base64_def elim!: handle_relay_cases)
  qed
  then obtain pk where "mesh_history ex_base64
      (?S(''a'' := snd (remember_message 30 ''m'' (ms_context ex_server)), ''b'' := cx))
      ({#} + flights ''b'' sends) [(''m'', ex_packet)] [pk]"
    using relayed [OF h, of ex_mesh_env res cx sends packets] r by auto
  moreover from mesh_delivers_sent_packets [OF ex_base64_ok this, of pk] have "same_packet pk ex_packet"
    by simp
  ultimately show ?thesis by blast
qed

section \<open>One hop\<close>

text \<open>A packet for a node without a known route is queued for every connected peer.\<close>

lemma from_local_broadcast:
  assumes "hm_wf (cx_peers cx)" and "hm_get (cx_peers cx) b = Some \<lparr>ps_conn_id = c\<rparr>" and "chan_open V c"
    and "hm_get (cx_route_hints cx) (mo_to_id packet) = None"
    and "from_local B V m packet cx = (cx1, sends)"
  shows "(b, c, Relay m (mo_transport packet) (mo_from_id packet) (mo_to_id packet)
    (b64_encode B (mo_payload packet)) (cx_max_hops cx)) \<in> set sends"
proof -
  let ?fr = "Relay m (mo_transport packet) (mo_from_id packet) (mo_to_id packet)
    (b64_encode B (mo_payload packet)) (cx_max_hops cx)"
  have "sends = broadcast V None ?fr (snd (remember_message (clock V 0) m cx))"
    using assms(4,5) by (auto simp: from_local_def Let_def forward_to_target_def lookup_route_def)
  then show ?thesis
    using assms(2,3) by (auto simp: broadcast_iff hm_iter_iff [OF assms(1)])
qed

text \<open>A message a server has not seen is handed to its relays, and goes no further when they deliver it.\<close>

lemma handle_frame_fresh:
  assumes "hm_get (cx_seen_ids cx) m = None" and "b64_decode B pb = Some payload"
    and "pk = \<lparr>mi_transport = tr, mi_from_id = f, mi_to_id = t, mi_payload = payload\<rparr>"
    and "ask_local V pk = Answered True"
  shows "\<exists>cx'. handle_frame B V src (Relay m tr f t pb h) cx = (Inr (), cx', [], [pk])"
proof -
  obtain res cx' sends packets where
    h: "handle_frame B V src (Relay m tr f t pb h) cx = (res, cx', sends, packets)" by (metis prod_cases4)
  have "fst (remember_message (clock V 0) m cx)"
    using assms(1) by (simp add: remember_message_def Let_def)
  with h assms(2-4) have "res = Inr () \<and> sends = [] \<and> packets = [pk]"
    by (cases rule: handle_relay_cases) (auto simp: deliver_local_def)
  with h show ?thesis by simp
qed

end
