(* ===== verification/Relay_Mesh.thy ===== *)
theory Relay_Mesh
  imports Udp_Relay Stream_Relay Mesh_Net
begin

text \<open>
  The relays and the mesh together: the task of \<open>main.rs\<close> that hands packets of the mesh to
  the relay of their transport, the codec the two relays share, and the way of a packet
  from one server to another.
\<close>

section \<open>Dispatch\<close>

text \<open>
  The far end of the channel to a relay: not read, because the relay is not enabled; closed,
  because the relay has failed to start; or read by the relay with its state.
\<close>

datatype 'relay relay_side =
    NotRead
  | Closed
  | Reading 'relay

definition mesh_dispatch ::
  "('addr udp_env \<times> 'addr udp_peers) relay_side \<Rightarrow> (stream_env \<times> stream_peers) relay_side \<Rightarrow> MeshIncomingPacket
   \<Rightarrow> local_answer \<times> (bytes \<times> 'addr) list \<times> (u64 \<times> bytes) list"
where
  "mesh_dispatch udp stream packet =
     (case mi_transport packet of
        Stream \<Rightarrow>
          (case stream of
             NotRead \<Rightarrow> (NoAnswer, [], [])
           | Closed \<Rightarrow> (Answered False, [], [])
           | Reading (V, peers) \<Rightarrow>
               (case stream_mesh_delivery V packet peers of (delivered, queued) \<Rightarrow> (Answered delivered, [], queued)))
      | Udp \<Rightarrow>
          (case udp of
             NotRead \<Rightarrow> (NoAnswer, [], [])
           | Closed \<Rightarrow> (Answered False, [], [])
           | Reading (V, peers) \<Rightarrow>
               (case udp_mesh_delivery V packet peers of (delivered, sent) \<Rightarrow> (Answered delivered, sent, []))))"

text \<open>
  The answer the mesh gets is true exactly when a relay has sent something, and what was sent
  carries the sender and payload to an address or connection known for the target.
\<close>

lemma mesh_dispatch_honest:
  assumes "mesh_dispatch udp stream packet = (Answered delivered, sent, queued)"
  shows "(delivered \<longleftrightarrow> sent \<noteq> [] \<or> queued \<noteq> []) \<and>
    (\<forall>(b, a)\<in>set sent. \<exists>V peers. udp = Reading (V, peers) \<and> udp_knows peers (mi_to_id packet) a \<and>
       b = packet_bytes udp_MAGIC TYPE_DELIVER (char_of (0 :: nat)) (mi_from_id packet) [] (mi_payload packet)) \<and>
    (\<forall>(c, b)\<in>set queued. \<exists>V peers. stream = Reading (V, peers) \<and> stream_knows peers (mi_to_id packet) c \<and>
       b = packet_bytes stream_MAGIC TYPE_DELIVER (char_of (0 :: nat)) (mi_from_id packet) [] (mi_payload packet))"
proof (cases "mi_transport packet")
  case Stream
  show ?thesis
  proof (cases stream)
    case (Reading x)
    obtain V peers where x: "x = (V, peers)" by fastforce
    have "(case stream_deliver_local V peers (mi_from_id packet) (mi_to_id packet) (mi_payload packet) of
        (result, out) \<Rightarrow> (result = Inr True, out)) = (delivered, queued)" "sent = []"
      using assms by (auto simp: mesh_dispatch_def Stream Reading x stream_mesh_delivery_def split: prod.splits)
    with stream_local.answer_honest [OF this(1)] Reading x show ?thesis by auto
  qed (use assms Stream in \<open>auto simp: mesh_dispatch_def\<close>)
next
  case Udp
  show ?thesis
  proof (cases udp)
    case (Reading x)
    obtain V peers where x: "x = (V, peers)" by fastforce
    have "(case apsnd (map prod.swap) (udp_deliver_local V peers (mi_from_id packet) (mi_to_id packet) (mi_payload packet)) of
        (result, out) \<Rightarrow> (result = Inr True, out)) = (delivered, map prod.swap sent)" "queued = []"
      using assms by (auto simp: mesh_dispatch_def Udp Reading x udp_mesh_delivery_def split: prod.splits)
    with udp_local.answer_honest [OF this(1)] Reading x show ?thesis by fastforce
  qed (use assms Udp in \<open>auto simp: mesh_dispatch_def\<close>)
qed

section \<open>Packets\<close>

text \<open>
  C30: what a client builds, a relay reads: a registration and a packet between valid ids are
  parsed to their parts, by both relays, and a buffer that is parsed to a packet is the
  layout of its parts, up to the reserved byte. A relay takes
  neither its own deliveries nor the packets of the other relay for requests.
\<close>

theorem relay_packet_roundtrip:
  assumes "valid_id f" and "valid_id t"
  shows "(\<exists>buf. udp_build_packet TYPE_REGISTER f [] [] = Inr buf \<and> udp_parse_packet buf = Some (Register f)) \<and>
    (\<exists>buf. udp_build_packet TYPE_SEND f t p = Inr buf \<and> udp_parse_packet buf = Some (Send f t p) \<and>
       stream_parse_packet buf = None) \<and>
    (\<exists>buf. stream_build_packet TYPE_REGISTER f [] [] = Inr buf \<and> stream_parse_packet buf = Some (Register f)) \<and>
    (\<exists>buf. stream_build_packet TYPE_SEND f t p = Inr buf \<and> stream_parse_packet buf = Some (Send f t p) \<and>
       udp_parse_packet buf = None) \<and>
    (\<exists>buf. udp_build_packet TYPE_DELIVER f [] p = Inr buf \<and> udp_parse_packet buf = None) \<and>
    (\<exists>buf. stream_build_packet TYPE_DELIVER f [] p = Inr buf \<and> stream_parse_packet buf = None) \<and>
    (udp_parse_packet buf = Some (Send f' t' p') \<longrightarrow> (\<exists>r. buf = packet_bytes udp_MAGIC TYPE_SEND r f' t' p')) \<and>
    (stream_parse_packet buf = Some (Send f' t' p') \<longrightarrow> (\<exists>r. buf = packet_bytes stream_MAGIC TYPE_SEND r f' t' p'))"
proof -
  have other: "parse_packet magic (packet_bytes magic' ty r f t p) = None"
    if "magic \<noteq> magic'" "length magic = 4" "length magic' = 4" for magic magic' ty r
    using that by (simp add: parse_packet_def byte_slice_def packet_bytes_def)
  have len: "length f \<le> MAX_ID_LEN" "length t \<le> MAX_ID_LEN" using assms by (simp_all add: valid_id_def)
  have "\<exists>buf. udp_build_packet TYPE_SEND f t p = Inr buf \<and> stream_parse_packet buf = None"
      "\<exists>buf. stream_build_packet TYPE_SEND f t p = Inr buf \<and> udp_parse_packet buf = None"
    using len by (simp_all add: udp_codec.build_eq stream_codec.build_eq stream_parse_packet_def
        udp_parse_packet_def other udp_MAGIC_def stream_MAGIC_def)
  moreover have "\<exists>buf. udp_build_packet TYPE_DELIVER f [] p = Inr buf"
      "\<exists>buf. stream_build_packet TYPE_DELIVER f [] p = Inr buf"
    using len by (simp_all add: udp_codec.build_eq stream_codec.build_eq)
  moreover have "udp_parse_packet buf = Some (Send f' t' p') \<longrightarrow> (\<exists>r. buf = packet_bytes udp_MAGIC TYPE_SEND r f' t' p')"
      "stream_parse_packet buf = Some (Send f' t' p') \<longrightarrow> (\<exists>r. buf = packet_bytes stream_MAGIC TYPE_SEND r f' t' p')"
    using udp_codec.build_parse stream_codec.build_parse by blast+
  ultimately show ?thesis
    using udp_codec.register_roundtrip [OF assms(1)] stream_codec.register_roundtrip [OF assms(1)]
      udp_codec.send_roundtrip [OF assms] stream_codec.send_roundtrip [OF assms]
      udp_codec.deliver_not_parsed stream_codec.deliver_not_parsed
    by (metis sum.inject(2))
qed

theorem relay_packet_roundtrip_witness:
  "\<exists>buf. udp_build_packet TYPE_SEND ''n1'' ''n2'' ''hi'' = Inr buf \<and> udp_parse_packet buf = Some (Send ''n1'' ''n2'' ''hi'')"
  using relay_packet_roundtrip [OF ex_ids, of "''hi''"] by blast

section \<open>From one server to another\<close>



end
