(* ===== verification/Config.thy ===== *)
theory Config
  imports Api_Base State_Store Mesh
begin

text \<open>
  The start of \<open>main.rs\<close>: the arguments, what is made of them, and the order in which a
  bad one is refused. Arguments are parsed and split at commas by \<open>clap\<close>; loading the
  store is a parameter. An \<open>anyhow\<close> error is its message.
\<close>

section \<open>Socket addresses\<close>

text \<open>\<open>SocketAddr\<close> and its reader in the standard library; the last field of an IPv6 address is its scope.\<close>

datatype SocketAddr = SocketV4 ipv4 u16 | SocketV6 ipv6 u16 u32

definition read_given_char :: "char \<Rightarrow> string \<Rightarrow> string option" where
  "read_given_char c s = (case s of x # r \<Rightarrow> if x = c then Some r else None | [] \<Rightarrow> None)"

definition read_port :: "string \<Rightarrow> (nat \<times> string) option" where
  "read_port s =
     (case read_given_char CHR '':'' s of None \<Rightarrow> None | Some r \<Rightarrow> read_number 10 (length r) True (2 ^ 16) r)"

definition read_scope_id :: "string \<Rightarrow> nat \<times> string" where
  "read_scope_id s =
     (case read_given_char CHR ''%'' s of
        None \<Rightarrow> (0, s)
      | Some r \<Rightarrow> (case read_number 10 (length r) True (2 ^ 32) r of Some (n, r') \<Rightarrow> (n, r') | None \<Rightarrow> (0, s)))"

definition parse_socket_addr_v6 :: "string \<Rightarrow> SocketAddr option" where
  "parse_socket_addr_v6 s =
     (case read_given_char CHR ''['' s of
        None \<Rightarrow> None
      | Some r \<Rightarrow>
          (case read_ipv6 r of
             None \<Rightarrow> None
           | Some (gs, r) \<Rightarrow>
               (case read_scope_id r of
                  (scope, r) \<Rightarrow>
                    (case read_given_char CHR '']'' r of
                       None \<Rightarrow> None
                     | Some r \<Rightarrow>
                         (case read_port r of
                            Some (port, []) \<Rightarrow>
                              Some (SocketV6 (of_nat (from_digits (2 ^ 16) gs)) (of_nat port) (of_nat scope))
                          | _ \<Rightarrow> None)))))"

definition parse_socket_addr :: "string \<Rightarrow> SocketAddr option" where
  "parse_socket_addr s =
     (case read_ipv4 s of
        Some (a, r) \<Rightarrow>
          (case read_port r of
             Some (port, r) \<Rightarrow> if r = [] then Some (SocketV4 (of_nat a) (of_nat port)) else None
           | None \<Rightarrow> parse_socket_addr_v6 s)
      | None \<Rightarrow> parse_socket_addr_v6 s)"

definition socket_port :: "SocketAddr \<Rightarrow> u16" where
  "socket_port a = (case a of SocketV4 _ p \<Rightarrow> p | SocketV6 _ p _ \<Rightarrow> p)"

definition is_unspecified :: "SocketAddr \<Rightarrow> bool" where
  "is_unspecified a = (case a of SocketV4 ip _ \<Rightarrow> ip = 0 | SocketV6 ip _ _ \<Rightarrow> ip = 0)"

definition show_socket :: "SocketAddr \<Rightarrow> string" where
  "show_socket a =
     (case a of
        SocketV4 ip port \<Rightarrow> show_ipv4 ip @ '':'' @ show_nat (unat port)
      | SocketV6 ip port scope \<Rightarrow>
          if scope = 0 then ''['' @ show_ipv6 ip @ '']:'' @ show_nat (unat port)
          else ''['' @ show_ipv6 ip @ ''%'' @ show_nat (unat scope) @ '']:'' @ show_nat (unat port))"

section \<open>Host and port\<close>

definition DEFAULT_DNS_PORT :: u16 where
  "DEFAULT_DNS_PORT = 53"

definition parse_port :: "string \<Rightarrow> string + u16" where
  "parse_port s = (case parse_u16 s of Some p \<Rightarrow> Inr p | None \<Rightarrow> Inl ''invalid port'')"

definition split_host_port :: "string \<Rightarrow> string + string \<times> u16" where
  "split_host_port value =
     (let value = trim value in
      if value = [] then Inl ''missing host''
      else case strip_prefix ''['' value of
        Some stripped \<Rightarrow>
          (case split_once CHR '']'' stripped of
             None \<Rightarrow> Inl ''missing closing bracket''
           | Some (host, rest) \<Rightarrow>
               if rest = [] then Inr (host, DEFAULT_DNS_PORT)
               else case strip_prefix '':'' rest of
                      Some port_raw \<Rightarrow> (case parse_port port_raw of Inl e \<Rightarrow> Inl e | Inr port \<Rightarrow> Inr (host, port))
                    | None \<Rightarrow> Inl ''invalid bracketed host'')
      | None \<Rightarrow>
          (case parse_ip value of
             Some ip \<Rightarrow> Inr (show_ip ip, DEFAULT_DNS_PORT)
           | None \<Rightarrow>
               (case rsplit_once CHR '':'' value of
                  Some (host, port_raw) \<Rightarrow>
                    if host = [] then Inl ''missing host''
                    else if CHR '':'' \<in> set host then Inl ''IPv6 addresses with port must be bracketed''
                    else (case parse_port port_raw of Inl e \<Rightarrow> Inl e | Inr port \<Rightarrow> Inr (host, port))
                | None \<Rightarrow> Inr (value, DEFAULT_DNS_PORT))))"

definition format_host_port :: "string \<Rightarrow> u16 \<Rightarrow> string" where
  "format_host_port host port =
     (if CHR '':'' \<in> set host \<and> \<not> starts_with host ''['' then ''['' @ host @ '']:'' @ show_nat (unat port)
      else host @ '':'' @ show_nat (unat port))"

section \<open>Lists of addresses\<close>

text \<open>\<open>sort\<close> followed by \<open>dedup\<close>, which drops repetitions next to each other.\<close>

definition sort_dedup :: "string list \<Rightarrow> string list" where
  "sort_dedup xs = remdups_adj (sort xs)"

fun collect_dns_servers :: "string list \<Rightarrow> string + string list" where
  "collect_dns_servers [] = Inr []"
| "collect_dns_servers (raw # values) =
     (let trimmed = trim raw in
      if trimmed = [] then collect_dns_servers values
      else case split_host_port trimmed of
             Inl _ \<Rightarrow> Inl (''invalid dns server value '' @ trimmed @
               ''; expected HOST[:PORT] (IPv6 with port must use [addr]:port)'')
           | Inr (host, port) \<Rightarrow>
               (case collect_dns_servers values of
                  Inl e \<Rightarrow> Inl e
                | Inr out \<Rightarrow> Inr (format_host_port host port # out)))"

definition normalize_dns_server_values :: "string list \<Rightarrow> string + string list" where
  "normalize_dns_server_values values =
     (case collect_dns_servers values of Inl e \<Rightarrow> Inl e | Inr out \<Rightarrow> Inr (sort_dedup out))"

definition extract_control_url_host :: "string \<Rightarrow> string option" where
  "extract_control_url_host url =
     (case (case strip_prefix ''https://'' url of Some r \<Rightarrow> Some r | None \<Rightarrow> strip_prefix ''http://'' url) of
        None \<Rightarrow> None
      | Some rest \<Rightarrow>
          (let authority = hd (split_on CHR ''/'' rest) in
           if authority = [] then None
           else if starts_with authority ''['' then
             map_option (\<lambda>(inside, _). tl inside) (split_once CHR '']'' authority)
           else case rsplit_once CHR '':'' authority of
                  Some (host, _) \<Rightarrow> if host \<noteq> [] then Some host else Some authority
                | None \<Rightarrow> Some authority))"

definition resolve_dns_servers :: "string list \<Rightarrow> string option \<Rightarrow> string list \<Rightarrow> string + string list" where
  "resolve_dns_servers explicit dns_listen control_urls =
     (if explicit \<noteq> [] then normalize_dns_server_values explicit
      else case dns_listen of
             None \<Rightarrow> Inr []
           | Some listen_raw \<Rightarrow>
               (case parse_socket_addr listen_raw of
                  None \<Rightarrow> Inl (''invalid --dns-listen value '' @ listen_raw)
                | Some listen_addr \<Rightarrow>
                    (let values = List.map_filter (\<lambda>control_url.
                           map_option (\<lambda>host. format_host_port host (socket_port listen_addr))
                             (extract_control_url_host control_url)) control_urls;
                         values = (if values = [] \<and> \<not> is_unspecified listen_addr
                                   then [show_socket listen_addr] else values)
                     in normalize_dns_server_values values)))"

text \<open>The two nested loops of \<open>normalize_control_urls\<close>, over the candidates of all values.\<close>

fun collect_control_urls :: "string list \<Rightarrow> string + string list" where
  "collect_control_urls [] = Inr []"
| "collect_control_urls (candidate # rest) =
     (let trimmed = trim_end_matches CHR ''/'' (trim candidate) in
      if trimmed = [] then collect_control_urls rest
      else if \<not> starts_with trimmed ''http://'' \<and> \<not> starts_with trimmed ''https://''
      then Inl (''invalid --control-url value '' @ candidate @ ''; expected http:// or https:// URL'')
      else case collect_control_urls rest of Inl e \<Rightarrow> Inl e | Inr urls \<Rightarrow> Inr (trimmed # urls))"

definition normalize_control_urls :: "string list \<Rightarrow> string + string list" where
  "normalize_control_urls values =
     (case collect_control_urls (concat (map (split_on CHR '','') values)) of
        Inl e \<Rightarrow> Inl e
      | Inr urls \<Rightarrow> Inr (sort_dedup urls))"

section \<open>The mesh\<close>

fun parse_mesh_peers :: "string list \<Rightarrow> string + MeshPeer list" where
  "parse_mesh_peers [] = Inr []"
| "parse_mesh_peers (value # values) =
     (let (id_raw, addr_raw) = (case split_once CHR ''='' value of Some p \<Rightarrow> p | None \<Rightarrow> (value, []));
          peer_id = trim id_raw;
          addr = trim addr_raw
      in if peer_id = [] \<or> addr = []
         then Inl (''invalid --mesh-peer value '' @ value @ ''; expected ID=HOST:PORT'')
         else case parse_mesh_peers values of
                Inl e \<Rightarrow> Inl e
              | Inr peers \<Rightarrow> Inr (\<lparr>mp_id = peer_id, mp_addr = addr\<rparr> # peers))"

record MeshConfig =
  mc_server_id :: string
  mc_listen :: SocketAddr
  mc_peers :: "MeshPeer list"
  mc_ca_cert_path :: string
  mc_cert_path :: string
  mc_key_path :: string
  mc_max_hops :: u8

record Args =
  a_listen :: string
  a_state :: string
  a_db_url :: "string option"
  a_db_url_file :: "string option"
  a_admin_token :: "string option"
  a_stun :: "string list"
  a_turn :: "string list"
  a_stream_relay :: "string list"
  a_udp_relay :: "string list"
  a_dns_server :: "string list"
  a_udp_relay_listen :: "string option"
  a_stream_relay_listen :: "string option"
  a_dns_listen :: "string option"
  a_mesh_server_id :: "string option"
  a_mesh_listen :: "string option"
  a_mesh_peer :: "string list"
  a_mesh_ca_cert :: "string option"
  a_mesh_cert :: "string option"
  a_mesh_key :: "string option"
  a_mesh_max_hops :: u8
  a_control_url :: "string list"

definition build_mesh_config :: "Args \<Rightarrow> string + MeshConfig option" where
  "build_mesh_config args =
     (let enabled = (a_mesh_server_id args \<noteq> None \<or> a_mesh_listen args \<noteq> None \<or> a_mesh_peer args \<noteq> [] \<or>
            a_mesh_ca_cert args \<noteq> None \<or> a_mesh_cert args \<noteq> None \<or> a_mesh_key args \<noteq> None)
      in if \<not> enabled then Inr None
         else case a_mesh_server_id args of None \<Rightarrow> Inl ''mesh requires --mesh-server-id'' | Some server_id \<Rightarrow>
         (case a_mesh_listen args of None \<Rightarrow> Inl ''mesh requires --mesh-listen'' | Some listen_raw \<Rightarrow>
         (case parse_socket_addr listen_raw of None \<Rightarrow> Inl ''invalid socket address syntax'' | Some listen \<Rightarrow>
         (case a_mesh_ca_cert args of None \<Rightarrow> Inl ''mesh requires --mesh-ca-cert'' | Some ca_cert_path \<Rightarrow>
         (case a_mesh_cert args of None \<Rightarrow> Inl ''mesh requires --mesh-cert'' | Some cert_path \<Rightarrow>
         (case a_mesh_key args of None \<Rightarrow> Inl ''mesh requires --mesh-key'' | Some key_path \<Rightarrow>
         (case parse_mesh_peers (a_mesh_peer args) of Inl e \<Rightarrow> Inl e | Inr peers \<Rightarrow>
           if peers = [] then Inl ''mesh requires at least one --mesh-peer''
           else if a_mesh_max_hops args = 0 then Inl ''--mesh-max-hops must be > 0''
           else Inr (Some \<lparr>mc_server_id = server_id, mc_listen = listen, mc_peers = peers,
                  mc_ca_cert_path = ca_cert_path, mc_cert_path = cert_path, mc_key_path = key_path,
                  mc_max_hops = a_mesh_max_hops args\<rparr>))))))))"

section \<open>Start\<close>

text \<open>
  \<open>main\<close> up to the router: \<open>read_file\<close> gives the text of a file, \<open>load_db\<close> and
  \<open>load_file\<close> the store.
\<close>

datatype store_choice = UseDb string | UseFile string

definition resolve_store :: "(string \<Rightarrow> string option) \<Rightarrow> Args \<Rightarrow> string + store_choice" where
  "resolve_store read_file args =
     (if a_admin_token args = None
      then Inl ''admin token is required; set --admin-token or LIGHTSCALE_ADMIN_TOKEN''
      else if a_db_url args \<noteq> None \<and> a_db_url_file args \<noteq> None
      then Inl ''set only one of --db-url and --db-url-file''
      else case a_db_url_file args of
             Some path \<Rightarrow>
               (case read_file path of
                  None \<Rightarrow> Inl ''io error''
                | Some raw \<Rightarrow>
                    (let trimmed = trim raw in
                     if trimmed = [] then Inl (''db url file is empty: '' @ path) else Inr (UseDb trimmed)))
           | None \<Rightarrow> (case a_db_url args of Some url \<Rightarrow> Inr (UseDb url) | None \<Rightarrow> Inr (UseFile (a_state args))))"

text \<open>The two ways to load the store, on the disk and the table as the start finds them.\<close>

definition load_store ::
  "'c serde \<Rightarrow> 'c disk \<Rightarrow> bool \<Rightarrow> bool \<Rightarrow> 'c io_env \<Rightarrow> State option \<Rightarrow> store_choice \<Rightarrow> string + 'c StoreBackend"
where
  "load_store S disk connected is_cockroach io row choice =
     (case choice of
        UseDb db_url \<Rightarrow>
          (case load_db connected is_cockroach io row of
             (Inl _, _) \<Rightarrow> Inl ''database error''
           | (Inr store, _) \<Rightarrow> Inr store)
      | UseFile path \<Rightarrow> Inr (File (store_load S disk (Some path)) (Some path) disk))"

definition startup ::
  "(string \<Rightarrow> string option) \<Rightarrow> (store_choice \<Rightarrow> string + 'store) \<Rightarrow> Args
   \<Rightarrow> string + ('store \<times> AppState \<times> MeshConfig option)"
where
  "startup read_file load args =
     (case resolve_store read_file args of Inl e \<Rightarrow> Inl e | Inr choice \<Rightarrow>
     (case load choice of Inl e \<Rightarrow> Inl e | Inr store \<Rightarrow>
     (case build_mesh_config args of Inl e \<Rightarrow> Inl e | Inr mesh_config \<Rightarrow>
     (case normalize_control_urls (a_control_url args) of Inl e \<Rightarrow> Inl e | Inr control_urls \<Rightarrow>
     (case resolve_dns_servers (a_dns_server args) (a_dns_listen args) control_urls of
        Inl e \<Rightarrow> Inl e
      | Inr dns_servers \<Rightarrow>
     (case parse_mesh_peers (a_mesh_peer args) of Inl e \<Rightarrow> Inl e | Inr peers \<Rightarrow>
        Inr (store,
          \<lparr>app_relay = \<lparr>rc_stun_servers = a_stun args, rc_turn_servers = a_turn args,
             rc_stream_relay_servers = a_stream_relay args, rc_udp_relay_servers = a_udp_relay args,
             rc_dns_servers = dns_servers\<rparr>,
           app_admin_token = a_admin_token args, app_control_urls = control_urls,
           app_mesh_server_id = a_mesh_server_id args,
           app_mesh_peers = map (\<lambda>peer. \<lparr>mpm_id = mp_id peer, mpm_addr = mp_addr peer\<rparr>) peers\<rparr>,
          mesh_config)))))))"

end
