(* ===== verification/Config_Spec.thy ===== *)
theory Config_Spec
  imports Config
begin

text \<open>
  What the start of the server promises about its configuration: hosts and ports survive
  printing and parsing, the control URLs are normalised, and a server that starts has an
  administrator token and a mesh configuration its mesh accepts.
\<close>

section \<open>A text with one colon is no IPv6 address\<close>

abbreviation colons :: "string \<Rightarrow> nat" where
  "colons s \<equiv> count_list s CHR '':''"

lemma colons_no_digit: "list_all (is_digit radix) ds \<Longrightarrow> radix \<le> 16 \<Longrightarrow> colons ds = 0"
proof -
  assume "list_all (is_digit radix) ds" "radix \<le> 16"
  moreover have "\<not> is_digit radix CHR '':''"
    by (simp add: is_digit_def to_digit_def)
  ultimately show ?thesis by (auto simp: count_list_0_iff list_all_iff)
qed

lemma read_number_colons:
  assumes "read_number radix k z limit s = Some (n, r)" and "radix \<le> 16"
  shows "colons r = colons s"
proof -
  let ?ds = "takeWhile (is_digit radix) s"
  have "r = drop (length ?ds) s"
    using assms(1) by (auto simp: read_number_def Let_def split: if_split_asm)
  then have "s = ?ds @ r" by (metis takeWhile_dropWhile_id dropWhile_eq_drop)
  then have "colons s = colons ?ds + colons r" by (metis count_list_append)
  moreover have "list_all (is_digit radix) ?ds"
    by (auto simp: list_all_iff dest: set_takeWhileD)
  ultimately show ?thesis using colons_no_digit assms(2) by simp
qed

lemma read_separator_colons:
  assumes "read_separator c i p s = Some (x, r)" and "\<And>s x r. p s = Some (x, r) \<Longrightarrow> colons r = colons s"
  shows "colons s = colons r + (if i = 0 \<or> c \<noteq> CHR '':'' then 0 else 1)"
  using assms by (auto simp: read_separator_def split: list.splits if_split_asm)

lemma read_octets_colons: "read_octets i n s = Some (gs, r) \<Longrightarrow> colons r = colons s"
proof (induction i n s arbitrary: gs r rule: read_octets.induct)
  case (2 i n s)
  from "2.prems" obtain g s' gs' where s': "read_separator CHR ''.'' i (read_number 10 3 False 256) s = Some (g, s')"
    and "read_octets (Suc i) n s' = Some (gs', r)" by (auto split: option.splits)
  with "2.IH" have "colons r = colons s'" by blast
  moreover have "colons s = colons s'"
    using read_separator_colons [OF s'] read_number_colons by fastforce
  ultimately show ?case by simp
qed simp

lemma read_ipv4_colons: "read_ipv4 s = Some (a, r) \<Longrightarrow> colons r = colons s"
  by (auto simp: read_ipv4_def dest: read_octets_colons)

lemma read_groups_colons:
  "read_groups i n s = (gs, v4, r) \<Longrightarrow>
     length gs + colons r \<le> colons s + (if i = 0 then 1 else 0) + (if v4 then 1 else 0) \<and> colons r \<le> colons s"
proof (induction i n s arbitrary: gs v4 r rule: read_groups.induct)
  case (2 i n s)
  show ?case
  proof (cases "if n = 0 then None else read_separator CHR '':'' i read_ipv4 s")
    case (Some x)
    obtain a s' where x: "x = (a, s')" by fastforce
    then have "read_separator CHR '':'' i read_ipv4 s = Some (a, s')" using Some by (simp split: if_split_asm)
    from read_separator_colons [OF this read_ipv4_colons] Some x "2.prems" show ?thesis by auto
  next
    case None
    show ?thesis
    proof (cases "read_separator CHR '':'' i (read_number 16 4 True (2 ^ 16)) s")
      case None': None
      with None "2.prems" show ?thesis by (simp split: if_split_asm)
    next
      case (Some x)
      obtain g s' where x: "x = (g, s')" by fastforce
      obtain gs' v4' r' where rec: "read_groups (Suc i) n s' = (gs', v4', r')" by (metis prod_cases3)
      have "gs = g # gs'" "v4 = v4'" "r = r'"
        using "2.prems" None Some x rec by (simp_all split: if_split_asm)
      moreover have "colons s = colons s' + (if i = 0 then 0 else 1)"
        using read_separator_colons [OF Some [unfolded x]] read_number_colons by fastforce
      moreover have "length gs' + colons r' \<le> colons s' + (if v4' then 1 else 0) \<and> colons r' \<le> colons s'"
        using "2.IH" [OF None Some x [symmetric] rec] by simp
      ultimately show ?thesis by auto
    qed
  qed
qed simp

lemma read_ipv6_one_colon:
  assumes "colons s \<le> 1"
  shows "read_ipv6 s = None"
proof -
  obtain head v4 r where g: "read_groups 0 8 s = (head, v4, r)" by (metis prod_cases3)
  from read_groups_colons [OF this] assms have "length head \<le> 3" "colons r \<le> 1" by (auto split: if_split_asm)
  moreover have "\<not> prefix ''::'' r" using \<open>colons r \<le> 1\<close> by (auto simp: prefix_def)
  ultimately show ?thesis using g by (simp add: read_ipv6_def)
qed

lemma parse_ip_one_colon: "colons s = 1 \<Longrightarrow> parse_ip s = None"
  using read_ipv4_colons [of s] read_ipv6_one_colon [of s]
  by (auto simp: parse_ip_def parse_ipv6_def split: option.split)

section \<open>Hosts and ports\<close>

lemma show_nat_visible: "visible (last (show_nat n))"
proof -
  have "is_digit 10 (last (show_nat n))"
    using show_radix_digits [of 10 n] by (simp add: list_all_iff)
  then show ?thesis
    by (auto simp: is_digit_def to_digit_def visible_def Let_def split: option.splits if_split_asm)
qed

lemma parse_port_show: "parse_port (show_nat (unat p)) = Inr p"
proof -
  have "unat p < 2 ^ 16" using unsigned_less [of p, where ?'a = nat] by simp
  then show ?thesis by (simp add: parse_port_def parse_u16_show_nat)
qed

lemma colons_show_nat: "colons (show_nat n) = 0"
  by (simp add: count_list_0_iff show_nat_not_in)

lemma read_port_show: "read_port (CHR '':'' # show_nat (unat p)) = Some (unat p, [])" for p :: u16
proof -
  have "unat p < 2 ^ 16" using unsigned_less [of p, where ?'a = nat] by simp
  moreover have "takeWhile (is_digit 10) (show_nat (unat p)) = show_nat (unat p)"
    using show_radix_digits [of 10 "unat p"] takeWhile_eq_all_conv [of "is_digit 10" "show_nat (unat p)"]
    by (simp add: list_all_iff)
  ultimately show ?thesis
    by (simp add: read_port_def read_given_char_def read_number_def digits_value_show_radix Let_def
        del: takeWhile_eq_all_conv)
qed

lemma parse_show_socket_v4: "parse_socket_addr (show_ipv4 a @ '':'' @ show_nat (unat p)) = Some (SocketV4 a p)"
  by (simp add: parse_socket_addr_def read_ipv4_show stops_def read_port_show)



section \<open>Control URLs\<close>

lemma distinct_remdups_adj: "sorted xs \<Longrightarrow> distinct (remdups_adj xs)"
  by (induction xs rule: remdups_adj.induct) (auto simp: order.antisym)

lemma sort_dedup_props: "sorted (sort_dedup xs)" "distinct (sort_dedup xs)" "set (sort_dedup xs) = set xs"
  by (simp_all add: sort_dedup_def sorted_remdups_adj distinct_remdups_adj)

definition url_candidates :: "string list \<Rightarrow> string list" where
  "url_candidates values =
     filter (\<lambda>u. u \<noteq> []) (map (\<lambda>c. trim_end_matches CHR ''/'' (trim c)) (concat (map (split_on CHR '','') values)))"

definition http_url :: "string \<Rightarrow> bool" where
  "http_url u \<longleftrightarrow> starts_with u ''http://'' \<or> starts_with u ''https://''"

lemma collect_control_urls_spec:
  "case collect_control_urls cs of
     Inl e \<Rightarrow> \<exists>u\<in>set (filter (\<lambda>u. u \<noteq> []) (map (\<lambda>c. trim_end_matches CHR ''/'' (trim c)) cs)). \<not> http_url u
   | Inr urls \<Rightarrow> urls = filter (\<lambda>u. u \<noteq> []) (map (\<lambda>c. trim_end_matches CHR ''/'' (trim c)) cs) \<and>
       (\<forall>u\<in>set urls. http_url u)"
proof (induction cs)
  case (Cons c cs)
  then show ?case
    by (cases "collect_control_urls cs") (auto simp: Let_def http_url_def)
qed simp

text \<open>
  The control URLs of the server are the trimmed parts of the arguments, sorted and without
  repetition, all of them HTTP URLs without a slash at the end; one part that is no such
  URL makes the start fail.
\<close>

theorem control_urls_spec:
  "case normalize_control_urls values of
     Inl e \<Rightarrow> \<not> list_all http_url (url_candidates values)
   | Inr urls \<Rightarrow> list_all http_url (url_candidates values) \<and> sorted urls \<and> distinct urls \<and>
       set urls = set (url_candidates values) \<and> list_all (\<lambda>u. last u \<noteq> CHR ''/'') urls"
proof -
  have slash: "last (trim_end_matches CHR ''/'' s) \<noteq> CHR ''/''" if "trim_end_matches CHR ''/'' s \<noteq> []" for s
    using that hd_dropWhile [of "\<lambda>x. x = CHR ''/''" "rev s"]
    by (auto simp: trim_end_matches_def last_rev)
  then have "list_all (\<lambda>u. last u \<noteq> CHR ''/'') (url_candidates values)"
    by (auto simp: url_candidates_def list_all_iff)
  then show ?thesis
    using collect_control_urls_spec [of "concat (map (split_on CHR '','') values)"]
    by (auto simp: normalize_control_urls_def url_candidates_def list_all_iff sort_dedup_props split: sum.splits)
qed

section \<open>Start\<close>

lemma parse_mesh_peers_nonempty:
  "parse_mesh_peers vs = Inr peers \<Longrightarrow>
     length peers = length vs \<and> list_all (\<lambda>p. mp_id p \<noteq> [] \<and> mp_addr p \<noteq> []) peers"
  by (induction vs arbitrary: peers) (auto simp: Let_def split: if_split_asm sum.splits prod.splits)

lemma build_mesh_config_ok:
  assumes "build_mesh_config args = Inr (Some c)"
  shows "mc_max_hops c \<noteq> 0 \<and> mc_peers c \<noteq> [] \<and> parse_mesh_peers (a_mesh_peer args) = Inr (mc_peers c) \<and>
    a_mesh_server_id args = Some (mc_server_id c)"
  using assms by (auto simp: build_mesh_config_def Let_def split: if_split_asm option.splits sum.splits)

lemma startupE:
  assumes "startup read_file load args = Inr (store, app, mesh)"
  obtains choice peers where "resolve_store read_file args = Inr choice" "load choice = Inr store"
    "build_mesh_config args = Inr mesh" "normalize_control_urls (a_control_url args) = Inr (app_control_urls app)"
    "resolve_dns_servers (a_dns_server args) (a_dns_listen args) (app_control_urls app) = Inr (rc_dns_servers (app_relay app))"
    "parse_mesh_peers (a_mesh_peer args) = Inr peers" "app_admin_token app = a_admin_token args"
    "app_mesh_server_id app = a_mesh_server_id args"
    "app_mesh_peers app = map (\<lambda>peer. \<lparr>mpm_id = mp_id peer, mpm_addr = mp_addr peer\<rparr>) peers"
  using assms that by (auto simp: startup_def split: sum.split_asm)

text \<open>What the checks of the start leave: a token, one store, and a mesh configuration that is complete.\<close>

lemma startup_checked:
  assumes "startup read_file load args = Inr (store, app, mesh)"
  shows "(\<exists>token. app_admin_token app = Some token \<and> a_admin_token args = Some token) \<and>
    (a_db_url args = None \<or> a_db_url_file args = None) \<and>
    (case mesh of
       None \<Rightarrow> app_mesh_peers app = []
     | Some c \<Rightarrow> app_mesh_peers app = map (\<lambda>p. \<lparr>mpm_id = mp_id p, mpm_addr = mp_addr p\<rparr>) (mc_peers c) \<and>
         app_mesh_peers app \<noteq> [] \<and> list_all (\<lambda>p. mpm_id p \<noteq> [] \<and> mpm_addr p \<noteq> []) (app_mesh_peers app) \<and>
         (trim (mc_server_id c) = [] \<or> (\<exists>cx. start_context (mc_server_id c) (mc_max_hops c) (mc_peers c) = Inr cx)))"
  using assms
proof (rule startupE)
  fix choice peers
  assume store: "resolve_store read_file args = Inr choice" and mesh: "build_mesh_config args = Inr mesh"
    and peers: "parse_mesh_peers (a_mesh_peer args) = Inr peers"
    and app: "app_admin_token app = a_admin_token args"
      "app_mesh_peers app = map (\<lambda>peer. \<lparr>mpm_id = mp_id peer, mpm_addr = mp_addr peer\<rparr>) peers"
  have "a_admin_token args \<noteq> None" "a_db_url args = None \<or> a_db_url_file args = None"
    using store by (auto simp: resolve_store_def split: if_split_asm)
  moreover have "mesh = None \<Longrightarrow> peers = []"
    using mesh peers by (auto simp: build_mesh_config_def Let_def split: if_split_asm option.splits sum.splits)
  moreover have "case mesh of None \<Rightarrow> True | Some c \<Rightarrow> mc_max_hops c \<noteq> 0 \<and> mc_peers c \<noteq> [] \<and> mc_peers c = peers"
    using build_mesh_config_ok mesh peers by (auto split: option.split)
  moreover have "list_all (\<lambda>p. mpm_id p \<noteq> [] \<and> mpm_addr p \<noteq> []) (app_mesh_peers app)"
    using parse_mesh_peers_nonempty [OF peers] by (simp add: app list.pred_map comp_def)
  ultimately show ?thesis
    by (cases mesh) (auto simp: app start_context_def)
qed

definition ex_args :: Args where
  "ex_args = \<lparr>a_listen = ''0.0.0.0:8080'', a_state = ''state.json'', a_db_url = None, a_db_url_file = None,
     a_admin_token = Some ''root'', a_stun = [], a_turn = [], a_stream_relay = [], a_udp_relay = [],
     a_dns_server = [], a_udp_relay_listen = None, a_stream_relay_listen = None, a_dns_listen = None,
     a_mesh_server_id = Some ''a'', a_mesh_listen = Some ''1.2.3.4:9'', a_mesh_peer = [''b=h:1''],
     a_mesh_ca_cert = Some ''ca'', a_mesh_cert = Some ''crt'', a_mesh_key = Some ''key'',
     a_mesh_max_hops = 4, a_control_url = [''http://h/'']\<rparr>"

definition ex_mesh_config :: MeshConfig where
  "ex_mesh_config = \<lparr>mc_server_id = ''a'', mc_listen = SocketV4 0x01020304 9,
     mc_peers = [\<lparr>mp_id = ''b'', mp_addr = ''h:1''\<rparr>], mc_ca_cert_path = ''ca'', mc_cert_path = ''crt'',
     mc_key_path = ''key'', mc_max_hops = 4\<rparr>"

lemma ex_peer: "parse_mesh_peers [''b=h:1''] = Inr [\<lparr>mp_id = ''b'', mp_addr = ''h:1''\<rparr>]"
  by (simp add: split_once_def trim_visible visible_def)

lemma ex_listen: "parse_socket_addr ''1.2.3.4:9'' = Some (SocketV4 0x01020304 9)"
proof -
  have "show_ipv4 0x01020304 = ''1.2.3.4''" "show_nat (unat (9 :: u16)) = ''9''"
    by (simp_all add: show_ipv4_def ipv4_octets_def show_radix.simps [where b = 10] digit_char_def char_of_eq_iff take_bit_eq_mod)
  then show ?thesis using parse_show_socket_v4 [of "0x01020304" 9] by simp
qed

lemma ex_startup:
  assumes "load (UseFile ''state.json'') = Inr store"
  shows "\<exists>app. startup (\<lambda>_. None) load ex_args = Inr (store, app, Some ex_mesh_config)"
proof -
  have mesh: "build_mesh_config ex_args = Inr (Some ex_mesh_config)"
    by (simp add: build_mesh_config_def ex_args_def ex_listen ex_peer ex_mesh_config_def Let_def del: parse_mesh_peers.simps)
  have "\<exists>urls. normalize_control_urls (a_control_url ex_args) = Inr urls"
    by (simp add: normalize_control_urls_def ex_args_def trim_visible visible_def trim_end_matches_def starts_with_def Let_def)
  with mesh assms show ?thesis
    by (auto simp: startup_def resolve_store_def ex_args_def resolve_dns_servers_def ex_peer simp del: parse_mesh_peers.simps)
qed

end
