(* ===== verification/Process.thy ===== *)
theory Process
  imports Relay_Mesh Config_Spec Reachable
begin

text \<open>
  The server process as a whole: the rest of \<open>main\<close>, which starts the mesh, opens the
  listeners and connects the tasks by channels, and the steps of all these tasks, interleaved
  freely. The name server and the long poll only read the store and are left out of the steps.
\<close>

section \<open>Starting the tasks\<close>

text \<open>The sockets the process binds; whether the system lets it is a parameter.\<close>

datatype listener = HttpListener | MeshListener | UdpListener | StreamListener

text \<open>
  \<open>mesh::start\<close>: its checks, the two TLS configurations, and the listening socket, before the
  listener, a task for each peer and the one for packets of the relays are started.
\<close>

definition mesh_start ::
  "('cert, 'key) pem \<Rightarrow> ('cert \<Rightarrow> bool) \<Rightarrow> (listener \<Rightarrow> SocketAddr \<Rightarrow> bool) \<Rightarrow> MeshConfig \<Rightarrow> string + mesh_server"
where
  "mesh_start P trusts bind_ok config =
     (case start_context (mc_server_id config) (mc_max_hops config) (mc_peers config) of Inl e \<Rightarrow> Inl e | Inr context \<Rightarrow>
     (case build_server_tls_config P trusts (mc_ca_cert_path config) (mc_cert_path config) (mc_key_path config) of
        Inl e \<Rightarrow> Inl e
      | Inr server_tls \<Rightarrow>
     (case build_client_tls_config P trusts (mc_ca_cert_path config) (mc_cert_path config) (mc_key_path config) of
        Inl e \<Rightarrow> Inl e
      | Inr client_tls \<Rightarrow>
          if \<not> bind_ok MeshListener (mc_listen config) then Inl (''mesh bind failed: '' @ show_socket (mc_listen config))
          else Inr \<lparr>ms_context = context, ms_next_conn_id = 1, ms_conns = hm_empty\<rparr>)))"

text \<open>
  What \<open>main\<close> gives a relay: its address, and whether it has the sending end of the channel to
  the mesh and the receiving end of its channel from the dispatcher.
\<close>

record relay_task =
  rt_listen :: SocketAddr
  rt_mesh_tx :: bool
  rt_mesh_rx :: bool

record wiring =
  wi_http :: SocketAddr
  wi_mesh :: "mesh_server option"
  wi_dispatcher :: bool
  wi_udp :: "relay_task option"
  wi_stream :: "relay_task option"
  wi_dns :: "SocketAddr option"

definition parse_listen :: "string \<Rightarrow> string + SocketAddr" where
  "parse_listen listen =
     (case parse_socket_addr listen of None \<Rightarrow> Inl ''invalid socket address syntax'' | Some addr \<Rightarrow> Inr addr)"

definition listen_on :: "string option \<Rightarrow> string + SocketAddr option" where
  "listen_on listen = (case listen of None \<Rightarrow> Inr None | Some l \<Rightarrow> map_sum id Some (parse_listen l))"

definition wire ::
  "(MeshConfig \<Rightarrow> string + mesh_server) \<Rightarrow> (listener \<Rightarrow> SocketAddr \<Rightarrow> bool) \<Rightarrow> Args \<Rightarrow> MeshConfig option \<Rightarrow> string + wiring"
where
  "wire start bind_ok args mesh_config =
     (case (case mesh_config of None \<Rightarrow> Inr None | Some config \<Rightarrow> map_sum id Some (start config)) of
        Inl e \<Rightarrow> Inl e
      | Inr mesh \<Rightarrow>
     (let relay_to_mesh_tx = (mesh \<noteq> None);
          mesh_dispatch_rx = (mesh \<noteq> None);
          udp_mesh_rx = mesh_dispatch_rx;
          stream_mesh_rx = mesh_dispatch_rx
      in case parse_listen (a_listen args) of Inl e \<Rightarrow> Inl e | Inr addr \<Rightarrow>
         if \<not> bind_ok HttpListener addr then Inl ''address in use''
         else (case listen_on (a_udp_relay_listen args) of Inl e \<Rightarrow> Inl e | Inr udp_addr \<Rightarrow>
              (case listen_on (a_stream_relay_listen args) of Inl e \<Rightarrow> Inl e | Inr stream_addr \<Rightarrow>
              (case listen_on (a_dns_listen args) of Inl e \<Rightarrow> Inl e | Inr dns_addr \<Rightarrow>
                 Inr \<lparr>wi_http = addr, wi_mesh = mesh, wi_dispatcher = mesh_dispatch_rx,
                      wi_udp = map_option (\<lambda>a. \<lparr>rt_listen = a, rt_mesh_tx = relay_to_mesh_tx, rt_mesh_rx = udp_mesh_rx\<rparr>) udp_addr,
                      wi_stream = map_option (\<lambda>a. \<lparr>rt_listen = a, rt_mesh_tx = relay_to_mesh_tx, rt_mesh_rx = stream_mesh_rx\<rparr>) stream_addr,
                      wi_dns = dns_addr\<rparr>)))))"

text \<open>
  The process: the store with the snapshots on their way to the disk, the relays, \<open>None\<close> when they
  are not enabled or could not be bound, with whether their socket is still served, the mesh,
  and the channel from the relays to the mesh. When the loop over the socket has ended, the
  other tasks of a relay go on.
\<close>

record ('addr, 'c) process =
  pr_app :: AppState
  pr_wiring :: wiring
  pr_store :: "'c StoreBackend"
  pr_inflight :: "State multiset"
  pr_udp :: "'addr udp_peers option"
  pr_udp_served :: bool
  pr_stream :: "stream_state option"
  pr_stream_served :: bool
  pr_mesh :: "mesh_server option"
  pr_to_mesh :: "MeshOutgoingPacket list"

text \<open>
  \<open>main\<close> from the arguments to the running tasks. A relay whose socket cannot be bound has
  ended at once, with an error in the log; the server goes on.
\<close>

definition udp_run_with_mesh :: "(SocketAddr \<Rightarrow> bool) \<Rightarrow> SocketAddr \<Rightarrow> string + 'addr udp_peers" where
  "udp_run_with_mesh bind_ok listen = (if \<not> bind_ok listen then Inl ''udp relay bind failed'' else Inr hm_empty)"

definition stream_run_with_mesh :: "(SocketAddr \<Rightarrow> bool) \<Rightarrow> SocketAddr \<Rightarrow> string + stream_state" where
  "stream_run_with_mesh bind_ok listen =
     (if \<not> bind_ok listen then Inl ''stream relay bind failed''
      else Inr \<lparr>ss_peers = hm_empty, ss_next_conn_id = 1, ss_conns = hm_empty\<rparr>)"

definition relay_runs :: "(SocketAddr \<Rightarrow> string + 'state) \<Rightarrow> relay_task option \<Rightarrow> 'state option" where
  "relay_runs run_with_mesh task =
     (case task of
        None \<Rightarrow> None
      | Some t \<Rightarrow> (case run_with_mesh (rt_listen t) of Inl _ \<Rightarrow> None | Inr state \<Rightarrow> Some state))"

definition main_start ::
  "(string \<Rightarrow> string option) \<Rightarrow> (store_choice \<Rightarrow> string + 'c StoreBackend) \<Rightarrow> (MeshConfig \<Rightarrow> string + mesh_server)
   \<Rightarrow> (listener \<Rightarrow> SocketAddr \<Rightarrow> bool) \<Rightarrow> Args \<Rightarrow> string + ('addr, 'c) process"
where
  "main_start read_file load start bind_ok args =
     (case startup read_file load args of Inl e \<Rightarrow> Inl e | Inr (store, app, mesh_config) \<Rightarrow>
     (case wire start bind_ok args mesh_config of Inl e \<Rightarrow> Inl e | Inr w \<Rightarrow>
        Inr \<lparr>pr_app = app, pr_wiring = w, pr_store = store, pr_inflight = {#},
             pr_udp = relay_runs (udp_run_with_mesh (bind_ok UdpListener)) (wi_udp w), pr_udp_served = True,
             pr_stream = relay_runs (stream_run_with_mesh (bind_ok StreamListener)) (wi_stream w), pr_stream_served = True,
             pr_mesh = wi_mesh w, pr_to_mesh = []\<rparr>))"

section \<open>The steps of the tasks\<close>

text \<open>What leaves the process: a datagram, a frame for a connection of the stream relay, a frame for a mesh peer.\<close>

datatype 'addr emission =
    ToUdp bytes 'addr
  | ToStream u64 bytes
  | ToPeer string u64 MeshFrame

text \<open>
  The packets a step accepts, as sender, target and payload: those of a datagram that parses,
  those a connection of the stream relay sends under the id it registered, and those of a mesh peer.
\<close>

type_synonym packet = "string \<times> string \<times> bytes"

definition udp_received :: "bytes \<Rightarrow> packet list" where
  "udp_received datagram =
     (case udp_parse_packet (take UDP_BUFFER datagram) of
        Some (Send from_id to_id payload) \<Rightarrow> [(from_id, to_id, payload)]
      | _ \<Rightarrow> [])"

definition stream_received :: "stream_state \<Rightarrow> u64 \<Rightarrow> string + bytes \<Rightarrow> packet list" where
  "stream_received s c read =
     (case (hm_get (ss_conns s) c, read) of
        (Some (Some node_id), Inr frame) \<Rightarrow>
          (case stream_parse_packet frame of
             Some (Send from_id to_id payload) \<Rightarrow> if from_id = node_id then [(from_id, to_id, payload)] else []
           | _ \<Rightarrow> [])
      | _ \<Rightarrow> [])"

definition mesh_packet :: "MeshIncomingPacket \<Rightarrow> packet" where
  "mesh_packet packet = (mi_from_id packet, mi_to_id packet, mi_payload packet)"

text \<open>The far ends of the dispatcher's channels.\<close>

definition relay_side :: "relay_task option \<Rightarrow> 'env \<Rightarrow> 'peers option \<Rightarrow> ('env \<times> 'peers) relay_side" where
  "relay_side task V peers =
     (case task of
        None \<Rightarrow> NotRead
      | Some _ \<Rightarrow> (case peers of None \<Rightarrow> Closed | Some ps \<Rightarrow> Reading (V, ps)))"

definition dispatched ::
  "('addr udp_env \<times> 'addr udp_peers) relay_side \<Rightarrow> (stream_env \<times> stream_peers) relay_side
   \<Rightarrow> MeshIncomingPacket \<Rightarrow> 'addr emission list"
where
  "dispatched udp stream packet =
     (case mesh_dispatch udp stream packet of
        (_, sent, queued) \<Rightarrow> map (\<lambda>(b, a). ToUdp b a) sent @ map (\<lambda>(c, b). ToStream c b) queued)"

text \<open>The peers the mesh dials are those of the topology.\<close>

definition mesh_peers :: "AppState \<Rightarrow> MeshPeer list" where
  "mesh_peers app = map (\<lambda>m. \<lparr>mp_id = mpm_id m, mp_addr = mpm_addr m\<rparr>) (app_mesh_peers app)"

text \<open>
  A step of one of the tasks. The hello a connection of the mesh begins with and the answers of the
  other components to their clients are left out of what is emitted.
\<close>

inductive process_step ::
  "'c serde \<Rightarrow> ('n4, 'n6) externals \<Rightarrow> (string \<Rightarrow> MeshFrame option) \<Rightarrow> base64
   \<Rightarrow> ('addr, 'c) process \<Rightarrow> packet list \<Rightarrow> 'addr emission list \<Rightarrow> ('addr, 'c) process \<Rightarrow> bool"
  for S :: "'c serde" and X :: "('n4, 'n6) externals" and from_str B
where
  at_store: "store_step S X (pr_store p) (pr_inflight p) s' P' \<Longrightarrow>
    process_step S X from_str B p [] [] (p\<lparr>pr_store := s', pr_inflight := P'\<rparr>)"
| udp_in: "pr_udp_served p \<Longrightarrow> pr_udp p = Some peers \<Longrightarrow> wi_udp (pr_wiring p) = Some t \<Longrightarrow> ue_mesh V = rt_mesh_tx t \<Longrightarrow>
    udp_datagram V buf addr peers = (res, peers', sent, out) \<Longrightarrow>
    process_step S X from_str B p (udp_received buf) (map (\<lambda>(b, a). ToUdp b a) sent)
      (p\<lparr>pr_udp := Some peers', pr_udp_served := (res = Inr ()), pr_to_mesh := pr_to_mesh p @ out\<rparr>)"
| udp_failed: "process_step S X from_str B p [] [] (p\<lparr>pr_udp_served := False\<rparr>)"
| udp_clean: "pr_udp p = Some peers \<Longrightarrow>
    process_step S X from_str B p [] [] (p\<lparr>pr_udp := Some (cleanup_turn now peers)\<rparr>)"
| stream_in: "pr_stream_served p \<Longrightarrow> pr_stream p = Some s \<Longrightarrow> unat (ss_next_conn_id s) + 1 < 2 ^ 64 \<Longrightarrow>
    process_step S X from_str B p [] [] (p\<lparr>pr_stream := Some (accept_connection s)\<rparr>)"
| stream_failed: "process_step S X from_str B p [] [] (p\<lparr>pr_stream_served := False\<rparr>)"
| stream_frame: "pr_stream p = Some s \<Longrightarrow> wi_stream (pr_wiring p) = Some t \<Longrightarrow> se_mesh V = rt_mesh_tx t \<Longrightarrow>
    handle_connection V c read s = (s', queued, out) \<Longrightarrow>
    process_step S X from_str B p (stream_received s c read) (map (\<lambda>(c, b). ToStream c b) queued)
      (p\<lparr>pr_stream := Some s', pr_to_mesh := pr_to_mesh p @ out\<rparr>)"
| peer_accepted: "pr_mesh p = Some m \<Longrightarrow> inbound_connection to_vec from_str tls_ok written hello m = (r, m', sent) \<Longrightarrow>
    process_step S X from_str B p [] [] (p\<lparr>pr_mesh := Some m'\<rparr>)"
| peer_dialled: "pr_mesh p = Some m \<Longrightarrow> peer \<in> set (mesh_peers (pr_app p)) \<Longrightarrow>
    outbound_connection to_vec from_str is_server_name dial peer m = (r, m', sent) \<Longrightarrow>
    process_step S X from_str B p [] [] (p\<lparr>pr_mesh := Some m'\<rparr>)"
| peer_frame: "pr_mesh p = Some m \<Longrightarrow>
    udp = relay_side (wi_udp (pr_wiring p)) V (pr_udp p) \<Longrightarrow>
    stream = relay_side (wi_stream (pr_wiring p)) W (map_option ss_peers (pr_stream p)) \<Longrightarrow>
    ask_local M = (\<lambda>packet. fst (mesh_dispatch udp stream packet)) \<Longrightarrow>
    connection_turn from_str B M c read m = (m', sends, packets) \<Longrightarrow>
    process_step S X from_str B p (map mesh_packet packets)
      (concat (map (dispatched udp stream) packets) @ map (\<lambda>(q, k, f). ToPeer q k f) sends)
      (p\<lparr>pr_mesh := Some m'\<rparr>)"
| to_mesh: "pr_mesh p = Some m \<Longrightarrow> pr_to_mesh p = packet # rest \<Longrightarrow>
    from_local B M message_id packet (ms_context m) = (cx, sends) \<Longrightarrow>
    process_step S X from_str B p [] (map (\<lambda>(q, k, f). ToPeer q k f) sends)
      (p\<lparr>pr_mesh := Some (m\<lparr>ms_context := cx\<rparr>), pr_to_mesh := rest\<rparr>)"

text \<open>
  The states of a process that was started by \<open>main\<close> on a store that is new or was left by an
  earlier run, with the packets it has received and what it has emitted so far. Certificates
  and keys are the bytes of their DER encoding.
\<close>

inductive process_run ::
  "'c serde \<Rightarrow> ('n4, 'n6) externals \<Rightarrow> (string \<Rightarrow> MeshFrame option) \<Rightarrow> base64
   \<Rightarrow> ('addr, 'c) process \<Rightarrow> packet list \<Rightarrow> 'addr emission list \<Rightarrow> bool"
  for S :: "'c serde" and X :: "('n4, 'n6) externals" and from_str B
where
  started: "main_start read_file load (mesh_start (P :: (bytes, bytes) pem) trusts bind_ok) bind_ok args = Inr p \<Longrightarrow>
    reachable S X (pr_store p) {#} \<Longrightarrow> process_run S X from_str B p [] []"
| went_on: "process_run S X from_str B p H E \<Longrightarrow> process_step S X from_str B p received emitted p' \<Longrightarrow>
    process_run S X from_str B p' (H @ received) (E @ emitted)"

section \<open>The components of the process\<close>

lemma mesh_peers_ids: "mp_id ` set (mesh_peers app) = mpm_id ` set (app_mesh_peers app)"
  by (simp add: mesh_peers_def image_image)

definition components_ok ::
  "'c serde \<Rightarrow> ('n4, 'n6) externals \<Rightarrow> (string \<Rightarrow> MeshFrame option) \<Rightarrow> base64 \<Rightarrow> ('addr, 'c) process \<Rightarrow> bool"
where
  "components_ok S X from_str B p \<longleftrightarrow>
     reachable S X (pr_store p) (pr_inflight p) \<and>
     (\<forall>peers. pr_udp p = Some peers \<longrightarrow> (\<exists>h. peers = udp_run h)) \<and>
     (\<forall>s. pr_stream p = Some s \<longrightarrow> (\<exists>n. stream_reachable n s)) \<and>
     (\<forall>m. pr_mesh p = Some m \<longrightarrow> mesh_reachable from_str B (mesh_peers (pr_app p)) m)"

lemma wire_mesh:
  assumes "wire start bind_ok args mesh_config = Inr w" and "wi_mesh w = Some m"
  obtains c where "mesh_config = Some c" "start c = Inr m"
proof (cases "case mesh_config of None \<Rightarrow> Inr None | Some config \<Rightarrow> map_sum id Some (start config)")
  case (Inr mesh)
  then have "wi_mesh w = mesh"
    using assms(1) by (auto simp: wire_def Let_def split: sum.split_asm if_split_asm)
  with Inr assms(2) that show thesis
    by (cases mesh_config; cases "start (the mesh_config)") auto
qed (use assms(1) in \<open>simp add: wire_def\<close>)

lemma wire_mesh_iff:
  assumes "wire start bind_ok args mesh_config = Inr w"
  shows "wi_mesh w = None \<longleftrightarrow> mesh_config = None"
proof (cases mesh_config)
  case None
  with assms show ?thesis
    by (auto simp: wire_def Let_def split: sum.split_asm if_split_asm)
next
  case (Some c)
  with assms show ?thesis
    by (cases "start c") (auto simp: wire_def Let_def split: sum.split_asm if_split_asm)
qed

lemma listen_on_cases:
  "listen_on listen = Inr a \<longleftrightarrow>
     (case listen of None \<Rightarrow> a = None | Some l \<Rightarrow> \<exists>addr. parse_socket_addr l = Some addr \<and> a = Some addr)"
  by (auto simp: listen_on_def parse_listen_def split: option.splits)

lemma wire_tasks:
  assumes "wire start bind_ok args mesh_config = Inr w"
  shows "wi_dispatcher w = (wi_mesh w \<noteq> None)"
    "case a_udp_relay_listen args of None \<Rightarrow> wi_udp w = None
     | Some l \<Rightarrow> \<exists>a. parse_socket_addr l = Some a \<and>
         wi_udp w = Some \<lparr>rt_listen = a, rt_mesh_tx = (wi_mesh w \<noteq> None), rt_mesh_rx = (wi_mesh w \<noteq> None)\<rparr>"
    "case a_stream_relay_listen args of None \<Rightarrow> wi_stream w = None
     | Some l \<Rightarrow> \<exists>a. parse_socket_addr l = Some a \<and>
         wi_stream w = Some \<lparr>rt_listen = a, rt_mesh_tx = (wi_mesh w \<noteq> None), rt_mesh_rx = (wi_mesh w \<noteq> None)\<rparr>"
proof -
  obtain mesh addr udp_addr stream_addr dns_addr where
    "listen_on (a_udp_relay_listen args) = Inr udp_addr" "listen_on (a_stream_relay_listen args) = Inr stream_addr"
    and w: "w = \<lparr>wi_http = addr, wi_mesh = mesh, wi_dispatcher = (mesh \<noteq> None),
      wi_udp = map_option (\<lambda>a. \<lparr>rt_listen = a, rt_mesh_tx = (mesh \<noteq> None), rt_mesh_rx = (mesh \<noteq> None)\<rparr>) udp_addr,
      wi_stream = map_option (\<lambda>a. \<lparr>rt_listen = a, rt_mesh_tx = (mesh \<noteq> None), rt_mesh_rx = (mesh \<noteq> None)\<rparr>) stream_addr,
      wi_dns = dns_addr\<rparr>"
    using assms by (auto simp: wire_def Let_def split: sum.split_asm if_split_asm)
  then show "wi_dispatcher w = (wi_mesh w \<noteq> None)"
    "case a_udp_relay_listen args of None \<Rightarrow> wi_udp w = None
     | Some l \<Rightarrow> \<exists>a. parse_socket_addr l = Some a \<and>
         wi_udp w = Some \<lparr>rt_listen = a, rt_mesh_tx = (wi_mesh w \<noteq> None), rt_mesh_rx = (wi_mesh w \<noteq> None)\<rparr>"
    "case a_stream_relay_listen args of None \<Rightarrow> wi_stream w = None
     | Some l \<Rightarrow> \<exists>a. parse_socket_addr l = Some a \<and>
         wi_stream w = Some \<lparr>rt_listen = a, rt_mesh_tx = (wi_mesh w \<noteq> None), rt_mesh_rx = (wi_mesh w \<noteq> None)\<rparr>"
    by (auto simp: listen_on_cases split: option.splits)
qed

lemma mesh_start_context:
  assumes "mesh_start P trusts bind_ok c = Inr m"
  shows "cx_allowed_peers (ms_context m) = mp_id ` set (mc_peers c) \<and> cx_max_hops (ms_context m) \<noteq> 0"
proof (cases "start_context (mc_server_id c) (mc_max_hops c) (mc_peers c)")
  case (Inr cx)
  with assms have "ms_context m = cx" by (auto simp: mesh_start_def split: sum.split_asm if_split_asm)
  moreover have "cx_allowed_peers cx = mp_id ` set (mc_peers c) \<and> cx_max_hops cx \<noteq> 0"
    using Inr by (auto simp: start_context_def split: if_split_asm)
  ultimately show ?thesis by simp
qed (use assms in \<open>simp add: mesh_start_def\<close>)

lemma mesh_start_reachable:
  assumes "mesh_start P trusts bind_ok c = Inr m"
  shows "mesh_reachable from_str B (mc_peers c) m"
proof (cases "start_context (mc_server_id c) (mc_max_hops c) (mc_peers c)")
  case (Inr cx)
  with assms have "m = \<lparr>ms_context = cx, ms_next_conn_id = 1, ms_conns = hm_empty\<rparr>"
    by (auto simp: mesh_start_def split: sum.split_asm if_split_asm)
  with Inr show ?thesis by (simp add: mesh_reachable.mesh_start)
qed (use assms in \<open>simp add: mesh_start_def\<close>)

lemma main_startE:
  assumes "main_start read_file load start bind_ok args = Inr p"
  obtains mesh_config where "startup read_file load args = Inr (pr_store p, pr_app p, mesh_config)"
    "wire start bind_ok args mesh_config = Inr (pr_wiring p)" "pr_mesh p = wi_mesh (pr_wiring p)"
    "pr_inflight p = {#}" "pr_to_mesh p = []" "pr_udp p = relay_runs (udp_run_with_mesh (bind_ok UdpListener)) (wi_udp (pr_wiring p))"
    "pr_stream p = relay_runs (stream_run_with_mesh (bind_ok StreamListener)) (wi_stream (pr_wiring p))"
proof (cases "startup read_file load args")
  case (Inr x)
  obtain store app mesh_config where x: "x = (store, app, mesh_config)" by (cases x)
  obtain w where w: "wire start bind_ok args mesh_config = Inr w"
    using assms Inr x by (cases "wire start bind_ok args mesh_config") (simp_all add: main_start_def)
  show thesis
    by (rule that [of mesh_config]) (use assms Inr x w in \<open>auto simp: main_start_def\<close>)
qed (use assms in \<open>simp add: main_start_def\<close>)

lemma mesh_peers_topology:
  assumes "startup read_file load args = Inr (store, app, Some c)"
  shows "mesh_peers app = mc_peers c"
proof -
  have "map (\<lambda>x. \<lparr>mp_id = mp_id x, mp_addr = mp_addr x\<rparr>) ps = ps" for ps :: "MeshPeer list"
    by (rule map_idI) simp
  then show ?thesis using startup_checked [OF assms] by (simp add: mesh_peers_def comp_def)
qed

lemma components_started:
  assumes "main_start read_file load (mesh_start P trusts bind_ok) bind_ok args = Inr p"
    and "reachable S X (pr_store p) {#}"
  shows "components_ok S X from_str B p"
  using assms(1)
proof (rule main_startE)
  fix mesh_config
  assume s: "startup read_file load args = Inr (pr_store p, pr_app p, mesh_config)"
    and w: "wire (mesh_start P trusts bind_ok) bind_ok args mesh_config = Inr (pr_wiring p)"
    and p: "pr_mesh p = wi_mesh (pr_wiring p)" "pr_inflight p = {#}"
      "pr_udp p = relay_runs (udp_run_with_mesh (bind_ok UdpListener)) (wi_udp (pr_wiring p))"
      "pr_stream p = relay_runs (stream_run_with_mesh (bind_ok StreamListener)) (wi_stream (pr_wiring p))"
  have "mesh_reachable from_str B (mesh_peers (pr_app p)) m" if "pr_mesh p = Some m" for m
  proof (rule wire_mesh [OF w])
    fix c
    assume "mesh_config = Some c" and "mesh_start P trusts bind_ok c = Inr m"
    then show ?thesis
      using mesh_start_reachable [of P trusts bind_ok c m] mesh_peers_topology s by metis
  qed (use p(1) that in simp)
  moreover have "hm_empty = udp_run ([] :: ('a udp_env \<times> 'a udp_event) list)"
    by (simp add: udp_run_def)
  ultimately show ?thesis
    using assms(2) p stream_reachable.stream_start
    by (auto simp: components_ok_def relay_runs_def udp_run_with_mesh_def stream_run_with_mesh_def
        split: option.splits if_split_asm intro: exI)
qed

lemma components_step:
  assumes "process_step S X from_str B p received emitted p'" and "components_ok S X from_str B p"
  shows "components_ok S X from_str B p'"
  using assms(1)
proof cases
  case (at_store s' P')
  then show ?thesis
    using assms(2) reachable.further by (auto simp: components_ok_def)
next
  case (udp_in peers t V buf addr res peers' sent out)
  then obtain h where "peers = udp_run h" using assms(2) by (auto simp: components_ok_def)
  with udp_in have "peers' = udp_run (h @ [(V, Datagram buf addr)])"
    by (simp add: udp_run_snoc udp_step_def)
  with udp_in show ?thesis using assms(2) by (auto simp: components_ok_def)
next
  case (udp_clean peers now)
  then obtain h where "peers = udp_run h" using assms(2) by (auto simp: components_ok_def)
  then have "cleanup_turn now peers = udp_run (h @ [(\<lparr>ue_now = now, ue_send_ok = \<lambda>_ _. True, ue_mesh = True\<rparr>, Cleanup)])"
    by (simp add: udp_run_snoc udp_step_def)
  with udp_clean show ?thesis using assms(2) by (auto simp: components_ok_def)
next
  case (stream_in s)
  then obtain n where n: "stream_reachable n s" using assms(2) by (auto simp: components_ok_def)
  then have "unat (ss_next_conn_id s) = Suc n" using stream_reachable_ok by (simp add: stream_ok_def)
  then have "stream_reachable (Suc n) (accept_connection s)"
    using n stream_in by (intro stream_reachable.stream_accept) simp_all
  with stream_in show ?thesis using assms(2) by (auto simp: components_ok_def)
next
  case (stream_frame s t V c read s' queued out)
  then obtain n where "stream_reachable n s" using assms(2) by (auto simp: components_ok_def)
  then have "stream_reachable n s'" by (rule stream_reachable.stream_turn) (rule stream_frame)
  with stream_frame show ?thesis using assms(2) by (auto simp: components_ok_def)
next
  case (peer_accepted m to_vec tls_ok written hello r m' sent)
  then show ?thesis
    using assms(2) mesh_inbound by (auto simp: components_ok_def)
next
  case (peer_dialled m peer to_vec is_server_name dial r m' sent)
  then show ?thesis
    using assms(2) mesh_outbound by (auto simp: components_ok_def)
next
  case (peer_frame m udp V stream W M c read m' sends packets)
  then show ?thesis
    using assms(2) mesh_reachable.mesh_turn by (auto simp: components_ok_def)
next
  case (to_mesh m packet rest M message_id cx sends)
  then show ?thesis
    using assms(2) mesh_reachable.mesh_from_local by (auto simp: components_ok_def)
qed (use assms(2) in \<open>auto simp: components_ok_def\<close>)

lemma process_components_ok: "process_run S X from_str B p H E \<Longrightarrow> components_ok S X from_str B p"
  by (induction rule: process_run.induct) (auto intro: components_started components_step)

section \<open>What leaves the process\<close>

text \<open>The datagrams of a step of the UDP relay, and the frames of one of the stream relay.\<close>

lemma udp_datagram_sent:
  assumes "udp_datagram V buf addr peers = (res, peers', sent, out)" and "(b, a) \<in> set sent"
  shows "\<exists>(f, t, pl)\<in>set (udp_received buf). udp_knows peers' t a \<and>
    b = packet_bytes udp_MAGIC TYPE_DELIVER (char_of (0 :: nat)) f [] pl"
proof (cases "udp_parse_packet (take UDP_BUFFER buf)")
  case (Some packet)
  show ?thesis
  proof (cases packet)
    case (Send f t pl)
    obtain r s where d: "udp_deliver_local V (upsert_peer (ue_now V) f addr peers) f t pl = (r, s)" by fastforce
    then have "peers' = upsert_peer (ue_now V) f addr peers" "sent = s"
      using assms(1) Some Send by (auto simp: udp_datagram_def Let_def split: sum.splits)
    then show ?thesis
      using udp_local.deliver_to_target [of V peers' f t pl r "map prod.swap s" a b] d assms(2) Some Send
      by (force simp: udp_received_def)
  qed (use assms Some in \<open>simp add: udp_datagram_def\<close>)
qed (use assms in \<open>simp add: udp_datagram_def\<close>)

lemma handle_connection_queued:
  assumes "handle_connection V c read s = (s', queued, out)" and "(d, b) \<in> set queued"
  shows "ss_peers s' = ss_peers s \<and> (\<exists>(f, t, pl)\<in>set (stream_received s c read). stream_knows (ss_peers s) t d \<and>
    b = packet_bytes stream_MAGIC TYPE_DELIVER (char_of (0 :: nat)) f [] pl)"
proof -
  obtain node where node: "hm_get (ss_conns s) c = Some (Some node)" and turn: "relay_turn V c node read s = (s', queued, out)"
    using assms by (auto simp: handle_connection_def split: option.splits)
  from turn show ?thesis
  proof (cases rule: relay_turn_cases)
    case (sent frame to_id payload layout)
    with assms(2) have "stream_knows (ss_peers s) to_id d \<and> b = layout"
      by (auto simp: stream_knows_def split: option.splits)
    with sent node show ?thesis by (simp add: stream_received_def)
  qed (use assms(2) in simp_all)
qed

lemma dispatched_known:
  assumes "e \<in> set (dispatched udp stream packet)"
  shows "(\<exists>b a V peers. e = ToUdp b a \<and> udp = Reading (V, peers) \<and> udp_knows peers (mi_to_id packet) a \<and>
      b = packet_bytes udp_MAGIC TYPE_DELIVER (char_of (0 :: nat)) (mi_from_id packet) [] (mi_payload packet)) \<or>
    (\<exists>c b V peers. e = ToStream c b \<and> stream = Reading (V, peers) \<and> stream_knows peers (mi_to_id packet) c \<and>
      b = packet_bytes stream_MAGIC TYPE_DELIVER (char_of (0 :: nat)) (mi_from_id packet) [] (mi_payload packet))"
proof -
  obtain answer sent queued where d: "mesh_dispatch udp stream packet = (answer, sent, queued)" by (metis prod_cases3)
  show ?thesis
  proof (cases answer)
    case (Answered delivered)
    from mesh_dispatch_honest [OF d [unfolded Answered]] assms d show ?thesis
      by (fastforce simp: dispatched_def)
  qed (use assms d in \<open>auto simp: dispatched_def mesh_dispatch_def
      split: MeshTransport.splits relay_side.splits prod.splits\<close>)
qed

text \<open>The packet in a frame of the mesh is one the connection sent, or one of the local relays.\<close>

fun frame_carries :: "base64 \<Rightarrow> MeshFrame \<Rightarrow> packet \<Rightarrow> bool" where
  "frame_carries B (Relay _ _ from_id to_id payload_b64 _) (f, t, pl) \<longleftrightarrow>
     from_id = f \<and> to_id = t \<and> payload_b64 = b64_encode B pl"
| "frame_carries B (Hello _) _ \<longleftrightarrow> False"

lemma forward_good_peer:
  assumes "(q, k, f) \<in> set (snd (forward_to_target V now ex t frame cx))" and "mesh_ok cx"
  shows "f = frame \<and> good_peer cx q"
  using forward_sends [OF _ assms(1)] assms(2) by (auto simp: mesh_ok_def)

lemma connection_turn_sends:
  assumes "connection_turn from_str B M c read m = (m', sends, packets)" and "server_ok m" and "(q, k, f) \<in> set sends"
  shows "good_peer (ms_context m) q \<and> (\<exists>packet\<in>set packets. frame_carries B f (mesh_packet packet))"
  using assms(1)
proof (cases rule: connection_turn_cases)
  case (framed src line frame res cx')
  have ok: "mesh_ok (ms_context m)" and src: "good_peer (ms_context m) src"
    using assms(2) framed(1) by (simp_all add: server_ok_def)
  show ?thesis
  proof (cases frame)
    case (Relay i tr from_id to_id pb h)
    from framed(4) [unfolded Relay] show ?thesis
    proof (cases rule: handle_relay_cases)
      case (forwarded payload pk cx1)
      have good: "good_peer cx1 = good_peer (ms_context m)" by (rule good_peer_cong) (simp_all add: forwarded(2))
      have "mesh_ok cx1"
        unfolding forwarded(2) by (rule mesh_ok_learn [OF mesh_ok_remember [OF ok]]) (use src in \<open>simp add: good_peer_def\<close>)
      have "sends = snd (forward_to_target M (clock M 2) (Some src) to_id
          (Relay i tr from_id to_id (b64_encode B payload) (saturating_sub h 1)) cx1)"
        using forwarded(9) by (metis snd_conv)
      from forward_good_peer [OF assms(3) [unfolded this] \<open>mesh_ok cx1\<close>] show ?thesis
        by (simp add: good forwarded(5, 6) mesh_packet_def)
    qed (use assms(3) in simp_all)
  qed (use assms(3) framed(4) in \<open>simp add: handle_frame_def\<close>)
qed (use assms(3) in simp_all)

definition outgoing_packet :: "MeshOutgoingPacket \<Rightarrow> packet" where
  "outgoing_packet packet = (mo_from_id packet, mo_to_id packet, mo_payload packet)"

lemma from_local_peers:
  assumes "from_local B M i packet (ms_context m) = (cx, sends)" and "server_ok m" and "(q, k, f) \<in> set sends"
  shows "good_peer (ms_context m) q \<and> frame_carries B f (outgoing_packet packet)"
proof -
  define cx0 where "cx0 = snd (remember_message (clock M 0) i (ms_context m))"
  have "mesh_ok cx0" using assms(2) by (simp add: cx0_def server_ok_def mesh_ok_remember)
  moreover have "good_peer cx0 = good_peer (ms_context m)" by (rule good_peer_cong) (simp_all add: cx0_def)
  moreover have sent: "(q, k, f) \<in> set (snd (forward_to_target M (clock M 1) None (mo_to_id packet)
      (Relay i (mo_transport packet) (mo_from_id packet) (mo_to_id packet) (b64_encode B (mo_payload packet)) (cx_max_hops cx0)) cx0))"
    using assms(1,3) by (simp add: from_local_def cx0_def Let_def)
  ultimately show ?thesis using forward_good_peer [OF sent] by (simp add: outgoing_packet_def)
qed

lemma udp_datagram_out:
  assumes "udp_datagram V buf addr peers = (res, peers', sent, out)" and "x \<in> set out"
  shows "outgoing_packet x \<in> set (udp_received buf)"
  using assms by (auto simp: udp_datagram_def udp_received_def outgoing_packet_def Let_def
      split: option.splits RelayPacket.splits prod.splits sum.splits if_split_asm)

lemma handle_connection_out:
  assumes "handle_connection V c read s = (s', queued, out)" and "x \<in> set out"
  shows "outgoing_packet x \<in> set (stream_received s c read)"
proof -
  obtain node where node: "hm_get (ss_conns s) c = Some (Some node)" and turn: "relay_turn V c node read s = (s', queued, out)"
    using assms by (auto simp: handle_connection_def split: option.splits)
  from turn show ?thesis
  proof (cases rule: relay_turn_cases)
    case (sent frame to_id payload layout)
    with assms(2) node show ?thesis by (auto simp: stream_received_def outgoing_packet_def split: if_split_asm)
  qed (use assms(2) in simp_all)
qed

text \<open>The packets on their way to the mesh were received by a relay.\<close>

lemma process_queue:
  "process_run S X from_str B p H E \<Longrightarrow> outgoing_packet ` set (pr_to_mesh p) \<subseteq> set H"
proof (induction rule: process_run.induct)
  case started
  from started(1) show ?case by (rule main_startE) simp
next
  case (went_on p H E received emitted p')
  from went_on.hyps(2) show ?case
  proof cases
    case (udp_in peers t V buf addr res peers' sent out)
    with went_on.IH udp_datagram_out [OF udp_in(8)] show ?thesis by auto
  next
    case (stream_frame s t V c read s' queued out)
    with went_on.IH handle_connection_out [OF stream_frame(7)] show ?thesis by auto
  qed (use went_on.IH in auto)
qed

text \<open>
  What justifies an emission: it carries the sender and the payload of a packet of \<open>H\<close>; a datagram
  goes to the address the UDP relay has for the packet's target, a frame of the stream relay to a
  connection that registered as the target, and a frame of the mesh to a peer of the topology
  other than the server itself.
\<close>

fun justified :: "base64 \<Rightarrow> ('addr, 'c) process \<Rightarrow> packet list \<Rightarrow> 'addr emission \<Rightarrow> bool" where
  "justified B p H (ToUdp b a) \<longleftrightarrow>
     (\<exists>(f, t, pl)\<in>set H. b = packet_bytes udp_MAGIC TYPE_DELIVER (char_of (0 :: nat)) f [] pl \<and>
        (\<exists>peers. pr_udp p = Some peers \<and> udp_knows peers t a))"
| "justified B p H (ToStream c b) \<longleftrightarrow>
     (\<exists>(f, t, pl)\<in>set H. b = packet_bytes stream_MAGIC TYPE_DELIVER (char_of (0 :: nat)) f [] pl \<and>
        (\<exists>s. pr_stream p = Some s \<and> hm_get (ss_conns s) c = Some (Some t)))"
| "justified B p H (ToPeer q k frame) \<longleftrightarrow>
     list_ex (frame_carries B frame) H \<and> q \<in> mpm_id ` set (app_mesh_peers (pr_app p)) \<and>
     (\<exists>m. pr_mesh p = Some m \<and> q \<noteq> cx_server_id (ms_context m))"

lemma connection_turn_server_id:
  assumes "connection_turn from_str B M c read m = (m', sends, packets)"
  shows "cx_server_id (ms_context m') = cx_server_id (ms_context m)"
  using assms
proof (cases rule: connection_turn_cases)
  case (framed src line frame res cx')
  with handle_frame_keeps(2) [OF framed(4)] show ?thesis by simp
qed simp_all

lemma from_local_server_id:
  "from_local B M i packet cx = (cx', sends) \<Longrightarrow> cx_server_id cx' = cx_server_id cx"
  by (metis forward_to_target_fst from_local_def fst_conv lookup_route_fields remember_message_fields)

lemma mesh_good_peer:
  assumes "components_ok S X from_str B p" and "pr_mesh p = Some m" and "good_peer (ms_context m) q"
  shows "q \<in> mpm_id ` set (app_mesh_peers (pr_app p)) \<and> q \<noteq> cx_server_id (ms_context m)"
proof -
  have "cx_allowed_peers (ms_context m) = mp_id ` set (mesh_peers (pr_app p))"
    using assms(1,2) by (auto simp: components_ok_def dest: mesh_reachable_allowed)
  with assms(3) show ?thesis by (auto simp: good_peer_def mesh_peers_ids)
qed

lemma stream_registered:
  assumes "components_ok S X from_str B p" and "pr_stream p = Some s" and "stream_knows (ss_peers s) t c"
  shows "hm_get (ss_conns s) c = Some (Some t)"
proof -
  obtain n where "stream_reachable n s" using assms(1,2) by (auto simp: components_ok_def)
  then have "stream_ok n s" by (rule stream_reachable_ok)
  with assms(3) show ?thesis by (simp add: stream_ok_def)
qed

lemma dispatched_justified:
  assumes "e \<in> set (dispatched (relay_side tu V (pr_udp p)) (relay_side ts W (map_option ss_peers (pr_stream p))) packet)"
    and "components_ok S X from_str B p" and "mesh_packet packet \<in> set H"
  shows "justified B p H e"
  using dispatched_known [OF assms(1)]
proof (elim disjE exE conjE)
  fix b a V' peers
  assume "e = ToUdp b a" "relay_side tu V (pr_udp p) = Reading (V', peers)"
    and "udp_knows peers (mi_to_id packet) a"
      "b = packet_bytes udp_MAGIC TYPE_DELIVER (char_of (0 :: nat)) (mi_from_id packet) [] (mi_payload packet)"
  moreover from this(2) have "pr_udp p = Some peers" by (auto simp: relay_side_def split: option.split_asm)
  ultimately show ?thesis using assms(3) by (auto simp: mesh_packet_def intro!: bexI)
next
  fix c b W' peers
  assume e: "e = ToStream c b" "relay_side ts W (map_option ss_peers (pr_stream p)) = Reading (W', peers)"
    "stream_knows peers (mi_to_id packet) c"
    "b = packet_bytes stream_MAGIC TYPE_DELIVER (char_of (0 :: nat)) (mi_from_id packet) [] (mi_payload packet)"
  then obtain s where "pr_stream p = Some s" "ss_peers s = peers"
    by (auto simp: relay_side_def split: option.split_asm)
  with stream_registered [OF assms(2)] e show ?thesis using assms(3) by (auto simp: mesh_packet_def intro!: bexI)
qed

end
