(* ===== verification/Process_Spec.thy ===== *)
theory Process_Spec
  imports Process Example_Env
begin

text \<open>
  What the process as a whole promises: how \<open>main\<close> connects its tasks, that each component
  behaves in the process as it does alone, and that nothing leaves the process
  that it was not sent.
\<close>

section \<open>A process\<close>

text \<open>The mesh of the server of the examples, with a UDP relay, on certificates that load.\<close>

definition ex_pem :: "(bytes, bytes) pem" where
  "ex_pem = \<lparr>pem_file = Some, pem_certs = (\<lambda>b. Some [b]), pem_pkcs8 = (\<lambda>b. Some [b]), pem_rsa = (\<lambda>_. Some []),
     pem_ec = (\<lambda>_. Some []), tls_verifier_ok = (\<lambda>_. True), tls_server_ok = (\<lambda>_ _. True), tls_client_ok = (\<lambda>_ _. True)\<rparr>"

definition ex_relay_args :: Args where
  "ex_relay_args = ex_args\<lparr>a_listen := ''1.2.3.4:9'', a_udp_relay_listen := Some ''1.2.3.4:9''\<rparr>"

definition ex_load :: "store_choice \<Rightarrow> string + State StoreBackend" where
  "ex_load = load_store plain_serde (\<lambda>_. None) True False all_ok None"

definition ex_process :: "(nat, State) process" where
  "ex_process = projr (main_start (\<lambda>_. None) ex_load (mesh_start ex_pem (\<lambda>_. True) (\<lambda>_ _. True)) (\<lambda>_ _. True) ex_relay_args)"

lemma ex_relay_startup:
  "\<exists>app. startup (\<lambda>_. None) ex_load ex_relay_args =
     Inr (File (store_load plain_serde (\<lambda>_. None) (Some ''state.json'')) (Some ''state.json'') (\<lambda>_. None), app, Some ex_mesh_config)"
proof -
  have mesh: "build_mesh_config ex_relay_args = Inr (Some ex_mesh_config)"
    by (simp add: build_mesh_config_def ex_relay_args_def ex_args_def ex_listen ex_peer ex_mesh_config_def Let_def
        del: parse_mesh_peers.simps)
  have "\<exists>urls. normalize_control_urls (a_control_url ex_relay_args) = Inr urls"
    by (simp add: normalize_control_urls_def ex_relay_args_def ex_args_def trim_visible visible_def trim_end_matches_def
        starts_with_def Let_def)
  with mesh show ?thesis
    by (auto simp: startup_def resolve_store_def ex_relay_args_def ex_args_def resolve_dns_servers_def ex_peer ex_load_def
        load_store_def simp del: parse_mesh_peers.simps)
qed

lemma ex_mesh_start:
  "mesh_start ex_pem (\<lambda>_. True) (\<lambda>_ _. True) ex_mesh_config =
     Inr \<lparr>ms_context = ex_context\<lparr>cx_allowed_peers := {''b''}\<rparr>, ms_next_conn_id = 1, ms_conns = hm_empty\<rparr>"
proof -
  have trim_a: "trim ''a'' = ''a''" by (simp add: trim_visible visible_def)
  have "start_context (mc_server_id ex_mesh_config) (mc_max_hops ex_mesh_config) (mc_peers ex_mesh_config) =
      Inr (ex_context\<lparr>cx_allowed_peers := {''b''}\<rparr>)"
    by (simp add: start_context_def trim_a ex_context_def ex_mesh_config_def)
  then show ?thesis
    by (simp add: mesh_start_def build_server_tls_config_def build_client_tls_config_def load_certs_def
        load_private_key_def ex_pem_def)
qed

definition ex_mesh :: mesh_server where
  "ex_mesh = \<lparr>ms_context = ex_context\<lparr>cx_allowed_peers := {''b''}\<rparr>, ms_next_conn_id = 1, ms_conns = hm_empty\<rparr>"

definition ex_wiring :: wiring where
  "ex_wiring = \<lparr>wi_http = SocketV4 0x01020304 9, wi_mesh = Some ex_mesh, wi_dispatcher = True,
     wi_udp = Some \<lparr>rt_listen = SocketV4 0x01020304 9, rt_mesh_tx = True, rt_mesh_rx = True\<rparr>,
     wi_stream = None, wi_dns = None\<rparr>"

lemma ex_wire:
  "wire (mesh_start ex_pem (\<lambda>_. True) (\<lambda>_ _. True)) (\<lambda>_ _. True) ex_relay_args (Some ex_mesh_config) = Inr ex_wiring"
  by (simp add: wire_def ex_mesh_start ex_relay_args_def ex_args_def listen_on_def parse_listen_def ex_listen
      ex_wiring_def ex_mesh_def Let_def)

lemma ex_process_started:
  "main_start (\<lambda>_. None) ex_load (mesh_start ex_pem (\<lambda>_. True) (\<lambda>_ _. True)) (\<lambda>_ _. True) ex_relay_args = Inr ex_process"
  "pr_store ex_process = File (store_load plain_serde (\<lambda>_. None) (Some ''state.json'')) (Some ''state.json'') (\<lambda>_. None)"
  "pr_udp ex_process = Some hm_empty" "pr_udp_served ex_process" "pr_to_mesh ex_process = []"
  "pr_wiring ex_process = ex_wiring" "pr_mesh ex_process = Some ex_mesh" "pr_inflight ex_process = {#}"
proof -
  obtain app where s: "startup (\<lambda>_. None) ex_load ex_relay_args =
     Inr (File (store_load plain_serde (\<lambda>_. None) (Some ''state.json'')) (Some ''state.json'') (\<lambda>_. None), app, Some ex_mesh_config)"
    using ex_relay_startup by blast
  note start = ex_process_def main_start_def s ex_wire ex_wiring_def relay_runs_def udp_run_with_mesh_def
  show "main_start (\<lambda>_. None) ex_load (mesh_start ex_pem (\<lambda>_. True) (\<lambda>_ _. True)) (\<lambda>_ _. True) ex_relay_args = Inr ex_process"
    "pr_store ex_process = File (store_load plain_serde (\<lambda>_. None) (Some ''state.json'')) (Some ''state.json'') (\<lambda>_. None)"
    "pr_udp ex_process = Some hm_empty" "pr_udp_served ex_process" "pr_to_mesh ex_process = []"
    "pr_wiring ex_process = ex_wiring" "pr_mesh ex_process = Some ex_mesh" "pr_inflight ex_process = {#}"
    by (simp_all add: start)
qed

lemma ex_process_run: "process_run plain_serde ex_ext ex_from_str ex_base64 ex_process [] []"
  by (rule started) (rule ex_process_started(1), simp add: ex_process_started(2) reachable.fresh_file)

text \<open>The peer connects, and a datagram comes for a node the relay does not know.\<close>

definition ex_connected :: mesh_server where
  "ex_connected = \<lparr>ms_context = ex_context\<lparr>cx_allowed_peers := {''b''}, cx_peers := [(''b'', \<lparr>ps_conn_id = 1\<rparr>)]\<rparr>,
     ms_next_conn_id = 2, ms_conns = [(1, ''b'')]\<rparr>"

definition ex_waiting_process :: "(nat, State) process" where
  "ex_waiting_process = ex_process\<lparr>pr_mesh := Some ex_connected, pr_udp := Some [(''n1'', \<lparr>pe_addr = 1, pe_last_seen = 7\<rparr>)],
     pr_udp_served := True,
     pr_to_mesh := [\<lparr>mo_transport = Udp, mo_from_id = ''n1'', mo_to_id = ''n2'', mo_payload = ''hi''\<rparr>]\<rparr>"

lemma ex_waiting_run:
  "process_run plain_serde ex_ext ex_from_str ex_base64 ex_waiting_process [(''n1'', ''n2'', ''hi'')] []"
proof -
  let ?p = "ex_process\<lparr>pr_mesh := Some ex_connected\<rparr>"
  have "inbound_connection (\<lambda>_. Some []) ex_from_str True True (Line ''b'') ex_mesh = (Inr 1, ex_connected, [char_of (10 :: nat)])"
    by (simp add: inbound_connection_def run_connection_def write_frame_def open_connection_def ex_from_str_def validate_peer_def ex_context_def ex_mesh_def ex_connected_def
        hm_insert_def hm_empty_def)
  from process_run.went_on [OF ex_process_run peer_accepted [OF ex_process_started(7) this]]
  have "process_run plain_serde ex_ext ex_from_str ex_base64 ?p [] []" by simp
  moreover have "process_step plain_serde ex_ext ex_from_str ex_base64 ?p (udp_received ex_send) [] ex_waiting_process"
  proof -
    have "udp_datagram \<lparr>ue_now = 7, ue_send_ok = \<lambda>_ _. True, ue_mesh = True\<rparr> ex_send 1 hm_empty =
        (Inr (), [(''n1'', \<lparr>pe_addr = 1, pe_last_seen = 7\<rparr>)], [],
         [\<lparr>mo_transport = Udp, mo_from_id = ''n1'', mo_to_id = ''n2'', mo_payload = ''hi''\<rparr>])"
      by (simp add: udp_datagram_def ex_send_parse upsert_peer_def udp_deliver_local_def hm_insert_def hm_empty_def
          hm_get_def Let_def)
    from udp_in [where p = ?p and t = "\<lparr>rt_listen = SocketV4 0x01020304 9, rt_mesh_tx = True, rt_mesh_rx = True\<rparr>",
        OF _ _ _ _ this] show ?thesis
      by (simp add: ex_process_started ex_wiring_def ex_waiting_process_def)
  qed
  ultimately have "process_run plain_serde ex_ext ex_from_str ex_base64 ex_waiting_process ([] @ udp_received ex_send) ([] @ [])"
    by (rule process_run.went_on)
  then show ?thesis by (simp add: udp_received_def ex_send_parse)
qed

definition ex_forwarded_process :: "(nat, State) process" where
  "ex_forwarded_process = ex_waiting_process\<lparr>pr_mesh := Some (ex_connected\<lparr>ms_context :=
     snd (remember_message 30 ''id'' (ms_context ex_connected))\<rparr>), pr_to_mesh := []\<rparr>"

lemma ex_forwarded:
  "process_step plain_serde ex_ext ex_from_str ex_base64 ex_waiting_process []
     [ToPeer ''b'' 1 (Relay ''id'' Udp ''n1'' ''n2'' ''hi'' 4)] ex_forwarded_process"
proof -
  have "cx_peers (ms_context ex_connected) = [(''b'', \<lparr>ps_conn_id = 1\<rparr>)]" "cx_max_hops (ms_context ex_connected) = 4"
      "cx_route_hints (ms_context ex_connected) = hm_empty"
    by (simp_all add: ex_connected_def ex_context_def)
  then have "from_local ex_base64 ex_mesh_env ''id'' \<lparr>mo_transport = Udp, mo_from_id = ''n1'', mo_to_id = ''n2'', mo_payload = ''hi''\<rparr>
      (ms_context ex_connected) = (snd (remember_message 30 ''id'' (ms_context ex_connected)),
        [(''b'', 1, Relay ''id'' Udp ''n1'' ''n2'' ''hi'' 4)])"
    by (simp add: from_local_def Let_def forward_to_target_def lookup_route_def hm_simps broadcast_def hm_iter_def
        ex_base64_def ex_mesh_env_def)
  from to_mesh [where p = ex_waiting_process and rest = "[]", OF _ _ this] show ?thesis
    by (simp add: ex_waiting_process_def ex_forwarded_process_def)
qed

section \<open>How the tasks are connected\<close>

text \<open>
  When \<open>main\<close> comes to serve requests, the mesh runs exactly when the topology it shows to
  administrators has peers, and those are the peers the mesh accepts. The dispatcher runs, and
  every relay holds both ends of its channels, exactly when the mesh runs. A relay task exists
  exactly when its address was given, and is that address.
\<close>

theorem main_wired:
  assumes "main_start read_file load (mesh_start P trusts bind_ok) bind_ok args = Inr p"
  shows "(pr_mesh p \<noteq> None \<longleftrightarrow> app_mesh_peers (pr_app p) \<noteq> []) \<and>
    (case pr_mesh p of None \<Rightarrow> True
     | Some m \<Rightarrow> cx_allowed_peers (ms_context m) = mpm_id ` set (app_mesh_peers (pr_app p)) \<and> cx_max_hops (ms_context m) \<noteq> 0) \<and>
    wi_dispatcher (pr_wiring p) = (pr_mesh p \<noteq> None) \<and>
    (case a_udp_relay_listen args of None \<Rightarrow> wi_udp (pr_wiring p) = None
     | Some l \<Rightarrow> \<exists>a. parse_socket_addr l = Some a \<and>
         wi_udp (pr_wiring p) = Some \<lparr>rt_listen = a, rt_mesh_tx = (pr_mesh p \<noteq> None), rt_mesh_rx = (pr_mesh p \<noteq> None)\<rparr>) \<and>
    (case a_stream_relay_listen args of None \<Rightarrow> wi_stream (pr_wiring p) = None
     | Some l \<Rightarrow> \<exists>a. parse_socket_addr l = Some a \<and>
         wi_stream (pr_wiring p) = Some \<lparr>rt_listen = a, rt_mesh_tx = (pr_mesh p \<noteq> None), rt_mesh_rx = (pr_mesh p \<noteq> None)\<rparr>)"
  using assms
proof (rule main_startE)
  fix mesh_config
  assume s: "startup read_file load args = Inr (pr_store p, pr_app p, mesh_config)"
    and w: "wire (mesh_start P trusts bind_ok) bind_ok args mesh_config = Inr (pr_wiring p)"
    and p: "pr_mesh p = wi_mesh (pr_wiring p)"
  have config: "pr_mesh p = None \<longleftrightarrow> mesh_config = None"
    unfolding p by (rule wire_mesh_iff [OF w])
  moreover have "cx_allowed_peers (ms_context m) = mpm_id ` set (app_mesh_peers (pr_app p)) \<and> cx_max_hops (ms_context m) \<noteq> 0"
    if "pr_mesh p = Some m" for m
  proof (rule wire_mesh [OF w])
    fix c
    assume "mesh_config = Some c" and "mesh_start P trusts bind_ok c = Inr m"
    then show ?thesis
      using mesh_start_context [of P trusts bind_ok c m] mesh_peers_topology [of read_file load args "pr_store p" "pr_app p" c] s
      by (auto simp: mesh_peers_ids simp flip: mesh_peers_ids)
  qed (use p that in simp)
  ultimately show ?thesis
    using startup_checked [OF s] wire_tasks [OF w] p by (auto split: option.splits)
qed

theorem main_wired_witness:
  "app_mesh_peers (pr_app ex_process) \<noteq> [] \<and> mpm_id ` set (app_mesh_peers (pr_app ex_process)) = {''b''}"
  using main_wired [OF ex_process_started(1)] by (simp add: ex_process_started ex_mesh_def ex_context_def)

section \<open>The components in the process\<close>

text \<open>
  C7: In every state of the process, with the steps of all its tasks interleaved freely, every
  component keeps its invariant: the state in use, on the disk and on its way there is well formed;
  the UDP relay's table is what its datagrams and cleanups make of the empty one; the
  stream relay lists a connection under a node exactly when it registered as that node; and the
  mesh keeps within its bounds and is connected only to peers of the topology.
\<close>

theorem process_components:
  assumes "ipnet_laws X" and "serde_ok S" and "process_run S X from_str B p H E"
  shows "store_all (wf_state X) S (pr_store p) (pr_inflight p) \<and>
    (case pr_udp p of None \<Rightarrow> True | Some peers \<Rightarrow> \<exists>h. peers = udp_run h) \<and>
    (case pr_stream p of None \<Rightarrow> True
     | Some s \<Rightarrow> \<forall>node c. stream_knows (ss_peers s) node c = (hm_get (ss_conns s) c = Some (Some node))) \<and>
    (case pr_mesh p of None \<Rightarrow> True
     | Some m \<Rightarrow> hm_len (cx_seen_ids (ms_context m)) \<le> MAX_SEEN_IDS \<and>
         hm_len (cx_route_hints (ms_context m)) \<le> MAX_ROUTE_HINTS \<and>
         dom (hm_get (cx_peers (ms_context m))) \<subseteq> mpm_id ` set (app_mesh_peers (pr_app p)))"
proof -
  have ok: "components_ok S X from_str B p" by (rule process_components_ok) (rule assms)
  then have "store_all (wf_state X) S (pr_store p) (pr_inflight p)"
    by (intro reachable_wf [OF assms(1,2)]) (simp add: components_ok_def)
  moreover have "\<exists>n. stream_ok n s" if "pr_stream p = Some s" for s
    using ok that by (auto simp: components_ok_def dest: stream_reachable_ok)
  moreover have "mesh_ok (ms_context m)" if "pr_mesh p = Some m" for m
    using ok that by (auto simp: components_ok_def server_ok_def dest: mesh_reachable_ok)
  ultimately show ?thesis
    using ok mesh_good_peer [OF ok]
    by (auto simp: components_ok_def stream_ok_def mesh_ok_def split: option.split)
qed

theorem process_components_witness:
  "store_all (wf_state ex_ext) plain_serde (pr_store ex_waiting_process) {#} \<and>
   (\<exists>h :: (nat udp_env \<times> nat udp_event) list. [(''n1'', \<lparr>pe_addr = 1, pe_last_seen = 7\<rparr>)] = udp_run h) \<and>
   dom (hm_get [(''b'', \<lparr>ps_conn_id = 1\<rparr>)]) \<subseteq> mpm_id ` set (app_mesh_peers (pr_app ex_waiting_process))"
  using process_components [OF ex_ext_laws plain_serde_ok ex_waiting_run] by (simp add: ex_waiting_process_def ex_connected_def ex_process_started)

section \<open>What leaves the process\<close>



end
