(* ===== verification/Unit_Tests.thy ===== *)
theory Unit_Tests
  imports Example_Env Config_Spec
begin

text \<open>
  The unit tests of \<open>api.rs\<close> and \<open>main.rs\<close>, evaluated on the model: each lemma has the name and the
  assertions of a test. The prefixes are those of the concrete \<open>ipnet\<close> of \<open>Example_Env\<close>, as a
  prefix length and an address.
\<close>

section \<open>Handlers\<close>

definition sample_node :: "string \<Rightarrow> string list \<Rightarrow> i64 \<Rightarrow> NodeState" where
  "sample_node name tags created_at =
     \<lparr>nd_id = ''node-'' @ name, nd_network_id = ''net-1'', nd_name = name, nd_machine_public_key = ''machine-'' @ name,
      nd_wg_public_key = ''wg-'' @ name, nd_ipv4 = ''100.64.0.1'', nd_ipv6 = ''fd00::1'', nd_endpoints = [], nd_tags = tags,
      nd_owner_user_id = Some (''user-'' @ name), nd_owner_email = Some (name @ ''@example.test''), nd_owner_is_admin = False,
      nd_routes = [], nd_created_at = created_at, nd_last_seen = created_at, nd_probe_requested_at = None,
      nd_approved = True, nd_approved_at = Some created_at, nd_auth_secret = None, nd_auth_expires_at = None,
      nd_node_token = Some (''token-'' @ name), nd_revoked_at = None,
      nd_key_history =
        [\<lparr>kr_key_type = Machine, kr_public_key = ''machine-'' @ name, kr_created_at = created_at, kr_revoked_at = None\<rparr>,
         \<lparr>kr_key_type = WireGuard, kr_public_key = ''wg-'' @ name, kr_created_at = created_at, kr_revoked_at = None\<rparr>]\<rparr>"

definition tag_selector :: "string \<Rightarrow> AclSelector" where
  "tag_selector tag = \<lparr>sel_any = False, sel_tags = [tag], sel_node_ids = [], sel_names = []\<rparr>"

lemma acl_default_allows:
  "acl_allows acl_policy_default (sample_node ''src'' [''dev''] 0) (sample_node ''dst'' [''prod''] 0)"
  by code_simp

lemma acl_rule_denies_tag_pair:
  "\<not> acl_allows
     \<lparr>acl_default_action = Allow,
      acl_rules = [\<lparr>rule_action = Deny, rule_src = tag_selector ''dev'', rule_dst = tag_selector ''prod''\<rparr>]\<rparr>
     (sample_node ''src'' [''dev''] 0) (sample_node ''dst'' [''prod''] 0)"
  by code_simp

lemma key_rotation_required_blocks_peer:
  "effective_node_status (sample_node ''old'' [] (100 - 100)) \<lparr>kp_max_age_seconds = Some 30\<rparr> 100 = (False, True)"
proof -
  have "current_key_created_at (sample_node ''old'' [] 0) Machine = Some 0"
    by (simp add: current_key_created_at_def record_is_current_def sample_node_def)
  then have "snd (effective_node_status (sample_node ''old'' [] 0) \<lparr>kp_max_age_seconds = Some 30\<rparr> 100)"
    by (simp add: key_rotation_required_cases as_i64_def i64_saturating_sub_def)
  then show ?thesis using effective_approved_iff by (simp add: prod_eq_iff)
qed

lemma initial_offsets_follow_subnet_size:
  "initial_ipv4_offset ex_ext (24, 0x64400000) = Some 10"
  "initial_ipv4_offset ex_ext (30, 0x64400000) = Some 1"
  "initial_ipv4_offset ex_ext (31, 0x64400000) = None"
  "initial_ipv6_offset ex_ext (48, 0xfd000000000000000000000000000000) = 10"
  "initial_ipv6_offset ex_ext (128, 0xfd000000000000000000000000000000) = 0"
  by (simp_all add: initial_ipv4_offset_def initial_ipv6_offset_def max_ipv4_offset_def max_ipv6_offset_def ex_ext_def
      saturating_sub_def Let_def)

text \<open>The network of the test, with the counters \<open>create_network\<close> starts it with.\<close>

definition sample_ext :: "(net4, net6) externals" where
  "sample_ext = ex_ext\<lparr>v4_parse := \<lambda>_. Some (30, 0x64400000), v6_parse := \<lambda>_. Some (126, 0xfd000000000000000000000000000000)\<rparr>"

definition sample_network :: NetworkState where
  "sample_network = (ex_net (the (initial_ipv4_offset sample_ext (30, 0x64400000)))
     (initial_ipv6_offset sample_ext (126, 0xfd000000000000000000000000000000)))
     \<lparr>net_id := ''net-1'', net_overlay_v4 := ''100.64.0.0/30'', net_overlay_v6 := ''fd00::/126''\<rparr>"

lemma ipv4_allocator_respects_configured_cidr_bounds:
  obtains ip1 ip2 network1 network2 network3 where
    "allocate_node_ips sample_ext sample_network = (Inr (''100.64.0.1'', ip1), network1)"
    "allocate_node_ips sample_ext network1 = (Inr (''100.64.0.2'', ip2), network2)"
    "allocate_node_ips sample_ext network2 = (Inl (Conflict ''ipv4 address space exhausted''), network3)"
proof -
  have show1: "show_ipv4 0x64400001 = ''100.64.0.1''" and show2: "show_ipv4 0x64400002 = ''100.64.0.2''"
    by (simp_all add: show_ipv4_def ipv4_octets_def show_radix.simps [where b = 10] digit_char_def char_of_eq_iff take_bit_eq_mod)
  have ext: "v4_parse sample_ext s = Some (30, 0x64400000)" "v6_parse sample_ext s = Some (126, 0xfd000000000000000000000000000000)"
    "max_ipv4_offset sample_ext (30, 0x64400000) = Some 2"
    "max_ipv6_offset sample_ext (126, 0xfd000000000000000000000000000000) = 3"
    "v4_network sample_ext (30, 0x64400000) = 0x64400000" for s
    by (simp_all add: sample_ext_def ex_ext_def max_ipv4_offset_def max_ipv6_offset_def saturating_sub_def)
  have start: "net_next_ipv4 sample_network = 1" "net_next_ipv6 sample_network = 1"
    by (simp_all add: sample_network_def ex_net_def initial_ipv4_offset_def initial_ipv6_offset_def ext)
  show thesis
    by (rule that [where ?network1.0 = "sample_network\<lparr>net_next_ipv4 := 2, net_next_ipv6 := 2\<rparr>"
          and ?network2.0 = "sample_network\<lparr>net_next_ipv4 := 3, net_next_ipv6 := 3\<rparr>"])
      (simp_all add: allocate_node_ips_def ext start show1 show2 Let_def)
qed

lemma cidr_overlap_detection_works:
  "ipv4_nets_overlap ex_ext (24, 0x64400000) (25, 0x64400080)"
  "\<not> ipv4_nets_overlap ex_ext (24, 0x64400000) (24, 0x64410000)"
  by (simp_all add: ipv4_nets_overlap_def ex_ext_def)

section \<open>Addresses of name servers\<close>

lemmas read_numeral =
  read_octets.simps(2) [of _ "pred_numeral k" for k, folded numeral_eq_Suc]
  read_groups.simps(2) [of _ "pred_numeral k" for k, folded numeral_eq_Suc]

lemmas read_eval =
  parse_ip_def read_ipv4_def parse_ipv6_def read_ipv6_def read_number_def read_separator_def is_digit_def
  digits_value_def read_numeral to_digit_def

lemmas host_eval =
  split_host_port_def trim_visible visible_def strip_prefix_def split_once_def rsplit_once_def DEFAULT_DNS_PORT_def
  parse_port_def parse_u16_def

lemma split_host_port_defaults_to_53_when_port_omitted:
  "split_host_port ''dns.example.com'' = Inr (''dns.example.com'', 53)"
  "split_host_port ''[2001:db8::10]'' = Inr (''2001:db8::10'', 53)"
  by (simp_all add: host_eval read_eval)

lemma split_host_port_rejects_invalid_unbracketed_ipv6_with_port_like_suffix:
  "isl (split_host_port ''2001:db8::10:70000'')"
  by (simp add: host_eval read_eval)

lemma show_dns_port: "show_nat 53 = ''53''" "show_nat 5353 = ''5353''"
  by (simp_all add: show_radix.simps [where b = 10] digit_char_def char_of_eq_iff take_bit_eq_mod)

lemma normalize_dns_server_values_deduplicates_values:
  "normalize_dns_server_values [''dns.example.com'', ''dns.example.com:53'', ''[2001:db8::1]'', ''[2001:db8::1]:53''] =
     Inr [''[2001:db8::1]:53'', ''dns.example.com:53'']"
proof -
  have "split_host_port ''dns.example.com'' = Inr (''dns.example.com'', 53)"
    "split_host_port ''dns.example.com:53'' = Inr (''dns.example.com'', 53)"
    "split_host_port ''[2001:db8::1]'' = Inr (''2001:db8::1'', 53)"
    "split_host_port ''[2001:db8::1]:53'' = Inr (''2001:db8::1'', 53)"
    by (simp_all add: host_eval read_eval)
  then show ?thesis
    by (simp add: normalize_dns_server_values_def trim_visible visible_def format_host_port_def show_dns_port
        starts_with_def sort_dedup_def)
qed

lemma resolve_dns_servers_derives_from_control_url_and_listen:
  "resolve_dns_servers [] (Some ''0.0.0.0:5353'') [''https://control.example.com''] = Inr [''control.example.com:5353'']"
proof -
  have "show_ipv4 0 = ''0.0.0.0''"
    by (simp add: show_ipv4_def ipv4_octets_def show_radix.simps [where b = 10] digit_char_def char_of_eq_iff)
  then have "parse_socket_addr ''0.0.0.0:5353'' = Some (SocketV4 0 5353)"
    using parse_show_socket_v4 [of 0 5353] by (simp add: show_dns_port)
  moreover have "extract_control_url_host ''https://control.example.com'' = Some ''control.example.com''"
    by (simp add: extract_control_url_host_def strip_prefix_def starts_with_def rsplit_once_def split_once_def)
  moreover have "split_host_port ''control.example.com:5353'' = Inr (''control.example.com'', 5353)"
    by (simp add: host_eval read_eval)
  ultimately show ?thesis
    by (simp add: resolve_dns_servers_def normalize_dns_server_values_def trim_visible visible_def format_host_port_def
        show_dns_port starts_with_def sort_dedup_def map_filter_def socket_port_def)
qed

lemma extract_control_url_host_handles_ipv6_url:
  "extract_control_url_host ''https://[2001:db8::10]:8443'' = Some ''2001:db8::10''"
  by (simp add: extract_control_url_host_def strip_prefix_def starts_with_def split_once_def)

end
