(* ===== verification/Spec2Isabelle.thy ===== *)
theory Spec2Isabelle
  imports Enrollment_Spec Admin_Spec Netmap_Spec Dns Membership_Refine Process_Spec Unit_Tests
begin

text \<open>
  A verification of the Lightscale control server: the coordination server of an overlay
  network (\<open>src/src/\<close>), with its relays, its name server and the mesh between servers.

  \<^bold>\<open>The program.\<close> \<open>main.rs\<close> reads the arguments, loads the state store, and serves HTTP
  requests. The handlers of \<open>api.rs\<close> read and write one \<open>State\<close> of networks, nodes,
  enrollment tokens and an audit log (\<open>model.rs\<close>, \<open>state.rs\<close>) that is kept in memory and a
  JSON file or in one row of a database. Nodes enroll with a token or an approval link, get
  addresses from the overlays of their network (\<open>netid.rs\<close> derives them), report their endpoints
  and fetch a netmap of the peers the policy lets them see. \<open>dns.rs\<close> answers queries from the
  same state. \<open>udp_relay.rs\<close> and \<open>stream_relay.rs\<close> pass packets between nodes that cannot reach
  each other; what they cannot deliver goes to \<open>mesh.rs\<close>, which floods it to other servers.

  \<^bold>\<open>Common theories.\<close>
  \<^item> \<open>Prelude\<close>: machine integers, hash maps as association lists and their contract, the locale
    \<open>hash_map\<close>, which the model's map interprets. \<open>Rust_Str\<close> and \<open>Rust_Net\<close>: the parts of \<open>str\<close>
    and \<open>std::net\<close> the server uses, with the parsers of IP addresses inverting the printers.

  \<^bold>\<open>The control plane.\<close>
  \<^item> \<open>Model\<close> (\<open>model.rs\<close>): a record for each struct, a datatype for each enum.
  \<^item> \<open>State_Store\<close> (\<open>state.rs\<close>): the two backends, with each file and SQL call an input that may
    fail. The locale \<open>state_store\<close> is what handlers rely on, \<open>atomic_store\<close> what only the
    database gives; both are interpreted on the backends. The theorems: a successful write is
    what a restart loads, the backends agree, and two overlapping file writes may be persisted in
    the other order, as the lock is not held while the file is written.
  \<^item> \<open>Api_Base\<close>, \<open>Netid\<close>, \<open>Addressing\<close>, \<open>Policy\<close>, \<open>Networks\<close>, \<open>Enrollment\<close>, \<open>Nodes\<close>, \<open>Netmap\<close>
    (\<open>api.rs\<close>, \<open>netid.rs\<close>, \<open>app.rs\<close>): the helpers and handlers. A handler is a function on the
    store; the closure it passes to the store is a definition of its own with the suffix \<open>_tx\<close>,
    a function from the state to a result and the state as it was left, also by an early
    error. Clock, random secrets and UUIDs are fields of the record \<open>env\<close>, numbered by call.
  \<^item> \<open>Invariants\<close>, \<open>Router\<close>, \<open>Reachable\<close>: the well-formedness of a state and that every closure
    keeps it; \<open>dispatch\<close>, the routes of \<open>main.rs\<close>; and the stores that any requests, failures and
    restarts can lead to, with the snapshots of overlapping requests on their way to the file as a
    multiset, written in any order. \<open>Example_Env\<close> has a history with two nodes, for the witnesses.
  \<^item> \<open>Membership\<close>, \<open>Membership_Refine\<close>: what the control plane promises about who belongs to a
    network, as a small transition system with the authority each step needs; and that the server
    implements it, each request being one step or none, by the locale \<open>simulation\<close>.
  \<^item> \<open>Enrollment_Spec\<close>, \<open>Admin_Spec\<close>, \<open>Netmap_Spec\<close>: what the handlers do, on every branch that
    matters. The long poll is a \<open>partial_function\<close>; it is shown to return after at most 601 turns.
  \<^item> \<open>Dns\<close> (\<open>dns.rs\<close>): the name server; it answers with the addresses of active nodes, all of
    them and nothing else.

  \<^bold>\<open>The data plane.\<close>
  \<^item> \<open>Relay_Packet\<close>: the packets of both relays and UTF-8 validation. The locale \<open>relay_codec\<close>, the
    codec as the relays use it, is interpreted for the magic number of each relay. The locale
    \<open>framing\<close> is what the writer task of a connection needs of its frames; the stream relay
    interprets it, and the mesh gives it under the laws of JSON.
  \<^item> \<open>Ttl_Cache\<close>: the two bounded caches of the mesh; the locale \<open>bounded_cache\<close> is their contract.
  \<^item> \<open>Mesh\<close>, \<open>Mesh_Server\<close>, \<open>Mesh_Net\<close> (\<open>mesh.rs\<close>): the functions on the shared state; the states a
    server can reach; and several servers with frames in flight. Floods end, duplicates are
    dropped, caches stay bounded, and what arrives was sent.
  \<^item> \<open>Udp_Relay\<close>, \<open>Stream_Relay\<close>: the relays as steps of their tasks, with histories of events and
    an inductive reachability. Each interprets the locale \<open>local_relay\<close> of \<open>Mesh\<close>, what the mesh
    relies on of a relay. \<open>Relay_Mesh\<close> puts them and the mesh together.
  \<^bold>\<open>The process.\<close>
  \<^item> \<open>Config\<close>, \<open>Config_Spec\<close> (\<open>main.rs\<close>): from the arguments to the application state.
  \<^item> \<open>Process\<close>, \<open>Process_Spec\<close> (\<open>main.rs\<close>, \<open>mesh::start\<close>, \<open>run_with_mesh\<close> of the relays): \<open>main\<close> to
    the end, which binds the sockets and connects the tasks by channels, and the whole process as
    a step relation over its tasks. Each component keeps its invariant when all run
    together, and what leaves the process is a packet that it received.
  \<^item> \<open>Unit_Tests\<close>: the unit tests of \<open>api.rs\<close> and \<open>main.rs\<close>, evaluated on the model.

  This theory holds the properties of all histories of the server and of its start.

  \<^bold>\<open>Conventions.\<close> A string is the list of its UTF-8 bytes. Unsigned integers are words of
  their width; an \<open>i64\<close> is an integer that every operation keeps in range. Errors are left
  injections of a sum. A task that shares state with others is a function for the stretch
  between two points where it waits; the steps of different tasks are interleaved freely.

  \<^bold>\<open>Parameters.\<close> Third-party code is a parameter with what is relied on as named
  hypotheses: \<open>ipnet_laws\<close> for the prefixes of \<open>ipnet\<close>, \<open>serde_ok\<close> for the JSON of the state,
  \<open>b64_ok\<close> for base64, \<open>json_laws\<close> and \<open>json_cut\<close> for mesh frames; \<open>blake3\<close>, UUIDs, \<open>hickory_proto\<close>, the Unicode
  lower-case tables, PEM readers and TLS need no hypothesis. Each has an instance: in a witness, or in the
  lemma \<open>json_laws_hold\<close>.

  \<^bold>\<open>Bounds.\<close> There is no fuel. The stream relay is verified for its first \<open>2 ^ 64 - 2\<close>
  connections, after which its counter would repeat; the mesh properties hold for every hop limit
  and number of peers.

  \<^bold>\<open>Not modelled.\<close> The parsing of HTTP requests and of the command line, socket and TLS
  input and output, log messages, the delays between reconnections, and the names of JSON fields.
  The name server and the long poll are modelled on their own but are no steps of the process, as
  they only read the store. The choice of the TLS provider at the start of \<open>main\<close> is a call into
  \<open>rustls\<close> without effect on the rest.
\<close>

section \<open>Every history of the server\<close>

text \<open>
  C1: in every state the server can reach, whatever requests it served, whatever writes failed
  and however often it was restarted, two different nodes never share an overlay address,
  also when they belong to different networks.
\<close>

theorem reachable_addresses_unique:
  assumes "ipnet_laws X" and "serde_ok S" and "reachable S X s P" and "current s = Some st"
    and "hm_get (st_nodes st) i = Some a" and "hm_get (st_nodes st) j = Some b" and "i \<noteq> j"
  shows "nd_ipv4 a \<noteq> nd_ipv4 b \<and> nd_ipv6 a \<noteq> nd_ipv6 b"
proof -
  have wf: "wf_maps X (st_networks st) (st_nodes st) (st_tokens st)"
    using reachable_current [OF assms(1-3)] assms(4) by (metis option.inject wf_state_def)
  show ?thesis
    using hm.pairs_get [OF wf_mapsD(2,7) [OF wf] assms(5-7)] by (simp add: distinct_addrs_def)
qed

theorem reachable_addresses_unique_witness:
  "nd_ipv4 ex_node1 \<noteq> nd_ipv4 ex_node2 \<and> nd_ipv6 ex_node1 \<noteq> nd_ipv6 ex_node2"
  by (rule reachable_addresses_unique [OF ex_ext_laws plain_serde_ok ex_store3_reachable,
        where st = ex_st3 and i = "''nd1''" and j = "''nd2''"])
    (simp_all add: ex_store3_eval ex_st3_def hm_get_def)

text \<open>
  C2: in every reachable state a node belongs to an existing network, and its addresses are
  the texts of addresses inside the two overlay prefixes of that network, the IPv4 address
  being neither the network address nor the last address of its prefix.
\<close>

theorem reachable_node_placed:
  assumes "ipnet_laws X" and "serde_ok S" and "reachable S X s P" and "current s = Some st"
    and "hm_get (st_nodes st) i = Some node"
  shows "nd_id node = i \<and>
    (\<exists>net n4 n6 a4 a6. hm_get (st_networks st) (nd_network_id node) = Some net \<and>
      v4_parse X (net_overlay_v4 net) = Some n4 \<and> nd_ipv4 node = show_ipv4 a4 \<and>
      v4_contains X n4 a4 \<and> a4 \<noteq> v4_network X n4 \<and>
      unat a4 + 1 < unat (v4_network X n4) + 2 ^ (32 - v4_prefix_len X n4) \<and>
      v6_parse X (net_overlay_v6 net) = Some n6 \<and> nd_ipv6 node = show_ipv6 a6 \<and>
      v6_contains X n6 a6)"
proof -
  have wf: "wf_maps X (st_networks st) (st_nodes st) (st_tokens st)"
    using reachable_current [OF assms(1-3)] assms(4) by (metis option.inject wf_state_def)
  from wf_maps_node [OF wf assms(5)] obtain net
    where net: "hm_get (st_networks st) (nd_network_id node) = Some net"
      and node: "nd_id node = i" "addr_issued X net node"
    by (auto simp: wf_node_def split: option.splits)
  obtain n4 n6 m where n: "v4_parse X (net_overlay_v4 net) = Some n4"
    "max_ipv4_offset X n4 = Some m" "unat (net_next_ipv4 net) \<le> unat m + 1"
    using wf_maps_network [OF wf net] by (rule wf_networkE)
  obtain a4 n6 a6 where a: "nd_ipv4 node = show_ipv4 a4" "unat (v4_network X n4) < unat a4"
    "unat a4 < unat (v4_network X n4) + unat (net_next_ipv4 net)"
    "v6_parse X (net_overlay_v6 net) = Some n6" "nd_ipv6 node = show_ipv6 a6" "v6_contains X n6 a6"
    using addr_issuedE [OF node(2)] n(1) by (metis option.inject)
  have "v4_contains X n4 a4"
    by (rule issued_v4_in_overlay [OF assms(1) n(2,3) a(2,3)])
  moreover have "unat m < 2 ^ (32 - v4_prefix_len X n4) - 1"
    using v4_offset_not_broadcast [OF n(2) order_refl] .
  ultimately show ?thesis
    using net node(1) n a by (intro conjI exI [of _ net] exI) auto
qed

theorem reachable_node_placed_witness:
  "nd_id ex_node1 = ''nd1'' \<and>
    (\<exists>net n4 n6 a4 a6. hm_get (st_networks ex_st3) (nd_network_id ex_node1) = Some net \<and>
      v4_parse ex_ext (net_overlay_v4 net) = Some n4 \<and> nd_ipv4 ex_node1 = show_ipv4 a4 \<and>
      v4_contains ex_ext n4 a4 \<and> a4 \<noteq> v4_network ex_ext n4 \<and>
      unat a4 + 1 < unat (v4_network ex_ext n4) + 2 ^ (32 - v4_prefix_len ex_ext n4) \<and>
      v6_parse ex_ext (net_overlay_v6 net) = Some n6 \<and> nd_ipv6 ex_node1 = show_ipv6 a6 \<and>
      v6_contains ex_ext n6 a6)"
  by (rule reachable_node_placed [OF ex_ext_laws plain_serde_ok ex_store3_reachable])
    (simp_all add: ex_store3_eval ex_st3_def hm_get_def)

text \<open>
  C3: in every reachable state the overlays of two different networks are disjoint: no IPv4
  and no IPv6 address lies in both.
\<close>

theorem reachable_overlays_disjoint:
  assumes "ipnet_laws X" and "serde_ok S" and "reachable S X s P" and "current s = Some st"
    and "hm_get (st_networks st) i = Some a" and "hm_get (st_networks st) j = Some b" and "i \<noteq> j"
  shows "\<exists>a4 a6 b4 b6. v4_parse X (net_overlay_v4 a) = Some a4 \<and> v6_parse X (net_overlay_v6 a) = Some a6 \<and>
    v4_parse X (net_overlay_v4 b) = Some b4 \<and> v6_parse X (net_overlay_v6 b) = Some b6 \<and>
    (\<nexists>addr. v4_contains X a4 addr \<and> v4_contains X b4 addr) \<and>
    (\<nexists>addr. v6_contains X a6 addr \<and> v6_contains X b6 addr)"
proof -
  have wf: "wf_maps X (st_networks st) (st_nodes st) (st_tokens st)"
    using reachable_current [OF assms(1-3)] assms(4) by (metis option.inject wf_state_def)
  have "nets_disjoint X a b"
    by (rule hm.pairs_get [OF wf_mapsD(1,5) [OF wf] assms(5-7)])
  then show ?thesis
    using wf_maps_network [OF wf assms(5)] wf_maps_network [OF wf assms(6)]
    by (auto simp: nets_disjoint_def ipv4_nets_overlap_iff [OF assms(1)]
        ipv6_nets_overlap_iff [OF assms(1)] elim!: wf_networkE)
qed

theorem reachable_overlays_disjoint_witness:
  "\<exists>a4 a6 b4 b6. v4_parse ex_ext ''10.0.0.0/24'' = Some a4 \<and> v6_parse ex_ext ''fd00::/64'' = Some a6 \<and>
    v4_parse ex_ext ''10.1.0.0/30'' = Some b4 \<and> v6_parse ex_ext ''fd01::/127'' = Some b6 \<and>
    (\<nexists>addr. v4_contains ex_ext a4 addr \<and> v4_contains ex_ext b4 addr) \<and>
    (\<nexists>addr. v6_contains ex_ext a6 addr \<and> v6_contains ex_ext b6 addr)"
proof -
  have "hm_get (st_networks ex_two_st) ''net-a'' = Some (ex_net 10 10)"
    "hm_get (st_networks ex_two_st) ''net-b'' = Some ex_net_b" "current ex_two_networks = Some ex_two_st"
    "net_overlay_v4 (ex_net 10 10) = ''10.0.0.0/24''" "net_overlay_v6 (ex_net 10 10) = ''fd00::/64''"
    "net_overlay_v4 ex_net_b = ''10.1.0.0/30''" "net_overlay_v6 ex_net_b = ''fd01::/127''"
    by (simp_all add: ex_two_networks_eval ex_two_st_def hm_get_def ex_net_def ex_net_b_def)
  moreover have "''net-a'' \<noteq> ''net-b''" by simp
  ultimately show ?thesis
    using reachable_overlays_disjoint [OF ex_ext_laws plain_serde_ok ex_two_networks_reachable] by metis
qed

text \<open>
  C4: in every reachable state an enrollment token is stored under its own secret, belongs to
  an existing network and has at least one use left.
\<close>

theorem reachable_tokens_live:
  assumes "ipnet_laws X" and "serde_ok S" and "reachable S X s P" and "current s = Some st"
    and "hm_get (st_tokens st) k = Some tok"
  shows "tk_token tok = k \<and> tk_uses_left tok \<noteq> 0 \<and>
    (\<exists>net. hm_get (st_networks st) (tk_network_id tok) = Some net \<and> net_id net = tk_network_id tok)"
proof -
  have wf: "wf_maps X (st_networks st) (st_nodes st) (st_tokens st)"
    using reachable_current [OF assms(1-3)] assms(4) by (metis option.inject wf_state_def)
  show ?thesis
    using wf_maps_token [OF wf assms(5)] wf_maps_network [OF wf]
    by (auto simp: wf_token_def hm_contains_key_def wf_network_def)
qed

theorem reachable_tokens_live_witness:
  "tk_token (ex_tok 1) = ''net-a-secret'' \<and> tk_uses_left (ex_tok 1) \<noteq> 0 \<and>
   (\<exists>net. hm_get (st_networks ex_st2) (tk_network_id (ex_tok 1)) = Some net \<and>
      net_id net = tk_network_id (ex_tok 1))"
  by (rule reachable_tokens_live [OF ex_ext_laws plain_serde_ok ex_store2_reachable])
    (simp_all add: ex_store2_eval ex_st2_def hm_get_def)

text \<open>
  C8: no request removes or rewrites an entry of the audit log, and none lowers the revision,
  on either backend and whatever its outcome.
\<close>

theorem request_keeps_log:
  assumes "dispatch S io id io' X E app h req s = (res, s')" and "current s = Some st"
  shows "\<exists>st'. current s' = Some st' \<and> prefix (st_audit_log st) (st_audit_log st') \<and>
    st_revision st \<le> st_revision st'"
  using assms by (rule dispatch_log) blast

theorem request_keeps_log_witness:
  "prefix (st_audit_log ex_st1) (st_audit_log ex_st2) \<and> st_revision ex_st1 \<le> st_revision ex_st2"
proof -
  obtain res s' where d: "dispatch plain_serde all_ok id all_ok ex_ext (ex_env 1010 ''nd1'') ex_app no_headers
      (ex_register ''net-a-secret'' ''alpha'') ex_store1 = (res, s')"
    by fastforce
  then have "s' = ex_store2"
    by (simp add: ex_store2_def ex_run_def)
  then show ?thesis
    using request_keeps_log [OF d, of ex_st1] by (simp add: ex_store1_eval ex_store2_eval)
qed

text \<open>
  C9: Whatever requests overlap, in whatever order their snapshots reach the file, and whatever
  write is interrupted, a restart loads nothing the server has not decided: the audit log
  it would load is a prefix of the log in use, and the revision is not higher.
\<close>

theorem restart_loads_earlier:
  assumes "serde_ok S" and "reachable S X (File inner path disk) P"
  shows "prefix (st_audit_log (store_load S disk path)) (st_audit_log inner) \<and>
    st_revision (store_load S disk path) \<le> st_revision inner"
  using reachable_lagging [OF assms] by (simp add: lagging_def behind_def)

theorem restart_loads_earlier_witness:
  "prefix (st_audit_log ex_st1) (st_audit_log ex_st2) \<and> st_revision ex_st1 \<le> st_revision ex_st2 \<and>
   store_load plain_serde (\<lambda>p. if p = ''s'' then Some ex_st1 else None) (Some ''s'') = ex_st1"
proof -
  have load: "store_load plain_serde (\<lambda>p. if p = ''s'' then Some ex_st1 else None) (Some ''s'') = ex_st1"
    by (simp add: store_load_def load_state_def plain_serde_def)
  from restart_loads_earlier [OF plain_serde_ok ex_overlap_reachable [unfolded ex_file_def]] show ?thesis
    by (simp only: load)
qed

section \<open>Authorisation\<close>

text \<open>
  C10: with an administrator token configured, a request of the administrative interface whose
  bearer token is absent or different is answered with \<open>Unauthorized\<close> (status 401) and
  does not touch the store.
\<close>

theorem admin_guard:
  assumes "app_admin_token app = Some t" and "bearer_token h \<noteq> Some t" and "admin_request req"
  shows "dispatch S io between io' X E app h req s = (Inl (Unauthorized ''admin token required''), s) \<and>
    fst (into_response (Unauthorized ''admin token required'')) = 401"
proof -
  have "require_admin h (app_admin_token app) = Inl (Unauthorized ''admin token required'')"
    using assms(1,2) by (simp add: require_admin_cases)
  then show ?thesis
    using dispatch_admin_refused [OF assms(3)] by (simp add: into_response_def)
qed

theorem admin_guard_witness:
  "dispatch plain_serde all_ok id all_ok ex_ext (ex_env 0 ''x'') ex_app no_headers (DeleteNetwork ''net-a'') ex_store3 =
     (Inl (Unauthorized ''admin token required''), ex_store3)"
proof -
  have "app_admin_token ex_app = Some ''root''" "bearer_token no_headers \<noteq> Some ''root''"
    by (simp_all add: ex_app_def no_headers_def bearer_token_def)
  then show ?thesis
    using admin_guard [of ex_app "''root''" no_headers "DeleteNetwork ''net-a''"]
    by (metis admin_request.simps(10))
qed



section \<open>From the command line to the first request\<close>

text \<open>
  C33: a server that starts on a new file or a new database is in a state that the histories
  above begin with, has an administrator token to check requests against, was given at
  most one database setting, and has no mesh, or one that \<open>mesh::start\<close> takes unless its
  own id is blank, with the peers the topology shows.
\<close>

theorem startup_guarded:
  assumes "startup read_file (load_store S disk connected cr io None) args = Inr (store, app, mesh)"
    and "disk (a_state args) = None"
  shows "reachable S X store {#} \<and> (\<exists>token. app_admin_token app = Some token) \<and>
    (a_db_url args = None \<or> a_db_url_file args = None) \<and>
    (case mesh of
       None \<Rightarrow> app_mesh_peers app = []
     | Some c \<Rightarrow> app_mesh_peers app = map (\<lambda>p. \<lparr>mpm_id = mp_id p, mpm_addr = mp_addr p\<rparr>) (mc_peers c) \<and>
         app_mesh_peers app \<noteq> [] \<and> list_all (\<lambda>p. mpm_id p \<noteq> [] \<and> mpm_addr p \<noteq> []) (app_mesh_peers app) \<and>
         (trim (mc_server_id c) = [] \<or> (\<exists>cx. start_context (mc_server_id c) (mc_max_hops c) (mc_peers c) = Inr cx)))"
proof -
  from assms(1) have "reachable S X store {#}"
  proof (rule startupE)
    fix choice
    assume choice: "resolve_store read_file args = Inr choice" "load_store S disk connected cr io None choice = Inr store"
    show ?thesis
    proof (cases choice)
      case (UseDb url)
      with choice(2) obtain row where "init_db cr io None = (Inr (), row)" "store = Db row"
        by (auto simp: load_store_def load_db_def split: if_split_asm prod.splits sum.splits)
      then show ?thesis using reachable.fresh_db by metis
    next
      case (UseFile path)
      with choice(1) have "path = a_state args"
        by (auto simp: resolve_store_def Let_def split: if_split_asm option.splits)
      with UseFile choice(2) assms(2) show ?thesis
        by (auto simp: load_store_def intro: reachable.fresh_file)
    qed
  qed
  with startup_checked [OF assms(1)] show ?thesis by auto
qed

theorem startup_guarded_witness:
  "\<exists>store app. startup (\<lambda>_. None) (load_store plain_serde (\<lambda>_. None) True False all_ok None) ex_args =
      Inr (store, app, Some ex_mesh_config) \<and> reachable plain_serde ex_ext store {#} \<and>
     app_mesh_peers app = [\<lparr>mpm_id = ''b'', mpm_addr = ''h:1''\<rparr>]"
proof -
  have "load_store plain_serde (\<lambda>_. None) True False all_ok None (UseFile ''state.json'') =
      Inr (File (store_load plain_serde (\<lambda>_. None) (Some ''state.json'')) (Some ''state.json'') (\<lambda>_. None))"
    by (simp add: load_store_def)
  from ex_startup [where load = "load_store plain_serde (\<lambda>_. None) True False all_ok None", OF this] obtain app store where
    s: "startup (\<lambda>_. None) (load_store plain_serde (\<lambda>_. None) True False all_ok None) ex_args =
      Inr (store, app, Some ex_mesh_config)" by blast
  from startup_guarded [OF this refl, of ex_ext] s show ?thesis by (auto simp: ex_mesh_config_def)
qed

end
